theory Spec2Isabelle
  imports Complex_Main "HOL-Library.Word" "HOL-Library.Log_Nat"
begin

unbundle bit_operations_syntax

section \<open>Basic types\<close>

text \<open>
  The program is \<^verbatim>\<open>src/main.cpp\<close>.  Its \<^verbatim>\<open>uint32_t\<close> values are 32-bit words;
  flag sets (\<^verbatim>\<open>VkFlags\<close>) are 32-bit words as well.  A C++ exception is a value of
  type \<open>error\<close> that carries the message of the \<^verbatim>\<open>throw\<close>.
\<close>

type_synonym uint32_t = "32 word"
type_synonym uint64_t = "64 word"
type_synonym VkFlags = "32 word"

datatype error = runtime_error string | invalid_argument string

section \<open>Device Resource Factory: \<^verbatim>\<open>findMemoryType\<close>\<close>

text \<open>
  \<^verbatim>\<open>VkPhysicalDeviceMemoryProperties\<close>: the count and, for each memory type, its
  \<^verbatim>\<open>propertyFlags\<close> (the heap index plays no part in the selection).  The C array has
  \<^verbatim>\<open>VK_MAX_MEMORY_TYPES = 32\<close> entries.
\<close>

record VkPhysicalDeviceMemoryProperties =
  memoryTypeCount :: uint32_t
  memoryTypes :: "VkFlags list"

definition VK_MAX_MEMORY_TYPES :: nat where
  "VK_MAX_MEMORY_TYPES = 32"

text \<open>
  What the Vulkan headers guarantee of the structure the driver fills in: the loop
  of \<^verbatim>\<open>findMemoryType\<close> reads \<^verbatim>\<open>memoryTypes[i]\<close> and shifts \<^verbatim>\<open>1 << i\<close> only for
  \<open>i\<close> below the count, so both stay in range.
\<close>

definition memProperties_ok :: "VkPhysicalDeviceMemoryProperties \<Rightarrow> bool" where
  "memProperties_ok mp \<longleftrightarrow>
     unat (memoryTypeCount mp) \<le> length (memoryTypes mp) \<and>
     length (memoryTypes mp) \<le> VK_MAX_MEMORY_TYPES"

text \<open>
  The loop \<^verbatim>\<open>for (uint32_t i = 0; i < memProperties.memoryTypeCount; i++)\<close>, entered at
  index \<open>i\<close>; falling out of the loop reaches the \<^verbatim>\<open>throw\<close>.
\<close>

function findMemoryType_loop ::
  "uint32_t \<Rightarrow> VkFlags \<Rightarrow> VkPhysicalDeviceMemoryProperties \<Rightarrow> nat \<Rightarrow> error + nat" where
  "findMemoryType_loop typeFilter properties memProperties i =
     (if i < unat (memoryTypeCount memProperties) then
        (if typeFilter AND push_bit i 1 \<noteq> 0 \<and>
            (memoryTypes memProperties ! i) AND properties = properties
         then Inr i
         else findMemoryType_loop typeFilter properties memProperties (Suc i))
      else Inl (runtime_error ''failed to find suitable memory type!''))"
  by pat_completeness auto
termination
  by (relation "measure (\<lambda>(typeFilter, properties, memProperties, i).
        unat (memoryTypeCount memProperties) - i)") auto

declare findMemoryType_loop.simps [simp del]

definition findMemoryType ::
  "VkPhysicalDeviceMemoryProperties \<Rightarrow> uint32_t \<Rightarrow> VkFlags \<Rightarrow> error + nat" where
  "findMemoryType memProperties typeFilter properties =
     findMemoryType_loop typeFilter properties memProperties 0"

text \<open>
  The selection criterion in words: bit \<open>i\<close> of the filter is set and the property flags
  of type \<open>i\<close> contain every requested property bit.
\<close>

definition suitable ::
  "VkPhysicalDeviceMemoryProperties \<Rightarrow> uint32_t \<Rightarrow> VkFlags \<Rightarrow> nat \<Rightarrow> bool" where
  "suitable memProperties typeFilter properties i \<longleftrightarrow>
     bit typeFilter i \<and>
     (\<forall>n. bit properties n \<longrightarrow> bit (memoryTypes memProperties ! i) n)"

section \<open>Transfer Engine: one-shot command buffers and layout transitions\<close>

text \<open>
  The enumerations and flag bits of \<^verbatim>\<open>vulkan_core.h\<close> that the program names.
\<close>

datatype VkImageLayout =
    VK_IMAGE_LAYOUT_UNDEFINED
  | VK_IMAGE_LAYOUT_GENERAL
  | VK_IMAGE_LAYOUT_COLOR_ATTACHMENT_OPTIMAL
  | VK_IMAGE_LAYOUT_DEPTH_STENCIL_ATTACHMENT_OPTIMAL
  | VK_IMAGE_LAYOUT_DEPTH_STENCIL_READ_ONLY_OPTIMAL
  | VK_IMAGE_LAYOUT_SHADER_READ_ONLY_OPTIMAL
  | VK_IMAGE_LAYOUT_TRANSFER_SRC_OPTIMAL
  | VK_IMAGE_LAYOUT_TRANSFER_DST_OPTIMAL
  | VK_IMAGE_LAYOUT_PREINITIALIZED
  | VK_IMAGE_LAYOUT_PRESENT_SRC_KHR

datatype VkFormat =
    VK_FORMAT_R8G8B8A8_SRGB
  | VK_FORMAT_B8G8R8A8_SRGB
  | VK_FORMAT_D32_SFLOAT
  | VK_FORMAT_D32_SFLOAT_S8_UINT
  | VK_FORMAT_D24_UNORM_S8_UINT

definition VK_ACCESS_SHADER_READ_BIT :: VkFlags where
  "VK_ACCESS_SHADER_READ_BIT = 0x00000020"

definition VK_ACCESS_TRANSFER_READ_BIT :: VkFlags where
  "VK_ACCESS_TRANSFER_READ_BIT = 0x00000800"

definition VK_ACCESS_TRANSFER_WRITE_BIT :: VkFlags where
  "VK_ACCESS_TRANSFER_WRITE_BIT = 0x00001000"

definition VK_PIPELINE_STAGE_TOP_OF_PIPE_BIT :: VkFlags where
  "VK_PIPELINE_STAGE_TOP_OF_PIPE_BIT = 0x00000001"

definition VK_PIPELINE_STAGE_FRAGMENT_SHADER_BIT :: VkFlags where
  "VK_PIPELINE_STAGE_FRAGMENT_SHADER_BIT = 0x00000080"

definition VK_PIPELINE_STAGE_TRANSFER_BIT :: VkFlags where
  "VK_PIPELINE_STAGE_TRANSFER_BIT = 0x00001000"

definition VK_FORMAT_FEATURE_SAMPLED_IMAGE_FILTER_LINEAR_BIT :: VkFlags where
  "VK_FORMAT_FEATURE_SAMPLED_IMAGE_FILTER_LINEAR_BIT = 0x00001000"

type_synonym VkImage = nat
type_synonym VkBuffer = nat

text \<open>
  \<^verbatim>\<open>VkImageMemoryBarrier\<close> with the fields the program sets to something other than a
  constant (aspect mask, array layer range and queue family indices never vary).
\<close>

record VkImageMemoryBarrier =
  oldLayout :: VkImageLayout
  newLayout :: VkImageLayout
  image :: VkImage
  baseMipLevel :: uint32_t
  levelCount :: uint32_t
  srcAccessMask :: VkFlags
  dstAccessMask :: VkFlags

text \<open>
  \<^verbatim>\<open>VkImageBlit\<close>: both offsets \<^verbatim>\<open>[0]\<close> are the origin, so a region is given by the
  \<open>x\<close> and \<open>y\<close> of its offset \<^verbatim>\<open>[1]\<close>, which are \<^verbatim>\<open>int32_t\<close>.  The arithmetic done on
  them is a comparison with 1 and a halving of values above 1, which cannot overflow,
  so they are integers here.
\<close>

record VkImageBlit =
  srcMipLevel :: uint32_t
  srcExtent :: "int \<times> int"
  dstMipLevel :: uint32_t
  dstExtent :: "int \<times> int"

text \<open>The commands the program records into a command buffer.\<close>

datatype command =
    CmdPipelineBarrier VkFlags VkFlags VkImageMemoryBarrier
  | CmdBlitImage VkImage VkImageLayout VkImage VkImageLayout VkImageBlit
  | CmdCopyBufferToImage VkBuffer VkImage VkImageLayout uint32_t uint32_t
  | CmdCopyBuffer VkBuffer VkBuffer uint64_t

type_synonym VkCommandBuffer = "command list"

text \<open>
  The resource calls the program makes on the logical device, with the arguments that
  matter here.  A created object's handle is the position of its creating call in the
  trace.
\<close>

datatype VkImageTiling = VK_IMAGE_TILING_OPTIMAL | VK_IMAGE_TILING_LINEAR

datatype api_call =
    CreateBuffer uint64_t VkFlags
  | CreateImage uint32_t uint32_t uint32_t VkFormat VkImageTiling VkFlags
  | AllocateMemory uint64_t nat
  | BindBufferMemory nat nat
  | BindImageMemory nat nat
  | MapCopyUnmap nat uint64_t
  | DestroyBuffer nat
  | FreeMemory nat

text \<open>
  The part of the logical device that the transfer functions touch: the commands that
  the graphics queue has executed, in order (\<^verbatim>\<open>endSingleTimeCommands\<close> submits and then
  waits for the queue to be idle), the number of one-shot command buffers that are
  allocated and not freed, and the trace of resource calls.
\<close>

record Device =
  executed :: "command list"
  liveCommandBuffers :: nat
  calls :: "api_call list"

definition beginSingleTimeCommands :: "Device \<Rightarrow> VkCommandBuffer \<times> Device" where
  "beginSingleTimeCommands dev =
     ([], dev\<lparr>liveCommandBuffers := liveCommandBuffers dev + 1\<rparr>)"

definition endSingleTimeCommands :: "VkCommandBuffer \<Rightarrow> Device \<Rightarrow> Device" where
  "endSingleTimeCommands commandBuffer dev =
     dev\<lparr>executed := executed dev @ commandBuffer,
         liveCommandBuffers := liveCommandBuffers dev - 1\<rparr>"

text \<open>The two lambdas of \<^verbatim>\<open>transitionImageLayout\<close>, each with its own \<^verbatim>\<open>throw\<close>.\<close>

definition transitionAccessMasks ::
  "VkImageLayout \<Rightarrow> VkImageLayout \<Rightarrow> error + (VkFlags \<times> VkFlags)" where
  "transitionAccessMasks oldL newL =
     (if oldL = VK_IMAGE_LAYOUT_UNDEFINED \<and> newL = VK_IMAGE_LAYOUT_TRANSFER_DST_OPTIMAL
      then Inr (0, VK_ACCESS_TRANSFER_WRITE_BIT)
      else if oldL = VK_IMAGE_LAYOUT_TRANSFER_DST_OPTIMAL
              \<and> newL = VK_IMAGE_LAYOUT_SHADER_READ_ONLY_OPTIMAL
      then Inr (VK_ACCESS_TRANSFER_WRITE_BIT, VK_ACCESS_SHADER_READ_BIT)
      else Inl (invalid_argument ''unsupported layout transition!''))"

definition transitionStages ::
  "VkImageLayout \<Rightarrow> VkImageLayout \<Rightarrow> error + (VkFlags \<times> VkFlags)" where
  "transitionStages oldL newL =
     (if oldL = VK_IMAGE_LAYOUT_UNDEFINED \<and> newL = VK_IMAGE_LAYOUT_TRANSFER_DST_OPTIMAL
      then Inr (VK_PIPELINE_STAGE_TOP_OF_PIPE_BIT, VK_PIPELINE_STAGE_TRANSFER_BIT)
      else if oldL = VK_IMAGE_LAYOUT_TRANSFER_DST_OPTIMAL
              \<and> newL = VK_IMAGE_LAYOUT_SHADER_READ_ONLY_OPTIMAL
      then Inr (VK_PIPELINE_STAGE_TRANSFER_BIT, VK_PIPELINE_STAGE_FRAGMENT_SHADER_BIT)
      else Inl (invalid_argument ''unsupported layout transition!''))"

text \<open>
  \<^verbatim>\<open>transitionImageLayout\<close>.  The command buffer is begun before the lambdas run, so
  an exception leaves it allocated; the device is returned in both cases.
\<close>

definition transitionImageLayout ::
  "VkImage \<Rightarrow> VkFormat \<Rightarrow> VkImageLayout \<Rightarrow> VkImageLayout \<Rightarrow> uint32_t \<Rightarrow> Device
     \<Rightarrow> (error + unit) \<times> Device" where
  "transitionImageLayout img format oldL newL mipLevels dev =
     (let (commandBuffer, dev1) = beginSingleTimeCommands dev in
      case transitionAccessMasks oldL newL of
        Inl e \<Rightarrow> (Inl e, dev1)
      | Inr (srcAccess, dstAccess) \<Rightarrow>
          (case transitionStages oldL newL of
             Inl e \<Rightarrow> (Inl e, dev1)
           | Inr (sourceStage, destinationStage) \<Rightarrow>
               (let barrier = \<lparr>oldLayout = oldL, newLayout = newL, image = img,
                                baseMipLevel = 0, levelCount = mipLevels,
                                srcAccessMask = srcAccess, dstAccessMask = dstAccess\<rparr>;
                    commandBuffer1 =
                      commandBuffer @ [CmdPipelineBarrier sourceStage destinationStage barrier]
                in (Inr (), endSingleTimeCommands commandBuffer1 dev1))))"

definition copyBufferToImage ::
  "VkBuffer \<Rightarrow> VkImage \<Rightarrow> uint32_t \<Rightarrow> uint32_t \<Rightarrow> Device \<Rightarrow> Device" where
  "copyBufferToImage srcBuffer dstImage width height dev =
     (let (commandBuffer, dev1) = beginSingleTimeCommands dev;
          commandBuffer1 = commandBuffer @
            [CmdCopyBufferToImage srcBuffer dstImage VK_IMAGE_LAYOUT_TRANSFER_DST_OPTIMAL
               width height]
      in endSingleTimeCommands commandBuffer1 dev1)"

text \<open>The pipeline barriers in a command list.\<close>

fun barriers_of :: "command list \<Rightarrow> VkImageMemoryBarrier list" where
  "barriers_of [] = []"
| "barriers_of (CmdPipelineBarrier s d b # cs) = b # barriers_of cs"
| "barriers_of (c # cs) = barriers_of cs"

section \<open>Mipmap Generator\<close>

text \<open>
  The layout of every mip level of every image, as the driver sees it.  A pipeline
  barrier puts the levels of its subresource range into its new layout; the other
  commands leave layouts alone.
\<close>

type_synonym layouts = "VkImage \<Rightarrow> nat \<Rightarrow> VkImageLayout"

fun apply_command :: "command \<Rightarrow> layouts \<Rightarrow> layouts" where
  "apply_command (CmdPipelineBarrier s d b) L =
     (\<lambda>img lvl. if img = image b \<and> unat (baseMipLevel b) \<le> lvl
                    \<and> lvl < unat (baseMipLevel b) + unat (levelCount b)
                 then newLayout b else L img lvl)"
| "apply_command c L = L"

definition apply_commands :: "command list \<Rightarrow> layouts \<Rightarrow> layouts" where
  "apply_commands cs L = foldl (\<lambda>L c. apply_command c L) L cs"

fun blits_of :: "command list \<Rightarrow> VkImageBlit list" where
  "blits_of [] = []"
| "blits_of (CmdBlitImage si sl di dl b # cs) = b # blits_of cs"
| "blits_of (c # cs) = blits_of cs"

text \<open>
  One iteration of the loop of \<^verbatim>\<open>generateMipmaps\<close> at index \<open>i\<close>: barrier of level
  \<open>i - 1\<close> to transfer-source, blit into level \<open>i\<close>, barrier of level \<open>i - 1\<close> to
  shader-read-only.  The barrier object is reused; every field that varies is assigned
  before each use.
\<close>

definition mip_iteration :: "VkImage \<Rightarrow> nat \<Rightarrow> int \<Rightarrow> int \<Rightarrow> command list" where
  "mip_iteration img i mipWidth mipHeight =
     [CmdPipelineBarrier VK_PIPELINE_STAGE_TRANSFER_BIT VK_PIPELINE_STAGE_TRANSFER_BIT
        \<lparr>oldLayout = VK_IMAGE_LAYOUT_TRANSFER_DST_OPTIMAL,
         newLayout = VK_IMAGE_LAYOUT_TRANSFER_SRC_OPTIMAL,
         image = img, baseMipLevel = word_of_nat (i - 1), levelCount = 1,
         srcAccessMask = VK_ACCESS_TRANSFER_WRITE_BIT,
         dstAccessMask = VK_ACCESS_TRANSFER_READ_BIT\<rparr>,
      CmdBlitImage img VK_IMAGE_LAYOUT_TRANSFER_SRC_OPTIMAL
                   img VK_IMAGE_LAYOUT_TRANSFER_DST_OPTIMAL
        \<lparr>srcMipLevel = word_of_nat (i - 1),
         srcExtent = (mipWidth, mipHeight),
         dstMipLevel = word_of_nat i,
         dstExtent = (if mipWidth > 1 then mipWidth div 2 else 1,
                      if mipHeight > 1 then mipHeight div 2 else 1)\<rparr>,
      CmdPipelineBarrier VK_PIPELINE_STAGE_TRANSFER_BIT VK_PIPELINE_STAGE_FRAGMENT_SHADER_BIT
        \<lparr>oldLayout = VK_IMAGE_LAYOUT_TRANSFER_SRC_OPTIMAL,
         newLayout = VK_IMAGE_LAYOUT_SHADER_READ_ONLY_OPTIMAL,
         image = img, baseMipLevel = word_of_nat (i - 1), levelCount = 1,
         srcAccessMask = VK_ACCESS_TRANSFER_READ_BIT,
         dstAccessMask = VK_ACCESS_SHADER_READ_BIT\<rparr>]"

text \<open>
  The loop \<^verbatim>\<open>for (uint32_t i = 1; i < mipLevels; i++)\<close> entered at \<open>i\<close> with the current
  \<^verbatim>\<open>mipWidth\<close> and \<^verbatim>\<open>mipHeight\<close>; it returns the commands it records.
\<close>

function generateMipmaps_loop ::
  "VkImage \<Rightarrow> uint32_t \<Rightarrow> nat \<Rightarrow> int \<Rightarrow> int \<Rightarrow> command list" where
  "generateMipmaps_loop img mipLevels i mipWidth mipHeight =
     (if i < unat mipLevels then
        mip_iteration img i mipWidth mipHeight @
        generateMipmaps_loop img mipLevels (Suc i)
          (if mipWidth > 1 then mipWidth div 2 else mipWidth)
          (if mipHeight > 1 then mipHeight div 2 else mipHeight)
      else [])"
  by pat_completeness auto
termination
  by (relation "measure (\<lambda>(img, mipLevels, i, mipWidth, mipHeight). unat mipLevels - i)")
     auto

declare generateMipmaps_loop.simps [simp del]

text \<open>
  \<^verbatim>\<open>generateMipmaps\<close>.  \<open>optimalTilingFeatures\<close> is what
  \<^verbatim>\<open>vkGetPhysicalDeviceFormatProperties\<close> reports for the format.  The last barrier
  takes level \<^verbatim>\<open>mipLevels - 1\<close>, computed in \<^verbatim>\<open>uint32_t\<close>.
\<close>

definition generateMipmaps ::
  "(VkFormat \<Rightarrow> VkFlags) \<Rightarrow> VkImage \<Rightarrow> VkFormat \<Rightarrow> int \<Rightarrow> int \<Rightarrow> uint32_t \<Rightarrow> Device
     \<Rightarrow> (error + unit) \<times> Device" where
  "generateMipmaps optimalTilingFeatures img imageFormat texWidth texHeight mipLevels dev =
     (if optimalTilingFeatures imageFormat
           AND VK_FORMAT_FEATURE_SAMPLED_IMAGE_FILTER_LINEAR_BIT = 0
      then (Inl (runtime_error ''texture image format does not support linear blitting!''),
            dev)
      else
        (let (commandBuffer, dev1) = beginSingleTimeCommands dev;
             commandBuffer1 =
               commandBuffer @ generateMipmaps_loop img mipLevels 1 texWidth texHeight;
             commandBuffer2 = commandBuffer1 @
               [CmdPipelineBarrier VK_PIPELINE_STAGE_TRANSFER_BIT
                  VK_PIPELINE_STAGE_FRAGMENT_SHADER_BIT
                  \<lparr>oldLayout = VK_IMAGE_LAYOUT_TRANSFER_DST_OPTIMAL,
                   newLayout = VK_IMAGE_LAYOUT_SHADER_READ_ONLY_OPTIMAL,
                   image = img, baseMipLevel = mipLevels - 1, levelCount = 1,
                   srcAccessMask = VK_ACCESS_TRANSFER_WRITE_BIT,
                   dstAccessMask = VK_ACCESS_SHADER_READ_BIT\<rparr>]
         in (Inr (), endSingleTimeCommands commandBuffer2 dev1)))"

text \<open>The extent the specification gives for mip level \<open>i\<close> of a \<open>w \<times> h\<close> image.\<close>

definition mip_extent :: "int \<Rightarrow> int \<Rightarrow> nat \<Rightarrow> int \<times> int" where
  "mip_extent w h i = (max 1 (w div 2 ^ i), max 1 (h div 2 ^ i))"

text \<open>
  The value of \<^verbatim>\<open>mipWidth\<close> (or \<^verbatim>\<open>mipHeight\<close>) after \<open>k\<close> executions of
  \<^verbatim>\<open>if (mipWidth > 1) mipWidth /= 2;\<close> starting from \<open>w\<close>.
\<close>

fun mip_dim :: "int \<Rightarrow> nat \<Rightarrow> int" where
  "mip_dim w 0 = w"
| "mip_dim w (Suc k) = mip_dim (if w > 1 then w div 2 else w) k"

text \<open>The last barrier that \<^verbatim>\<open>generateMipmaps\<close> records, after its loop.\<close>

definition final_barrier :: "VkImage \<Rightarrow> uint32_t \<Rightarrow> command" where
  "final_barrier img mipLevels =
     CmdPipelineBarrier VK_PIPELINE_STAGE_TRANSFER_BIT VK_PIPELINE_STAGE_FRAGMENT_SHADER_BIT
       \<lparr>oldLayout = VK_IMAGE_LAYOUT_TRANSFER_DST_OPTIMAL,
        newLayout = VK_IMAGE_LAYOUT_SHADER_READ_ONLY_OPTIMAL,
        image = img, baseMipLevel = mipLevels - 1, levelCount = 1,
        srcAccessMask = VK_ACCESS_TRANSFER_WRITE_BIT,
        dstAccessMask = VK_ACCESS_SHADER_READ_BIT\<rparr>"

section \<open>Texture upload: \<^verbatim>\<open>StbTextureLoader::load\<close> and \<^verbatim>\<open>createTextureImage\<close>\<close>

datatype VkResult =
    VK_SUCCESS
  | VK_NOT_READY
  | VK_TIMEOUT
  | VK_SUBOPTIMAL_KHR
  | VK_ERROR_OUT_OF_DATE_KHR
  | VK_ERROR_OUT_OF_HOST_MEMORY
  | VK_ERROR_OUT_OF_DEVICE_MEMORY
  | VK_ERROR_DEVICE_LOST
  | VK_ERROR_SURFACE_LOST_KHR

definition VK_MEMORY_PROPERTY_DEVICE_LOCAL_BIT :: VkFlags where
  "VK_MEMORY_PROPERTY_DEVICE_LOCAL_BIT = 0x00000001"

definition VK_MEMORY_PROPERTY_HOST_VISIBLE_BIT :: VkFlags where
  "VK_MEMORY_PROPERTY_HOST_VISIBLE_BIT = 0x00000002"

definition VK_MEMORY_PROPERTY_HOST_COHERENT_BIT :: VkFlags where
  "VK_MEMORY_PROPERTY_HOST_COHERENT_BIT = 0x00000004"

definition VK_BUFFER_USAGE_TRANSFER_SRC_BIT :: VkFlags where
  "VK_BUFFER_USAGE_TRANSFER_SRC_BIT = 0x00000001"

definition VK_IMAGE_USAGE_TRANSFER_SRC_BIT :: VkFlags where
  "VK_IMAGE_USAGE_TRANSFER_SRC_BIT = 0x00000001"

definition VK_IMAGE_USAGE_TRANSFER_DST_BIT :: VkFlags where
  "VK_IMAGE_USAGE_TRANSFER_DST_BIT = 0x00000002"

definition VK_IMAGE_USAGE_SAMPLED_BIT :: VkFlags where
  "VK_IMAGE_USAGE_SAMPLED_BIT = 0x00000004"

text \<open>
  What the driver answers to the calls of \<^verbatim>\<open>createBuffer\<close> and \<^verbatim>\<open>createImage\<close> and to
  the queries of the physical device.  Memory requirements are a size and the
  \<^verbatim>\<open>memoryTypeBits\<close> filter.
\<close>

record Driver =
  deviceMemoryProperties :: VkPhysicalDeviceMemoryProperties
  formatOptimalTilingFeatures :: "VkFormat \<Rightarrow> VkFlags"
  resultCreateBuffer :: VkResult
  bufferMemoryRequirements :: "uint64_t \<times> uint32_t"
  resultAllocateBufferMemory :: VkResult
  resultCreateImage :: VkResult
  imageMemoryRequirements :: "uint64_t \<times> uint32_t"
  resultAllocateImageMemory :: VkResult

definition createBuffer ::
  "Driver \<Rightarrow> uint64_t \<Rightarrow> VkFlags \<Rightarrow> VkFlags \<Rightarrow> Device
     \<Rightarrow> (error + (nat \<times> nat)) \<times> Device" where
  "createBuffer drv bufferSize usage properties dev =
     (let buffer = length (calls dev);
          dev1 = dev\<lparr>calls := calls dev @ [CreateBuffer bufferSize usage]\<rparr>
      in if resultCreateBuffer drv \<noteq> VK_SUCCESS
         then (Inl (runtime_error ''failed to create buffer!''), dev1)
         else
           (case findMemoryType (deviceMemoryProperties drv) (snd (bufferMemoryRequirements drv))
                   properties of
              Inl e \<Rightarrow> (Inl e, dev1)
            | Inr memoryTypeIndex \<Rightarrow>
                (let bufferMemory = length (calls dev1);
                     dev2 = dev1\<lparr>calls := calls dev1 @
                       [AllocateMemory (fst (bufferMemoryRequirements drv)) memoryTypeIndex]\<rparr>
                 in if resultAllocateBufferMemory drv \<noteq> VK_SUCCESS
                    then (Inl (runtime_error ''failed to allocate buffer memory!''), dev2)
                    else (Inr (buffer, bufferMemory),
                          dev2\<lparr>calls := calls dev2 @
                            [BindBufferMemory buffer bufferMemory]\<rparr>))))"

definition createImage ::
  "Driver \<Rightarrow> uint32_t \<Rightarrow> uint32_t \<Rightarrow> uint32_t \<Rightarrow> VkFormat \<Rightarrow> VkImageTiling \<Rightarrow> VkFlags
     \<Rightarrow> VkFlags \<Rightarrow> Device \<Rightarrow> (error + (nat \<times> nat)) \<times> Device" where
  "createImage drv width height mipLevels format tiling usage properties dev =
     (let img = length (calls dev);
          dev1 = dev\<lparr>calls := calls dev @
                   [CreateImage width height mipLevels format tiling usage]\<rparr>
      in if resultCreateImage drv \<noteq> VK_SUCCESS
         then (Inl (runtime_error ''failed to create image!''), dev1)
         else
           (case findMemoryType (deviceMemoryProperties drv) (snd (imageMemoryRequirements drv))
                   properties of
              Inl e \<Rightarrow> (Inl e, dev1)
            | Inr memoryTypeIndex \<Rightarrow>
                (let imageMemory = length (calls dev1);
                     dev2 = dev1\<lparr>calls := calls dev1 @
                       [AllocateMemory (fst (imageMemoryRequirements drv)) memoryTypeIndex]\<rparr>
                 in if resultAllocateImageMemory drv \<noteq> VK_SUCCESS
                    then (Inl (runtime_error ''failed to allocate image memory!''), dev2)
                    else (Inr (img, imageMemory),
                          dev2\<lparr>calls := calls dev2 @ [BindImageMemory img imageMemory]\<rparr>))))"

text \<open>
  \<^verbatim>\<open>StbTextureImage\<close>, and what \<^verbatim>\<open>stbi_load\<close> hands back: a null pointer, or the pixel
  bytes with the width, the height and the channel count of the file, as \<^verbatim>\<open>int\<close>.
\<close>

record StbTextureImage =
  m_width :: uint32_t
  m_height :: uint32_t
  m_channels :: uint32_t
  m_pixels :: "8 word list"

type_synonym stbi_result = "(int \<times> int \<times> int \<times> 8 word list) option"

text \<open>
  \<^verbatim>\<open>StbTextureLoader::load\<close>.  The mip count it computes before the null check is never
  used, so it is left out.
\<close>

definition load :: "stbi_result \<Rightarrow> error + StbTextureImage" where
  "load r =
     (case r of
        None \<Rightarrow> Inl (runtime_error ''failed to load texture image!'')
      | Some (textureWidth, textureHeight, textureChannels, pixels) \<Rightarrow>
          Inr \<lparr>m_width = word_of_int textureWidth, m_height = word_of_int textureHeight,
               m_channels = word_of_int textureChannels, m_pixels = pixels\<rparr>)"

text \<open>
  \<^verbatim>\<open>static_cast<uint32_t>(std::floor(std::log2(std::max(width, height)))) + 1\<close>.  The
  argument is below \<open>2\<^sup>3\<^sup>2\<close>, hence exact as a \<^verbatim>\<open>double\<close>; the logarithm is taken to be the
  exact one.  \<^const>\<open>floorlog\<close> is that expression: by definition
  \<open>floorlog 2 n = nat \<lfloor>log 2 n\<rfloor> + 1\<close> for \<open>n > 0\<close>, and it has a code equation that
  uses integer division only.  (For \<open>n = 0\<close> the C++ cast is undefined; no loaded image
  has that size.)
\<close>

definition mipLevelCount :: "uint32_t \<Rightarrow> uint32_t \<Rightarrow> uint32_t" where
  "mipLevelCount width height = word_of_nat (floorlog 2 (unat (max width height)))"

text \<open>
  The staging buffer size of \<^verbatim>\<open>createTextureImage\<close>: the product is formed in
  \<^verbatim>\<open>uint32_t\<close> and then widened to \<^verbatim>\<open>VkDeviceSize\<close>.
\<close>

definition imageSize :: "StbTextureImage \<Rightarrow> uint64_t" where
  "imageSize tex = ucast (m_width tex * m_height tex * (m_channels tex + 1))"

record Texture =
  m_textureImage :: nat
  m_textureImageMemory :: nat
  m_mipLevels :: uint32_t

definition createTextureImage ::
  "stbi_result \<Rightarrow> Driver \<Rightarrow> Device \<Rightarrow> (error + Texture) \<times> Device" where
  "createTextureImage stbi drv dev =
     (case load stbi of
        Inl e \<Rightarrow> (Inl e, dev)
      | Inr stbTextureImage \<Rightarrow>
          (let mipLevels = mipLevelCount (m_width stbTextureImage) (m_height stbTextureImage)
           in case createBuffer drv (imageSize stbTextureImage) VK_BUFFER_USAGE_TRANSFER_SRC_BIT
                     (VK_MEMORY_PROPERTY_HOST_VISIBLE_BIT OR VK_MEMORY_PROPERTY_HOST_COHERENT_BIT)
                     dev of
                (Inl e, dev1) \<Rightarrow> (Inl e, dev1)
              | (Inr (stagingBuffer, stagingBufferMemory), dev1) \<Rightarrow>
                  (let dev2 = dev1\<lparr>calls := calls dev1 @
                         [MapCopyUnmap stagingBufferMemory (imageSize stbTextureImage)]\<rparr>
                   in case createImage drv (m_width stbTextureImage) (m_height stbTextureImage)
                             mipLevels VK_FORMAT_R8G8B8A8_SRGB VK_IMAGE_TILING_OPTIMAL
                             (VK_IMAGE_USAGE_TRANSFER_SRC_BIT OR VK_IMAGE_USAGE_TRANSFER_DST_BIT
                                OR VK_IMAGE_USAGE_SAMPLED_BIT)
                             VK_MEMORY_PROPERTY_DEVICE_LOCAL_BIT dev2 of
                        (Inl e, dev3) \<Rightarrow> (Inl e, dev3)
                      | (Inr (textureImage, textureImageMemory), dev3) \<Rightarrow>
                          (case transitionImageLayout textureImage VK_FORMAT_R8G8B8A8_SRGB
                                  VK_IMAGE_LAYOUT_UNDEFINED VK_IMAGE_LAYOUT_TRANSFER_DST_OPTIMAL
                                  mipLevels dev3 of
                             (Inl e, dev4) \<Rightarrow> (Inl e, dev4)
                           | (Inr u, dev4) \<Rightarrow>
                               (let dev5 = copyBufferToImage stagingBuffer textureImage
                                             (m_width stbTextureImage)
                                             (m_height stbTextureImage) dev4;
                                    dev6 = dev5\<lparr>calls := calls dev5 @
                                             [DestroyBuffer stagingBuffer,
                                              FreeMemory stagingBufferMemory]\<rparr>
                                in case generateMipmaps (formatOptimalTilingFeatures drv) textureImage
                                          VK_FORMAT_R8G8B8A8_SRGB
                                          (sint (m_width stbTextureImage))
                                          (sint (m_height stbTextureImage)) mipLevels dev6 of
                                     (Inl e, dev7) \<Rightarrow> (Inl e, dev7)
                                   | (Inr u, dev7) \<Rightarrow>
                                       (Inr \<lparr>m_textureImage = textureImage,
                                             m_textureImageMemory = textureImageMemory,
                                             m_mipLevels = mipLevels\<rparr>, dev7))))))"

text \<open>
  What \<^verbatim>\<open>stbi_load\<close> guarantees of a successful load that was asked for four channels
  (\<^verbatim>\<open>STBI_rgb_alpha\<close>): positive dimensions, and a pixel buffer of
  \<open>width \<times> height \<times> 4\<close> bytes whose size fits an \<^verbatim>\<open>int\<close>.
\<close>

definition rgba_load :: "int \<times> int \<times> int \<times> 8 word list \<Rightarrow> bool" where
  "rgba_load r \<longleftrightarrow>
     (case r of (w, h, c, pixels) \<Rightarrow>
        0 < w \<and> 0 < h \<and> w * h * 4 \<le> 2 ^ 31 - 1 \<and> int (length pixels) = w * h * 4)"

text \<open>Whether a resource call creates an image.\<close>

fun is_CreateImage :: "api_call \<Rightarrow> bool" where
  "is_CreateImage (CreateImage w h m f t u) = True"
| "is_CreateImage c = False"

section \<open>Swapchain Provisioner: \<^verbatim>\<open>selectSwapExtent\<close>\<close>

record VkExtent2D =
  width :: uint32_t
  height :: uint32_t

record VkSurfaceCapabilitiesKHR =
  currentExtent :: VkExtent2D
  minImageExtent :: VkExtent2D
  maxImageExtent :: VkExtent2D

text \<open>\<^verbatim>\<open>std::clamp(v, lo, hi)\<close>, as the standard defines its result.\<close>

definition clamp :: "uint32_t \<Rightarrow> uint32_t \<Rightarrow> uint32_t \<Rightarrow> uint32_t" where
  "clamp v lo hi = (if v < lo then lo else if hi < v then hi else v)"

text \<open>
  \<^verbatim>\<open>selectSwapExtent\<close>.  Its second argument is what \<^verbatim>\<open>glfwGetWindowSize\<close> stores into
  \<^verbatim>\<open>_width\<close> and \<^verbatim>\<open>_height\<close>, two \<^verbatim>\<open>int\<close>s that are cast to \<^verbatim>\<open>uint32_t\<close>.  The sentinel
  is recognised by the width alone.
\<close>

definition selectSwapExtent :: "VkSurfaceCapabilitiesKHR \<Rightarrow> int \<times> int \<Rightarrow> VkExtent2D" where
  "selectSwapExtent capabilities windowSize =
     (if width (currentExtent capabilities) \<noteq> - 1
      then currentExtent capabilities
      else
        \<lparr>width = clamp (word_of_int (fst windowSize))
                   (width (minImageExtent capabilities)) (width (maxImageExtent capabilities)),
         height = clamp (word_of_int (snd windowSize))
                   (height (minImageExtent capabilities))
                   (height (maxImageExtent capabilities))\<rparr>)"

section \<open>Frame Synchronizer\<close>

text \<open>
  \<^verbatim>\<open>const int MAX_FRAMES_IN_FLIGHT = 2\<close>.  The functions below take the number of frames
  in flight as their first argument, so that statements can be made for every count;
  the program uses this constant.
\<close>

definition MAX_FRAMES_IN_FLIGHT :: nat where
  "MAX_FRAMES_IN_FLIGHT = 2"

text \<open>What the frame loop does, in order: the calls that matter for synchronisation.\<close>

datatype frame_event =
    WaitForFences nat
  | AcquireNextImageKHR nat
  | UpdateUniformBuffer nat
  | ResetFences nat
  | ResetCommandBuffer nat
  | RecordCommandBuffer nat nat
  | QueueSubmit nat
  | QueuePresentKHR nat
  | SetFramebufferResized bool
  | GetFramebufferSize
  | WaitEvents
  | DeviceWaitIdle
  | CleanupSwapChain
  | CreateSwapChain VkExtent2D
  | CreateImageViews
  | CreateDepthResources
  | CreateFramebuffers

text \<open>
  The state of the application that the frame loop reads and writes, together with the
  state of the GPU that its fences observe:
  \<^item> \<open>m_inFlightFences\<close>: for each frame slot, whether its fence is signaled;
  \<^item> \<open>pending\<close>: the frame slots whose command buffer has been submitted and has not
    finished executing, in submission order (a submission signals its slot's fence when
    it finishes);
  \<^item> \<open>polls\<close>: how many times \<^verbatim>\<open>glfwGetFramebufferSize\<close> has been called;
  \<^item> \<open>trace\<close>: the events so far.
\<close>

record App =
  m_currentFrame :: nat
  m_inFlightFences :: "bool list"
  pending :: "nat list"
  m_swapChainExtent :: VkExtent2D
  polls :: nat
  trace :: "frame_event list"

text \<open>
  What the surroundings answer during one call of \<^verbatim>\<open>draw\<close>: the results of the driver
  calls, the engine's resize flag at the time it is read, the framebuffer size that the
  \<open>k\<close>-th call of \<^verbatim>\<open>glfwGetFramebufferSize\<close> reports, the surface capabilities and the
  window size at the time the swapchain is created, and the exception, if any, that each
  of \<^verbatim>\<open>createImageViews\<close>, \<^verbatim>\<open>createDepthResources\<close> and \<^verbatim>\<open>createFramebuffers\<close> raises.
\<close>

record FrameEnv =
  resultAcquireNextImageKHR :: VkResult
  imageIndex :: nat
  resultBeginCommandBuffer :: VkResult
  resultEndCommandBuffer :: VkResult
  resultQueueSubmit :: VkResult
  resultQueuePresentKHR :: VkResult
  hasFramebufferResized :: bool
  framebufferSize :: "nat \<Rightarrow> int \<times> int"
  surfaceCapabilities :: VkSurfaceCapabilitiesKHR
  windowSize :: "int \<times> int"
  resultCreateSwapchainKHR :: VkResult
  errorCreateImageViews :: "error option"
  errorCreateDepthResources :: "error option"
  errorCreateFramebuffers :: "error option"

text \<open>
  A call returns, throws, or never returns (a wait that nothing will end); in each case
  with the state reached.
\<close>

datatype outcome = Returns App | Throws error App | Blocks App

fun outcome_state :: "outcome \<Rightarrow> App" where
  "outcome_state (Returns s) = s"
| "outcome_state (Throws e s) = s"
| "outcome_state (Blocks s) = s"

definition log_event :: "frame_event \<Rightarrow> App \<Rightarrow> App" where
  "log_event e s = s\<lparr>trace := trace s @ [e]\<rparr>"

text \<open>
  \<^verbatim>\<open>createRenderingSyncObjects\<close> creates one fence per frame slot, each with
  \<^verbatim>\<open>VK_FENCE_CREATE_SIGNALED_BIT\<close>; \<^verbatim>\<open>m_currentFrame\<close> starts at 0.  This is the state
  in which the frame loop starts, for a given initial swapchain extent.
\<close>

definition createRenderingSyncObjects :: "nat \<Rightarrow> bool list" where
  "createRenderingSyncObjects maxFramesInFlight = replicate maxFramesInFlight True"

definition initial_app :: "nat \<Rightarrow> VkExtent2D \<Rightarrow> App" where
  "initial_app maxFramesInFlight extent =
     \<lparr>m_currentFrame = 0,
      m_inFlightFences = createRenderingSyncObjects maxFramesInFlight,
      pending = [], m_swapChainExtent = extent, polls = 0, trace = []\<rparr>"

text \<open>The GPU finishes the submission of slot \<open>f\<close>: its fence becomes signaled.\<close>

definition retire :: "nat \<Rightarrow> App \<Rightarrow> App" where
  "retire f s =
     s\<lparr>pending := removeAll f (pending s),
       m_inFlightFences := (m_inFlightFences s)[f := True]\<rparr>"

text \<open>
  \<^verbatim>\<open>vkWaitForFences\<close> on the fence of slot \<open>f\<close> with timeout \<^verbatim>\<open>UINT64_MAX\<close>: it returns at
  once if the fence is signaled; otherwise it returns when the GPU has finished the
  slot's submission; with the fence unsignaled and nothing submitted it never returns.
\<close>

definition vkWaitForFences :: "nat \<Rightarrow> App \<Rightarrow> outcome" where
  "vkWaitForFences f s =
     (let s1 = log_event (WaitForFences f) s
      in if m_inFlightFences s1 ! f then Returns s1
         else if f \<in> set (pending s1) then Returns (retire f s1)
         else Blocks s1)"

definition vkResetFences :: "nat \<Rightarrow> App \<Rightarrow> App" where
  "vkResetFences f s =
     (log_event (ResetFences f) s)\<lparr>m_inFlightFences := (m_inFlightFences s)[f := False]\<rparr>"

text \<open>\<^verbatim>\<open>vkDeviceWaitIdle\<close>: returns when every submission has finished.\<close>

definition vkDeviceWaitIdle :: "App \<Rightarrow> App" where
  "vkDeviceWaitIdle s = log_event DeviceWaitIdle (foldr retire (pending s) s)"

text \<open>
  The polling loop of \<^verbatim>\<open>recreateSwapChain\<close>, entered with \<open>k\<close> calls of
  \<^verbatim>\<open>glfwGetFramebufferSize\<close> made and the size \<open>wh\<close> that the last one reported:
  \<^verbatim>\<open>while (width == 0 || height == 0) { glfwGetFramebufferSize(...); glfwWaitEvents(); }\<close>.
  It yields the number of calls made and the size on leaving the loop, or never
  leaves it.
\<close>

partial_function (option) pollFramebufferSize ::
  "(nat \<Rightarrow> int \<times> int) \<Rightarrow> nat \<Rightarrow> int \<times> int \<Rightarrow> (nat \<times> (int \<times> int)) option" where
  "pollFramebufferSize sizes k wh =
     (if fst wh = 0 \<or> snd wh = 0 then pollFramebufferSize sizes (Suc k) (sizes k)
      else Some (k, wh))"

text \<open>
  \<^verbatim>\<open>createSwapChain\<close>, reduced to the extent: the surface format, the present mode, the
  image count and the sharing mode do not enter any statement made here.
\<close>

definition createSwapChain :: "FrameEnv \<Rightarrow> App \<Rightarrow> outcome" where
  "createSwapChain env s =
     (let extent = selectSwapExtent (surfaceCapabilities env) (windowSize env);
          s1 = log_event (CreateSwapChain extent) s
      in if resultCreateSwapchainKHR env \<noteq> VK_SUCCESS
         then Throws (runtime_error ''failed to create swap chain!'') s1
         else Returns (s1\<lparr>m_swapChainExtent := extent\<rparr>))"

definition rebuild_step :: "frame_event \<Rightarrow> error option \<Rightarrow> App \<Rightarrow> outcome" where
  "rebuild_step e err s =
     (case err of None \<Rightarrow> Returns (log_event e s) | Some x \<Rightarrow> Throws x (log_event e s))"

text \<open>
  The tail of \<^verbatim>\<open>recreateSwapChain\<close>, after \<^verbatim>\<open>vkDeviceWaitIdle\<close>: \<^verbatim>\<open>cleanupSwapChain\<close>,
  \<^verbatim>\<open>createSwapChain\<close>, \<^verbatim>\<open>createImageViews\<close>, \<^verbatim>\<open>createDepthResources\<close>,
  \<^verbatim>\<open>createFramebuffers\<close>; an exception ends it.
\<close>

definition rebuildSwapChain :: "FrameEnv \<Rightarrow> App \<Rightarrow> outcome" where
  "rebuildSwapChain env s =
     (case createSwapChain env (log_event CleanupSwapChain s) of
        Returns s4 \<Rightarrow>
          (case rebuild_step CreateImageViews (errorCreateImageViews env) s4 of
             Returns s5 \<Rightarrow>
               (case rebuild_step CreateDepthResources (errorCreateDepthResources env) s5 of
                  Returns s6 \<Rightarrow>
                    rebuild_step CreateFramebuffers (errorCreateFramebuffers env) s6
                | other \<Rightarrow> other)
           | other \<Rightarrow> other)
      | other \<Rightarrow> other)"

text \<open>
  \<^verbatim>\<open>recreateSwapChain\<close>.  The first call of \<^verbatim>\<open>glfwGetFramebufferSize\<close> precedes the loop;
  each iteration of the loop calls it again and then \<^verbatim>\<open>glfwWaitEvents\<close>.
\<close>

definition recreateSwapChain :: "FrameEnv \<Rightarrow> App \<Rightarrow> outcome" where
  "recreateSwapChain env s =
     (case pollFramebufferSize (framebufferSize env) (Suc (polls s))
             (framebufferSize env (polls s)) of
        None \<Rightarrow> Blocks (log_event GetFramebufferSize s)
      | Some (k, wh) \<Rightarrow>
          (let s1 = s\<lparr>polls := k,
                      trace := trace s @ GetFramebufferSize #
                        concat (replicate (k - Suc (polls s)) [GetFramebufferSize, WaitEvents])\<rparr>;
               s2 = vkDeviceWaitIdle s1
           in rebuildSwapChain env s2))"

text \<open>\<^verbatim>\<open>recordCommandBuffer\<close>: it throws when beginning or ending the buffer fails.\<close>

definition recordCommandBuffer :: "FrameEnv \<Rightarrow> nat \<Rightarrow> App \<Rightarrow> outcome" where
  "recordCommandBuffer env f s =
     (let s1 = log_event (RecordCommandBuffer f (imageIndex env)) s
      in if resultBeginCommandBuffer env \<noteq> VK_SUCCESS
         then Throws (runtime_error ''failed to begin recording command buffer!'') s1
         else if resultEndCommandBuffer env \<noteq> VK_SUCCESS
         then Throws (runtime_error ''failed to record command buffer!'') s1
         else Returns s1)"

text \<open>
  The part of \<^verbatim>\<open>draw\<close> after a successful or suboptimal acquisition: from
  \<^verbatim>\<open>updateUniformBuffer\<close> to the advance of \<^verbatim>\<open>m_currentFrame\<close>.
\<close>

definition submit_and_present :: "nat \<Rightarrow> FrameEnv \<Rightarrow> App \<Rightarrow> outcome" where
  "submit_and_present maxFramesInFlight env s =
     (let f = m_currentFrame s;
          s1 = log_event (UpdateUniformBuffer f) s;
          s2 = vkResetFences f s1;
          s3 = log_event (ResetCommandBuffer f) s2
      in case recordCommandBuffer env f s3 of
           Returns s4 \<Rightarrow>
             (let s5 = log_event (QueueSubmit f) s4
              in if resultQueueSubmit env \<noteq> VK_SUCCESS
                 then Throws (runtime_error ''failed to submit draw command buffer!'') s5
                 else
                   (let s6 = s5\<lparr>pending := pending s5 @ [f]\<rparr>;
                        s7 = log_event (QueuePresentKHR (imageIndex env)) s6
                    in if resultQueuePresentKHR env = VK_ERROR_OUT_OF_DATE_KHR
                          \<or> resultQueuePresentKHR env = VK_SUBOPTIMAL_KHR
                          \<or> hasFramebufferResized env
                       then
                         (case recreateSwapChain env
                                 (log_event (SetFramebufferResized False) s7) of
                            Returns s8 \<Rightarrow>
                              Returns (s8\<lparr>m_currentFrame :=
                                            (m_currentFrame s8 + 1) mod maxFramesInFlight\<rparr>)
                          | other \<Rightarrow> other)
                       else if resultQueuePresentKHR env \<noteq> VK_SUCCESS
                       then Throws (runtime_error ''failed to present swap chain image!'') s7
                       else Returns (s7\<lparr>m_currentFrame :=
                                          (m_currentFrame s7 + 1) mod maxFramesInFlight\<rparr>)))
         | other \<Rightarrow> other)"

text \<open>\<^verbatim>\<open>draw\<close>.\<close>

definition draw :: "nat \<Rightarrow> FrameEnv \<Rightarrow> App \<Rightarrow> outcome" where
  "draw maxFramesInFlight env s =
     (case vkWaitForFences (m_currentFrame s) s of
        Returns s1 \<Rightarrow>
          (let s2 = log_event (AcquireNextImageKHR (m_currentFrame s1)) s1
           in if resultAcquireNextImageKHR env = VK_ERROR_OUT_OF_DATE_KHR
              then recreateSwapChain env s2
              else if resultAcquireNextImageKHR env \<noteq> VK_SUCCESS
                      \<and> resultAcquireNextImageKHR env \<noteq> VK_SUBOPTIMAL_KHR
              then Throws (runtime_error ''failed to acquire swap chain image!'') s2
              else submit_and_present maxFramesInFlight env s2)
      | other \<Rightarrow> other)"

text \<open>
  The runs of the frame loop: between two calls of \<^verbatim>\<open>draw\<close> the GPU may finish any of
  the submissions that are pending; a call of \<^verbatim>\<open>draw\<close> that returns is a step (one that
  throws ends the program).
\<close>

inductive reachable :: "nat \<Rightarrow> App \<Rightarrow> bool" for maxFramesInFlight :: nat where
  start: "reachable maxFramesInFlight (initial_app maxFramesInFlight extent)"
| gpu: "reachable maxFramesInFlight s \<Longrightarrow> f \<in> set (pending s)
          \<Longrightarrow> reachable maxFramesInFlight (retire f s)"
| frame: "reachable maxFramesInFlight s \<Longrightarrow> draw maxFramesInFlight env s = Returns s'
          \<Longrightarrow> reachable maxFramesInFlight s'"

text \<open>
  Named surroundings for examples: a window whose framebuffer is \<open>800 \<times> 600\<close> at every
  poll, and one that is minimised at the first two polls.
\<close>

definition steady_size :: "nat \<Rightarrow> int \<times> int" where
  "steady_size k = (800, 600)"

definition restored_size :: "nat \<Rightarrow> int \<times> int" where
  "restored_size k = (if k < 2 then (0, 0) else (800, 600))"

definition minimised_size :: "nat \<Rightarrow> int \<times> int" where
  "minimised_size k = (0, 0)"

text \<open>
  The invariant of the frame loop: there is one fence per frame slot, the current frame
  is a slot, no slot is pending twice, and a slot's fence is unsignaled exactly while
  its submission is pending.
\<close>

definition frame_inv :: "nat \<Rightarrow> App \<Rightarrow> bool" where
  "frame_inv maxFramesInFlight s \<longleftrightarrow>
     length (m_inFlightFences s) = maxFramesInFlight \<and>
     m_currentFrame s < maxFramesInFlight \<and>
     distinct (pending s) \<and>
     (\<forall>f \<in> set (pending s). f < maxFramesInFlight) \<and>
     (\<forall>f \<in> {..<maxFramesInFlight}. m_inFlightFences s ! f \<longleftrightarrow> f \<notin> set (pending s))"

text \<open>Surface capabilities and surroundings for examples.\<close>

definition sentinel_capabilities :: VkSurfaceCapabilitiesKHR where
  "sentinel_capabilities =
     \<lparr>currentExtent = \<lparr>width = - 1, height = - 1\<rparr>,
      minImageExtent = \<lparr>width = 1, height = 1\<rparr>,
      maxImageExtent = \<lparr>width = 4096, height = 4096\<rparr>\<rparr>"

definition example_env :: FrameEnv where
  "example_env =
     \<lparr>resultAcquireNextImageKHR = VK_SUCCESS, imageIndex = 0,
      resultBeginCommandBuffer = VK_SUCCESS, resultEndCommandBuffer = VK_SUCCESS,
      resultQueueSubmit = VK_SUCCESS, resultQueuePresentKHR = VK_SUCCESS,
      hasFramebufferResized = False, framebufferSize = steady_size,
      surfaceCapabilities = sentinel_capabilities, windowSize = (800, 600),
      resultCreateSwapchainKHR = VK_SUCCESS, errorCreateImageViews = None,
      errorCreateDepthResources = None, errorCreateFramebuffers = None\<rparr>"

text \<open>
  A surface whose current extent is \<open>0 \<times> 0\<close> (a minimised window), and a framebuffer of
  twice the window size (a display with scale factor 2).
\<close>

definition minimised_capabilities :: VkSurfaceCapabilitiesKHR where
  "minimised_capabilities =
     \<lparr>currentExtent = \<lparr>width = 0, height = 0\<rparr>,
      minImageExtent = \<lparr>width = 0, height = 0\<rparr>,
      maxImageExtent = \<lparr>width = 0, height = 0\<rparr>\<rparr>"

definition hidpi_size :: "nat \<Rightarrow> int \<times> int" where
  "hidpi_size k = (1600, 1200)"

text \<open>
  A window that is minimised at the first two polls, restored at the third, and minimised
  again while \<^verbatim>\<open>glfwWaitEvents\<close> runs after that poll: when \<^verbatim>\<open>createSwapChain\<close> asks for
  the surface capabilities, the surface reports \<open>0 \<times> 0\<close>.
\<close>

definition reminimised_size :: "nat \<Rightarrow> int \<times> int" where
  "reminimised_size k = (if k = 2 then (800, 600) else (0, 0))"

definition reminimised_env :: FrameEnv where
  "reminimised_env =
     example_env\<lparr>framebufferSize := reminimised_size,
       surfaceCapabilities := minimised_capabilities, windowSize := (0, 0)\<rparr>"


section \<open>Verification\<close>

section \<open>Memory-type selection\<close>

lemma filter_bit: "((tf::32 word) AND push_bit i 1 \<noteq> 0) = bit tf i"
  by (simp add: bit_iff_and_push_bit_not_eq_0)

lemma superset_flags: "((fl::32 word) AND p = p) = (\<forall>n. bit p n \<longrightarrow> bit fl n)"
proof
  assume eq: "fl AND p = p"
  show "\<forall>n. bit p n \<longrightarrow> bit fl n"
  proof (intro allI impI)
    fix n assume "bit p n"
    then have "bit (fl AND p) n" by (simp add: eq)
    then show "bit fl n" by (simp add: bit_and_iff)
  qed
next
  assume sup: "\<forall>n. bit p n \<longrightarrow> bit fl n"
  show "fl AND p = p"
    by (rule bit_eqI) (use sup in \<open>auto simp add: bit_and_iff\<close>)
qed

lemma loop_step_suitable:
  "(tf AND push_bit i 1 \<noteq> 0 \<and> (memoryTypes mp ! i) AND p = p) = suitable mp tf p i"
  by (simp only: suitable_def filter_bit superset_flags)

lemma findMemoryType_loop_unfold:
  "findMemoryType_loop tf p mp i =
     (if i < unat (memoryTypeCount mp) then
        (if suitable mp tf p i then Inr i else findMemoryType_loop tf p mp (Suc i))
      else Inl (runtime_error ''failed to find suitable memory type!''))"
  by (subst findMemoryType_loop.simps) (simp only: loop_step_suitable)

lemma findMemoryType_loop_Inr:
  "findMemoryType_loop tf p mp i = Inr k \<longleftrightarrow>
           i \<le> k \<and> k < unat (memoryTypeCount mp) \<and> suitable mp tf p k \<and> (\<forall>j. i \<le> j \<and> j < k \<longrightarrow> \<not> suitable mp tf p j)"
proof (induction tf p mp i rule: findMemoryType_loop.induct)
  case (1 tf p mp i)
  show ?case
  proof (cases "i < unat (memoryTypeCount mp)")
    case False
    then show ?thesis by (subst findMemoryType_loop_unfold) auto
  next
    case inb: True
    show ?thesis
    proof (cases "suitable mp tf p i")
      case True
      with inb show ?thesis
        by (subst findMemoryType_loop_unfold) (auto intro: le_antisym dest: leD)
    next
      case False
      with inb 1 have IH: "findMemoryType_loop tf p mp (Suc i) = Inr k \<longleftrightarrow>
           Suc i \<le> k \<and> k < unat (memoryTypeCount mp) \<and> suitable mp tf p k \<and> (\<forall>j. Suc i \<le> j \<and> j < k \<longrightarrow> \<not> suitable mp tf p j)"
        by (simp only: loop_step_suitable simp_thms)
      have "findMemoryType_loop tf p mp i = findMemoryType_loop tf p mp (Suc i)"
        using inb False by (subst findMemoryType_loop_unfold) simp
      have split: "\<And>j. i \<le> j \<longleftrightarrow> j = i \<or> Suc i \<le> j" by auto
      show ?thesis
        unfolding \<open>findMemoryType_loop tf p mp i = findMemoryType_loop tf p mp (Suc i)\<close> IH
        using False by (auto simp add: split)
    qed
  qed
qed

lemma findMemoryType_loop_Inl:
  "findMemoryType_loop tf p mp i = Inl e \<longleftrightarrow>
     e = runtime_error ''failed to find suitable memory type!'' \<and>
     (\<forall>j. i \<le> j \<and> j < unat (memoryTypeCount mp) \<longrightarrow> \<not> suitable mp tf p j)"
proof (induction tf p mp i rule: findMemoryType_loop.induct)
  case (1 tf p mp i)
  show ?case
  proof (cases "i < unat (memoryTypeCount mp)")
    case False
    then show ?thesis by (subst findMemoryType_loop_unfold) auto
  next
    case inb: True
    show ?thesis
    proof (cases "suitable mp tf p i")
      case True
      with inb show ?thesis
        by (subst findMemoryType_loop_unfold) auto
    next
      case False
      with inb 1 have IH: "findMemoryType_loop tf p mp (Suc i) = Inl e \<longleftrightarrow>
           e = runtime_error ''failed to find suitable memory type!'' \<and>
     (\<forall>j. Suc i \<le> j \<and> j < unat (memoryTypeCount mp) \<longrightarrow> \<not> suitable mp tf p j)"
        by (simp only: loop_step_suitable simp_thms)
      have "findMemoryType_loop tf p mp i = findMemoryType_loop tf p mp (Suc i)"
        using inb False by (subst findMemoryType_loop_unfold) simp
      have split: "\<And>j. i \<le> j \<longleftrightarrow> j = i \<or> Suc i \<le> j" by auto
      show ?thesis
        unfolding \<open>findMemoryType_loop tf p mp i = findMemoryType_loop tf p mp (Suc i)\<close> IH
        using False by (auto simp add: split)
    qed
  qed
qed

text \<open>
  Claim C6.  \<^verbatim>\<open>findMemoryType\<close> scans the reported memory types in index order and
  returns the first index \<open>k\<close> whose bit is set in the type filter and whose property
  flags contain every requested property bit; it fails (with no fallback and no relaxed
  search) exactly when no index below the count satisfies both.  The result is thereby a
  function of the memory-type list, the filter and the requested properties alone: any
  index that meets the description of the first suitable one is the index returned.
\<close>

theorem findMemoryType_first_suitable:
  assumes "memProperties_ok memProperties"
  shows "(findMemoryType memProperties typeFilter properties = Inr k \<longleftrightarrow>
            k < unat (memoryTypeCount memProperties) \<and>
            suitable memProperties typeFilter properties k \<and>
            (\<forall>j<k. \<not> suitable memProperties typeFilter properties j)) \<and>
         (findMemoryType memProperties typeFilter properties = Inl e \<longleftrightarrow>
            e = runtime_error ''failed to find suitable memory type!'' \<and>
            (\<forall>j<unat (memoryTypeCount memProperties).
                \<not> suitable memProperties typeFilter properties j)) \<and>
         (suitable memProperties typeFilter properties k \<longleftrightarrow>
            typeFilter AND push_bit k 1 \<noteq> 0 \<and>
            (memoryTypes memProperties ! k) AND properties = properties)"
proof (intro conjI)
  show "findMemoryType memProperties typeFilter properties = Inr k \<longleftrightarrow>
          k < unat (memoryTypeCount memProperties) \<and>
          suitable memProperties typeFilter properties k \<and>
          (\<forall>j<k. \<not> suitable memProperties typeFilter properties j)"
    unfolding findMemoryType_def findMemoryType_loop_Inr by simp
  show "findMemoryType memProperties typeFilter properties = Inl e \<longleftrightarrow>
          e = runtime_error ''failed to find suitable memory type!'' \<and>
          (\<forall>j<unat (memoryTypeCount memProperties).
              \<not> suitable memProperties typeFilter properties j)"
    unfolding findMemoryType_def findMemoryType_loop_Inl by simp
  show "suitable memProperties typeFilter properties k \<longleftrightarrow>
          typeFilter AND push_bit k 1 \<noteq> 0 \<and>
          (memoryTypes memProperties ! k) AND properties = properties"
    by (simp only: loop_step_suitable)
qed

theorem findMemoryType_first_suitable_witness:
  "memProperties_ok \<lparr>memoryTypeCount = 3, memoryTypes = [1, 6, 7]\<rparr> \<and>
   findMemoryType \<lparr>memoryTypeCount = 3, memoryTypes = [1, 6, 7]\<rparr> 6 2 = Inr 1 \<and>
   suitable \<lparr>memoryTypeCount = 3, memoryTypes = [1, 6, 7]\<rparr> 6 2 1 \<and>
   \<not> suitable \<lparr>memoryTypeCount = 3, memoryTypes = [1, 6, 7]\<rparr> 6 2 0 \<and>
   findMemoryType \<lparr>memoryTypeCount = 3, memoryTypes = [1, 6, 7]\<rparr> 6 8
     = Inl (runtime_error ''failed to find suitable memory type!'')"
proof -
  let ?mp = "\<lparr>memoryTypeCount = 3, memoryTypes = [1, 6, 7]\<rparr>"
  have ok: "memProperties_ok ?mp"
    by (simp add: memProperties_ok_def VK_MAX_MEMORY_TYPES_def)
  have r: "findMemoryType ?mp 6 2 = Inr 1"
    by (simp add: findMemoryType_def findMemoryType_loop.simps)
  have f: "findMemoryType ?mp 6 8 = Inl (runtime_error ''failed to find suitable memory type!'')"
    by (simp add: findMemoryType_def findMemoryType_loop.simps)
  from findMemoryType_first_suitable [OF ok, of 6 2 1] r
  have "suitable ?mp 6 2 1" "\<not> suitable ?mp 6 2 0" by auto
  with ok r f show ?thesis by simp
qed


section \<open>Mipmap generation\<close>

lemma mip_dim_nonpos: "w \<le> 0 \<Longrightarrow> mip_dim w k = w"
  by (induction k) auto

lemma mip_dim_one: "mip_dim 1 k = 1"
  by (induction k) auto

lemma div_pow2_le_one: "(1::int) div 2 ^ k \<le> 1"
proof (cases k)
  case 0
  then show ?thesis by simp
next
  case (Suc n)
  have "(1::int) < 2 ^ Suc n" by (rule one_less_power) simp_all
  then have "(1::int) div 2 ^ Suc n = 0" by (simp only: div_pos_pos_trivial zero_le_one)
  with Suc show ?thesis by (simp only: zero_le_one)
qed

lemma mip_dim_pos: "1 \<le> w \<Longrightarrow> mip_dim w k = max 1 (w div 2 ^ k)"
proof (induction k arbitrary: w)
  case 0
  then show ?case by simp
next
  case (Suc k)
  show ?case
  proof (cases "w > 1")
    case True
    then have "1 \<le> w div 2" by simp
    then have "mip_dim (w div 2) k = max 1 (w div 2 div 2 ^ k)" by (rule Suc.IH)
    also have "w div 2 div 2 ^ k = w div 2 ^ Suc k"
      by (simp add: zdiv_zmult2_eq)
    finally show ?thesis using True by simp
  next
    case False
    with Suc.prems have w1: "w = 1" by simp
    have "(1::int) div 2 ^ Suc k \<le> 1" by (rule div_pow2_le_one)
    then show ?thesis unfolding w1 by (simp add: mip_dim_one del: power_Suc)
  qed
qed

lemma mip_dim_dst:
  "(if mip_dim w k > 1 then mip_dim w k div 2 else 1) = max 1 (w div 2 ^ Suc k)"
proof (cases "1 \<le> w")
  case True
  have e: "w div 2 ^ Suc k = w div 2 ^ k div 2"
    by (simp add: power_Suc2 zdiv_zmult2_eq del: power_Suc)
  show ?thesis
  proof (cases "w div 2 ^ k > 1")
    case True
    then show ?thesis unfolding mip_dim_pos [OF \<open>1 \<le> w\<close>] e by simp
  next
    case False
    then have "w div 2 ^ k div 2 \<le> 0" by simp
    with False show ?thesis unfolding mip_dim_pos [OF \<open>1 \<le> w\<close>] e by simp
  qed
next
  case False
  then have w0: "w \<le> 0" by simp
  have "w div 2 ^ Suc k \<le> 0"
    using w0 by (simp add: div_nonpos_pos_le0 del: power_Suc)
  then show ?thesis using w0 by (simp add: mip_dim_nonpos del: power_Suc)
qed

lemma generateMipmaps_loop_unfold:
  "generateMipmaps_loop img m i W H =
     concat (map (\<lambda>j. mip_iteration img j (mip_dim W (j - i)) (mip_dim H (j - i))) [i..<unat m])"
proof (induction img m i W H rule: generateMipmaps_loop.induct)
  case (1 img m i W H)
  show ?case
  proof (cases "i < unat m")
    case False
    then show ?thesis by (subst generateMipmaps_loop.simps) simp
  next
    case True
    define W' where "W' = (if 1 < W then W div 2 else W)"
    define H' where "H' = (if 1 < H then H div 2 else H)"
    have shift: "mip_dim (if 1 < x then x div 2 else x) (j - Suc i) = mip_dim x (j - i)"
      if "Suc i \<le> j" for j x
    proof -
      from that have "j - i = Suc (j - Suc i)" by simp
      then show ?thesis by (simp only: mip_dim.simps)
    qed
    have tl: "map (\<lambda>j. mip_iteration img j (mip_dim W' (j - Suc i)) (mip_dim H' (j - Suc i)))
                [Suc i..<unat m]
        = map (\<lambda>j. mip_iteration img j (mip_dim W (j - i)) (mip_dim H (j - i))) [Suc i..<unat m]"
      unfolding W'_def H'_def by (rule map_cong) (simp_all only: shift atLeastLessThan_iff set_upt)
    have step: "generateMipmaps_loop img m i W H =
        mip_iteration img i W H @ generateMipmaps_loop img m (Suc i) W' H'"
      unfolding W'_def H'_def using True by (subst generateMipmaps_loop.simps) (simp only: if_True)
    have IH: "generateMipmaps_loop img m (Suc i) W' H' =
        concat (map (\<lambda>j. mip_iteration img j (mip_dim W' (j - Suc i)) (mip_dim H' (j - Suc i)))
                [Suc i..<unat m])"
      unfolding W'_def H'_def using True by (rule 1)
    have upt: "[i..<unat m] = i # [Suc i..<unat m]"
      using True by (rule upt_conv_Cons)
    show ?thesis
      by (simp only: step IH tl upt list.map concat.simps diff_self_eq_0 mip_dim.simps)
  qed
qed


lemma blits_of_append: "blits_of (xs @ ys) = blits_of xs @ blits_of ys"
  by (induction xs rule: blits_of.induct) simp_all

lemma barriers_of_append: "barriers_of (xs @ ys) = barriers_of xs @ barriers_of ys"
  by (induction xs rule: barriers_of.induct) simp_all

lemma blits_of_iteration:
  "blits_of (mip_iteration img j W H) =
     [\<lparr>srcMipLevel = word_of_nat (j - 1), srcExtent = (W, H), dstMipLevel = word_of_nat j,
       dstExtent = (if W > 1 then W div 2 else 1, if H > 1 then H div 2 else 1)\<rparr>]"
  by (simp add: mip_iteration_def)

lemma blits_of_concat:
  "blits_of (concat (map (\<lambda>j. mip_iteration img j (f j) (g j)) js)) =
     map (\<lambda>j. \<lparr>srcMipLevel = word_of_nat (j - 1), srcExtent = (f j, g j),
                dstMipLevel = word_of_nat j,
                dstExtent = (if f j > 1 then f j div 2 else 1,
                             if g j > 1 then g j div 2 else 1)\<rparr>) js"
  by (induction js) (simp_all add: blits_of_append blits_of_iteration)

lemma apply_commands_append:
  "apply_commands (xs @ ys) L = apply_commands ys (apply_commands xs L)"
  by (simp add: apply_commands_def)

lemma apply_commands_Nil: "apply_commands [] L = L"
  by (simp add: apply_commands_def)

lemma apply_iteration_raw:
  "apply_commands (mip_iteration img i W H) L img lvl =
     (if lvl = unat (word_of_nat (i - 1) :: 32 word)
      then VK_IMAGE_LAYOUT_SHADER_READ_ONLY_OPTIMAL else L img lvl)"
  by (auto simp add: apply_commands_def mip_iteration_def)

lemma apply_iteration:
  assumes "1 \<le> i" "i < 2 ^ 32"
  shows "apply_commands (mip_iteration img i W H) L img lvl =
           (if lvl = i - 1 then VK_IMAGE_LAYOUT_SHADER_READ_ONLY_OPTIMAL else L img lvl)"
proof -
  have "i - 1 < 2 ^ 32" using assms by simp
  then have u: "unat (word_of_nat (i - 1) :: 32 word) = i - 1"
    by (simp add: unat_of_nat)
  show ?thesis
    by (simp only: apply_iteration_raw u)
qed

lemma apply_iteration_other:
  "img' \<noteq> img \<Longrightarrow> apply_commands (mip_iteration img i W H) L img' lvl = L img' lvl"
  by (simp add: apply_commands_def mip_iteration_def)

lemma apply_loop:
  assumes "1 \<le> i"
  shows "apply_commands (generateMipmaps_loop img m i W H) L img lvl =
           (if i - 1 \<le> lvl \<and> lvl < unat m - 1 then VK_IMAGE_LAYOUT_SHADER_READ_ONLY_OPTIMAL
            else L img lvl)"
  using assms
proof (induction img m i W H arbitrary: L rule: generateMipmaps_loop.induct)
  case (1 img m i W H)
  show ?case
  proof (cases "i < unat m")
    case False
    then have "generateMipmaps_loop img m i W H = []"
      by (subst generateMipmaps_loop.simps) simp
    moreover from False have "\<not> (i - 1 \<le> lvl \<and> lvl < unat m - 1)" by auto
    ultimately show ?thesis by (simp only: apply_commands_Nil if_False)
  next
    case True
    define W' where "W' = (if 1 < W then W div 2 else W)"
    define H' where "H' = (if 1 < H then H div 2 else H)"
    define L' where "L' = apply_commands (mip_iteration img i W H) L"
    have step: "generateMipmaps_loop img m i W H =
        mip_iteration img i W H @ generateMipmaps_loop img m (Suc i) W' H'"
      unfolding W'_def H'_def using True by (subst generateMipmaps_loop.simps) (simp only: if_True)
    have IH: "apply_commands (generateMipmaps_loop img m (Suc i) W' H') L' img lvl =
           (if Suc i - 1 \<le> lvl \<and> lvl < unat m - 1 then VK_IMAGE_LAYOUT_SHADER_READ_ONLY_OPTIMAL
            else L' img lvl)"
      unfolding W'_def H'_def using True by (rule 1) simp
    have "unat m < 2 ^ 32" using unsigned_less [of m] by simp
    with True have "i < 2 ^ 32" by simp
    with \<open>1 \<le> i\<close> have L': "L' img lvl =
        (if lvl = i - 1 then VK_IMAGE_LAYOUT_SHADER_READ_ONLY_OPTIMAL else L img lvl)"
      unfolding L'_def by (rule apply_iteration)
    show ?thesis
      unfolding step apply_commands_append L'_def [symmetric] IH L'
      using True \<open>1 \<le> i\<close> by auto
  qed
qed


lemma generateMipmaps_ok:
  assumes "F fmt AND VK_FORMAT_FEATURE_SAMPLED_IMAGE_FILTER_LINEAR_BIT \<noteq> 0"
  shows "generateMipmaps F img fmt w h m dev =
           (Inr (), dev\<lparr>executed := executed dev @
                generateMipmaps_loop img m 1 w h @ [final_barrier img m]\<rparr>)"
  using assms
  by (simp add: generateMipmaps_def beginSingleTimeCommands_def endSingleTimeCommands_def
      final_barrier_def)

lemma generateMipmaps_unsupported:
  assumes "F fmt AND VK_FORMAT_FEATURE_SAMPLED_IMAGE_FILTER_LINEAR_BIT = 0"
  shows "generateMipmaps F img fmt w h m dev =
           (Inl (runtime_error ''texture image format does not support linear blitting!''), dev)"
  using assms by (simp add: generateMipmaps_def)

lemma apply_final:
  "apply_commands [final_barrier img m] L img lvl =
     (if lvl = unat (m - 1) then VK_IMAGE_LAYOUT_SHADER_READ_ONLY_OPTIMAL else L img lvl)"
  by (auto simp add: apply_commands_def final_barrier_def)

lemma layouts_after_mipmaps:
  assumes "1 \<le> unat m" "lvl < unat m"
  shows "apply_commands (generateMipmaps_loop img m 1 w h @ [final_barrier img m]) L img lvl =
           VK_IMAGE_LAYOUT_SHADER_READ_ONLY_OPTIMAL"
proof -
  from assms(1) have "m \<noteq> 0" by auto
  then have u: "unat (m - 1) = unat m - 1" by (rule unat_minus_one)
  have loop: "apply_commands (generateMipmaps_loop img m 1 w h) L img lvl =
           (if 1 - 1 \<le> lvl \<and> lvl < unat m - 1 then VK_IMAGE_LAYOUT_SHADER_READ_ONLY_OPTIMAL
            else L img lvl)"
    by (rule apply_loop) simp
  show ?thesis
    unfolding apply_commands_append apply_final u loop using assms(2) by auto
qed

lemma blits_of_mipmaps:
  "blits_of (generateMipmaps_loop img m 1 w h @ [final_barrier img m]) =
     map (\<lambda>j. \<lparr>srcMipLevel = word_of_nat (j - 1),
                srcExtent = (mip_dim w (j - 1), mip_dim h (j - 1)),
                dstMipLevel = word_of_nat j,
                dstExtent = (if mip_dim w (j - 1) > 1 then mip_dim w (j - 1) div 2 else 1,
                             if mip_dim h (j - 1) > 1 then mip_dim h (j - 1) div 2 else 1)\<rparr>)
       [1..<unat m]"
  by (simp only: generateMipmaps_loop_unfold blits_of_append blits_of_concat)
     (simp add: final_barrier_def)

lemma dst_extents:
  "map (\<lambda>b. (unat (dstMipLevel b), dstExtent b))
       (blits_of (generateMipmaps_loop img m 1 w h @ [final_barrier img m])) =
   map (\<lambda>i. (i, mip_extent w h i)) [1..<unat m]"
proof -
  have lt: "unat m < 2 ^ 32" using unsigned_less [of m] by simp
  have "(unat (word_of_nat j :: 32 word),
          (if mip_dim w (j - 1) > 1 then mip_dim w (j - 1) div 2 else 1,
           if mip_dim h (j - 1) > 1 then mip_dim h (j - 1) div 2 else 1)) = (j, mip_extent w h j)"
    if "j \<in> set [1..<unat m]" for j
  proof -
    from that lt have "j < 2 ^ 32" "1 \<le> j" by auto
    then have "unat (word_of_nat j :: 32 word) = j" "Suc (j - 1) = j"
      by (simp_all add: unat_of_nat)
    then show ?thesis
      using mip_dim_dst [of w "j - 1"] mip_dim_dst [of h "j - 1"]
      by (simp only: mip_extent_def)
  qed
  then show ?thesis
    unfolding blits_of_mipmaps by (simp add: comp_def cong: map_cong)
qed

lemma src_extents:
  assumes "1 \<le> w" "1 \<le> h"
  shows "map (\<lambda>b. (unat (srcMipLevel b), srcExtent b))
       (blits_of (generateMipmaps_loop img m 1 w h @ [final_barrier img m])) =
   map (\<lambda>i. (i - 1, mip_extent w h (i - 1))) [1..<unat m]"
proof -
  have lt: "unat m < 2 ^ 32" using unsigned_less [of m] by simp
  have "(unat (word_of_nat (j - 1) :: 32 word), (mip_dim w (j - 1), mip_dim h (j - 1)))
          = (j - 1, mip_extent w h (j - 1))"
    if "j \<in> set [1..<unat m]" for j
  proof -
    from that lt have "j - 1 < 2 ^ 32" by auto
    then have "unat (word_of_nat (j - 1) :: 32 word) = j - 1"
      by (simp add: unat_of_nat)
    then show ?thesis
      by (simp only: mip_extent_def mip_dim_pos [OF assms(1)] mip_dim_pos [OF assms(2)])
  qed
  then show ?thesis
    unfolding blits_of_mipmaps by (simp add: comp_def cong: map_cong)
qed

lemma single_level:
  "generateMipmaps_loop img 1 1 w h @ [final_barrier img 1] =
     [CmdPipelineBarrier VK_PIPELINE_STAGE_TRANSFER_BIT VK_PIPELINE_STAGE_FRAGMENT_SHADER_BIT
                  \<lparr>oldLayout = VK_IMAGE_LAYOUT_TRANSFER_DST_OPTIMAL,
                   newLayout = VK_IMAGE_LAYOUT_SHADER_READ_ONLY_OPTIMAL,
                   image = img, baseMipLevel = 0, levelCount = 1,
                   srcAccessMask = VK_ACCESS_TRANSFER_WRITE_BIT,
                   dstAccessMask = VK_ACCESS_SHADER_READ_BIT\<rparr>]"
  by (subst generateMipmaps_loop.simps) (simp add: final_barrier_def)

text \<open>
  Claim C1.  For every mip count \<open>mipLevels \<ge> 1\<close> and all source dimensions \<open>w\<close>, \<open>h\<close>, a
  call of \<^verbatim>\<open>generateMipmaps\<close> on a format that supports linear blitting completes, and the
  commands \<open>cs\<close> it has the queue execute leave every mip level \<open>0 \<dots> mipLevels - 1\<close> of
  the image in shader-read-only layout, whatever the layouts were before.  The blit that
  produces level \<open>i\<close> writes an extent of \<open>max 1 (w div 2 ^ i) \<times> max 1 (h div 2 ^ i)\<close>
  (halving floors and never goes below 1), and for a source of at least \<open>1 \<times> 1\<close> it reads
  level \<open>i - 1\<close> at the extent the same formula gives.  With \<open>mipLevels = 1\<close> the loop body
  runs zero times: the only command is the barrier that takes level 0 from
  transfer-destination to shader-read-only.
\<close>

theorem generateMipmaps_levels:
  assumes "optimalTilingFeatures imageFormat
             AND VK_FORMAT_FEATURE_SAMPLED_IMAGE_FILTER_LINEAR_BIT \<noteq> 0"
      and "1 \<le> unat mipLevels"
  shows "\<exists>cs. generateMipmaps optimalTilingFeatures img imageFormat w h mipLevels dev =
                 (Inr (), dev\<lparr>executed := executed dev @ cs\<rparr>) \<and>
              (\<forall>L lvl. lvl < unat mipLevels \<longrightarrow>
                 apply_commands cs L img lvl = VK_IMAGE_LAYOUT_SHADER_READ_ONLY_OPTIMAL) \<and>
              map (\<lambda>b. (unat (dstMipLevel b), dstExtent b)) (blits_of cs) =
                map (\<lambda>i. (i, mip_extent w h i)) [1..<unat mipLevels] \<and>
              (1 \<le> w \<and> 1 \<le> h \<longrightarrow>
                 map (\<lambda>b. (unat (srcMipLevel b), srcExtent b)) (blits_of cs) =
                   map (\<lambda>i. (i - 1, mip_extent w h (i - 1))) [1..<unat mipLevels]) \<and>
              (mipLevels = 1 \<longrightarrow>
                 cs = [CmdPipelineBarrier VK_PIPELINE_STAGE_TRANSFER_BIT
                         VK_PIPELINE_STAGE_FRAGMENT_SHADER_BIT
                         \<lparr>oldLayout = VK_IMAGE_LAYOUT_TRANSFER_DST_OPTIMAL,
                          newLayout = VK_IMAGE_LAYOUT_SHADER_READ_ONLY_OPTIMAL,
                          image = img, baseMipLevel = 0, levelCount = 1,
                          srcAccessMask = VK_ACCESS_TRANSFER_WRITE_BIT,
                          dstAccessMask = VK_ACCESS_SHADER_READ_BIT\<rparr>])"
proof (intro exI conjI allI impI)
  show "generateMipmaps optimalTilingFeatures img imageFormat w h mipLevels dev =
          (Inr (), dev\<lparr>executed := executed dev @
             (generateMipmaps_loop img mipLevels 1 w h @ [final_barrier img mipLevels])\<rparr>)"
    using assms(1) by (rule generateMipmaps_ok)
next
  fix L lvl assume "lvl < unat mipLevels"
  with assms(2) show "apply_commands
      (generateMipmaps_loop img mipLevels 1 w h @ [final_barrier img mipLevels]) L img lvl =
      VK_IMAGE_LAYOUT_SHADER_READ_ONLY_OPTIMAL"
    by (rule layouts_after_mipmaps)
next
  show "map (\<lambda>b. (unat (dstMipLevel b), dstExtent b))
     (blits_of (generateMipmaps_loop img mipLevels 1 w h @ [final_barrier img mipLevels])) =
    map (\<lambda>i. (i, mip_extent w h i)) [1..<unat mipLevels]"
    by (rule dst_extents)
next
  assume "1 \<le> w \<and> 1 \<le> h"
  then show "map (\<lambda>b. (unat (srcMipLevel b), srcExtent b))
     (blits_of (generateMipmaps_loop img mipLevels 1 w h @ [final_barrier img mipLevels])) =
    map (\<lambda>i. (i - 1, mip_extent w h (i - 1))) [1..<unat mipLevels]"
    by (simp only: src_extents)
next
  assume "mipLevels = 1"
  then show "generateMipmaps_loop img mipLevels 1 w h @ [final_barrier img mipLevels] =
    [CmdPipelineBarrier VK_PIPELINE_STAGE_TRANSFER_BIT VK_PIPELINE_STAGE_FRAGMENT_SHADER_BIT
      \<lparr>oldLayout = VK_IMAGE_LAYOUT_TRANSFER_DST_OPTIMAL,
         newLayout = VK_IMAGE_LAYOUT_SHADER_READ_ONLY_OPTIMAL, image = img, baseMipLevel = 0,
         levelCount = 1, srcAccessMask = VK_ACCESS_TRANSFER_WRITE_BIT,
         dstAccessMask = VK_ACCESS_SHADER_READ_BIT\<rparr>]"
    by (simp only: single_level)
qed


theorem generateMipmaps_levels_witness:
  "(\<lambda>_. 0x1000) VK_FORMAT_R8G8B8A8_SRGB AND VK_FORMAT_FEATURE_SAMPLED_IMAGE_FILTER_LINEAR_BIT \<noteq> 0 \<and>
   1 \<le> unat (4 :: uint32_t) \<and>
   (\<exists>cs. generateMipmaps (\<lambda>_. 0x1000) 7 VK_FORMAT_R8G8B8A8_SRGB 10 3 4
              \<lparr>executed = [], liveCommandBuffers = 0, calls = []\<rparr> =
            (Inr (), \<lparr>executed = cs, liveCommandBuffers = 0, calls = []\<rparr>) \<and>
          (\<forall>lvl < 4. apply_commands cs (\<lambda>_ _. VK_IMAGE_LAYOUT_TRANSFER_DST_OPTIMAL) 7 lvl =
             VK_IMAGE_LAYOUT_SHADER_READ_ONLY_OPTIMAL) \<and>
          map dstExtent (blits_of cs) = [(5, 1), (2, 1), (1, 1)] \<and>
          map srcExtent (blits_of cs) = [(10, 3), (5, 1), (2, 1)])"
proof -
  have f: "(\<lambda>_. 0x1000) VK_FORMAT_R8G8B8A8_SRGB AND VK_FORMAT_FEATURE_SAMPLED_IMAGE_FILTER_LINEAR_BIT \<noteq> (0 :: VkFlags)"
    by (simp add: VK_FORMAT_FEATURE_SAMPLED_IMAGE_FILTER_LINEAR_BIT_def)
  have m: "1 \<le> unat (4 :: uint32_t)" by simp
  have upt: "[1..<4] = [1, 2, 3]" by (simp add: upt_rec)
  from f m generateMipmaps_levels [where optimalTilingFeatures = "\<lambda>_. 0x1000"
      and imageFormat = VK_FORMAT_R8G8B8A8_SRGB and mipLevels = 4 and img = 7 and w = 10
      and h = 3 and dev = "\<lparr>executed = [], liveCommandBuffers = 0, calls = []\<rparr>"]
  obtain cs where cs: "generateMipmaps (\<lambda>_. 0x1000) 7 VK_FORMAT_R8G8B8A8_SRGB 10 3 4
              \<lparr>executed = [], liveCommandBuffers = 0, calls = []\<rparr> =
            (Inr (), \<lparr>executed = cs, liveCommandBuffers = 0, calls = []\<rparr>)"
    and lay: "\<forall>L lvl. lvl < 4 \<longrightarrow> apply_commands cs L 7 lvl = VK_IMAGE_LAYOUT_SHADER_READ_ONLY_OPTIMAL"
    and dst: "map (\<lambda>b. (unat (dstMipLevel b), dstExtent b)) (blits_of cs) =
                map (\<lambda>i. (i, mip_extent 10 3 i)) [1..<4]"
    and src: "map (\<lambda>b. (unat (srcMipLevel b), srcExtent b)) (blits_of cs) =
                   map (\<lambda>i. (i - 1, mip_extent 10 3 (i - 1))) [1..<4]"
    by auto
  have "map dstExtent (blits_of cs) = map (mip_extent 10 3) [1..<4]"
    using arg_cong [OF dst, of "map snd"] by (simp only: map_map comp_def snd_conv)
  also have "\<dots> = [(5, 1), (2, 1), (1, 1)]" by code_simp
  finally have d: "map dstExtent (blits_of cs) = [(5, 1), (2, 1), (1, 1)]" .
  have "map srcExtent (blits_of cs) = map (\<lambda>i. mip_extent 10 3 (i - 1)) [1..<4]"
    using arg_cong [OF src, of "map snd"] by (simp only: map_map comp_def snd_conv)
  also have "\<dots> = [(10, 3), (5, 1), (2, 1)]" by code_simp
  finally have s: "map srcExtent (blits_of cs) = [(10, 3), (5, 1), (2, 1)]" .
  from lay have lay': "\<forall>lvl<4. apply_commands cs (\<lambda>_ _. VK_IMAGE_LAYOUT_TRANSFER_DST_OPTIMAL) 7 lvl =
             VK_IMAGE_LAYOUT_SHADER_READ_ONLY_OPTIMAL" by simp
  show ?thesis
    by (intro conjI exI [of _ cs]) (rule f m cs lay' d s)+
qed


section \<open>Layout transitions\<close>

lemma transitionImageLayout_supported:
  assumes "(oldL, newL) = (VK_IMAGE_LAYOUT_UNDEFINED, VK_IMAGE_LAYOUT_TRANSFER_DST_OPTIMAL) \<or>
           (oldL, newL) =
             (VK_IMAGE_LAYOUT_TRANSFER_DST_OPTIMAL, VK_IMAGE_LAYOUT_SHADER_READ_ONLY_OPTIMAL)"
  shows "\<exists>s d a b. transitionImageLayout img format oldL newL mipLevels dev =
           (Inr (), dev\<lparr>executed := executed dev @
              [CmdPipelineBarrier s d
                 \<lparr>oldLayout = oldL, newLayout = newL, image = img, baseMipLevel = 0,
                  levelCount = mipLevels, srcAccessMask = a, dstAccessMask = b\<rparr>]\<rparr>)"
  using assms
  by (auto simp add: transitionImageLayout_def transitionAccessMasks_def transitionStages_def
      beginSingleTimeCommands_def endSingleTimeCommands_def)

lemma transitionImageLayout_unsupported:
  assumes "(oldL, newL) \<noteq> (VK_IMAGE_LAYOUT_UNDEFINED, VK_IMAGE_LAYOUT_TRANSFER_DST_OPTIMAL)"
      and "(oldL, newL) \<noteq>
             (VK_IMAGE_LAYOUT_TRANSFER_DST_OPTIMAL, VK_IMAGE_LAYOUT_SHADER_READ_ONLY_OPTIMAL)"
  shows "transitionImageLayout img format oldL newL mipLevels dev =
           (Inl (invalid_argument ''unsupported layout transition!''),
            dev\<lparr>liveCommandBuffers := liveCommandBuffers dev + 1\<rparr>)"
  using assms
  by (auto simp add: transitionImageLayout_def transitionAccessMasks_def
      beginSingleTimeCommands_def)

text \<open>
  Claim C3.  \<^verbatim>\<open>transitionImageLayout\<close> returns normally exactly for the pairs
  (undefined, transfer-destination) and (transfer-destination, shader-read-only), and
  then the queue has executed exactly one more command, a pipeline barrier from the old
  to the new layout over levels \<open>0 \<dots> mipLevels - 1\<close>.  For every other pair it throws
  \<^verbatim>\<open>std::invalid_argument("unsupported layout transition!")\<close> and the queue has executed
  nothing new, so no barrier is emitted.
\<close>

theorem transitionImageLayout_closed_set:
  "(fst (transitionImageLayout img format oldL newL mipLevels dev) = Inr () \<longleftrightarrow>
      (oldL, newL) \<in> {(VK_IMAGE_LAYOUT_UNDEFINED, VK_IMAGE_LAYOUT_TRANSFER_DST_OPTIMAL),
         (VK_IMAGE_LAYOUT_TRANSFER_DST_OPTIMAL, VK_IMAGE_LAYOUT_SHADER_READ_ONLY_OPTIMAL)}) \<and>
   (fst (transitionImageLayout img format oldL newL mipLevels dev) = Inr () \<longrightarrow>
      (\<exists>s d a b. executed (snd (transitionImageLayout img format oldL newL mipLevels dev)) =
         executed dev @
           [CmdPipelineBarrier s d
              \<lparr>oldLayout = oldL, newLayout = newL, image = img, baseMipLevel = 0,
               levelCount = mipLevels, srcAccessMask = a, dstAccessMask = b\<rparr>])) \<and>
   (fst (transitionImageLayout img format oldL newL mipLevels dev) \<noteq> Inr () \<longrightarrow>
      fst (transitionImageLayout img format oldL newL mipLevels dev) =
        Inl (invalid_argument ''unsupported layout transition!'') \<and>
      executed (snd (transitionImageLayout img format oldL newL mipLevels dev)) =
        executed dev)"
proof (cases "(oldL, newL) = (VK_IMAGE_LAYOUT_UNDEFINED, VK_IMAGE_LAYOUT_TRANSFER_DST_OPTIMAL) \<or>
           (oldL, newL) =
             (VK_IMAGE_LAYOUT_TRANSFER_DST_OPTIMAL, VK_IMAGE_LAYOUT_SHADER_READ_ONLY_OPTIMAL)")
  case True
  from transitionImageLayout_supported [OF True, of img format mipLevels dev]
  obtain s d a b where "transitionImageLayout img format oldL newL mipLevels dev =
           (Inr (), dev\<lparr>executed := executed dev @
              [CmdPipelineBarrier s d
                 \<lparr>oldLayout = oldL, newLayout = newL, image = img, baseMipLevel = 0,
                  levelCount = mipLevels, srcAccessMask = a, dstAccessMask = b\<rparr>]\<rparr>)"
    by blast
  with True show ?thesis by auto
next
  case False
  then have "transitionImageLayout img format oldL newL mipLevels dev =
           (Inl (invalid_argument ''unsupported layout transition!''),
            dev\<lparr>liveCommandBuffers := liveCommandBuffers dev + 1\<rparr>)"
    by (intro transitionImageLayout_unsupported) simp_all
  with False show ?thesis by auto
qed

theorem transitionImageLayout_closed_set_witness:
  "fst (transitionImageLayout 7 VK_FORMAT_R8G8B8A8_SRGB VK_IMAGE_LAYOUT_UNDEFINED
          VK_IMAGE_LAYOUT_TRANSFER_DST_OPTIMAL 3 \<lparr>executed = [], liveCommandBuffers = 0, calls = []\<rparr>)
     = Inr () \<and>
   length (executed (snd (transitionImageLayout 7 VK_FORMAT_R8G8B8A8_SRGB
          VK_IMAGE_LAYOUT_UNDEFINED VK_IMAGE_LAYOUT_TRANSFER_DST_OPTIMAL 3
          \<lparr>executed = [], liveCommandBuffers = 0, calls = []\<rparr>))) = 1 \<and>
   fst (transitionImageLayout 7 VK_FORMAT_R8G8B8A8_SRGB VK_IMAGE_LAYOUT_TRANSFER_DST_OPTIMAL
          VK_IMAGE_LAYOUT_TRANSFER_SRC_OPTIMAL 3 \<lparr>executed = [], liveCommandBuffers = 0, calls = []\<rparr>)
     = Inl (invalid_argument ''unsupported layout transition!'') \<and>
   executed (snd (transitionImageLayout 7 VK_FORMAT_R8G8B8A8_SRGB
          VK_IMAGE_LAYOUT_TRANSFER_DST_OPTIMAL VK_IMAGE_LAYOUT_TRANSFER_SRC_OPTIMAL 3
          \<lparr>executed = [], liveCommandBuffers = 0, calls = []\<rparr>)) = []"
  using transitionImageLayout_closed_set [of 7 VK_FORMAT_R8G8B8A8_SRGB VK_IMAGE_LAYOUT_UNDEFINED
          VK_IMAGE_LAYOUT_TRANSFER_DST_OPTIMAL 3 "\<lparr>executed = [], liveCommandBuffers = 0, calls = []\<rparr>"]
        transitionImageLayout_closed_set [of 7 VK_FORMAT_R8G8B8A8_SRGB
          VK_IMAGE_LAYOUT_TRANSFER_DST_OPTIMAL
          VK_IMAGE_LAYOUT_TRANSFER_SRC_OPTIMAL 3 "\<lparr>executed = [], liveCommandBuffers = 0, calls = []\<rparr>"]
  by auto


section \<open>Texture upload\<close>

lemma createBuffer_result:
  assumes "createBuffer drv sz usage props dev = (r, dev')"
  shows "\<exists>rest. calls dev' = calls dev @ CreateBuffer sz usage # rest \<and>
           (\<forall>c \<in> set rest. \<not> is_CreateImage c)"
  using assms
  by (auto simp add: createBuffer_def Let_def split: sum.splits if_splits)

lemma createImage_result:
  assumes "createImage drv w h m f t u p dev = (r, dev')"
  shows "\<exists>rest. calls dev' = calls dev @ CreateImage w h m f t u # rest \<and>
           (\<forall>c \<in> set rest. \<not> is_CreateImage c)"
  using assms
  by (auto simp add: createImage_def Let_def split: sum.splits if_splits)

lemma transitionImageLayout_result:
  assumes "transitionImageLayout img f a b m dev = (r, dev')"
  shows "calls dev' = calls dev"
  using assms
  by (auto simp add: transitionImageLayout_def beginSingleTimeCommands_def
      endSingleTimeCommands_def Let_def split: sum.splits prod.splits)

lemma copyBufferToImage_calls:
  "calls (copyBufferToImage b i w h dev) = calls dev"
  by (simp add: copyBufferToImage_def beginSingleTimeCommands_def endSingleTimeCommands_def)

lemma generateMipmaps_result:
  assumes "generateMipmaps F img f w h m dev = (r, dev')"
  shows "calls dev' = calls dev"
  using assms
  by (auto simp add: generateMipmaps_def beginSingleTimeCommands_def endSingleTimeCommands_def
      split: if_splits)

lemma createTextureImage_trace:
  assumes ld: "load stbi = Inr tex"
  shows "\<exists>r dev' new. createTextureImage stbi drv dev = (r, dev') \<and>
           calls dev' = calls dev @ CreateBuffer (imageSize tex) VK_BUFFER_USAGE_TRANSFER_SRC_BIT # new \<and>
           (\<forall>w h m f t u. CreateImage w h m f t u \<in> set new \<longrightarrow>
              w = m_width tex \<and> h = m_height tex \<and>
              m = mipLevelCount (m_width tex) (m_height tex)) \<and>
           (\<forall>t. r = Inr t \<longrightarrow>
              m_mipLevels t = mipLevelCount (m_width tex) (m_height tex) \<and>
              (\<exists>f tl u. CreateImage (m_width tex) (m_height tex)
                  (mipLevelCount (m_width tex) (m_height tex)) f tl u \<in> set new))"
proof -
  let ?props = "VK_MEMORY_PROPERTY_HOST_VISIBLE_BIT OR VK_MEMORY_PROPERTY_HOST_COHERENT_BIT"
  let ?usage = "VK_IMAGE_USAGE_TRANSFER_SRC_BIT OR VK_IMAGE_USAGE_TRANSFER_DST_BIT
                                OR VK_IMAGE_USAGE_SAMPLED_BIT"
  let ?P = "\<lambda>r dev' new. calls dev' = calls dev @ CreateBuffer (imageSize tex) VK_BUFFER_USAGE_TRANSFER_SRC_BIT # new \<and>
           (\<forall>w h m f t u. CreateImage w h m f t u \<in> set new \<longrightarrow>
              w = m_width tex \<and> h = m_height tex \<and>
              m = mipLevelCount (m_width tex) (m_height tex)) \<and>
           (\<forall>t. r = Inr t \<longrightarrow>
              m_mipLevels t = mipLevelCount (m_width tex) (m_height tex) \<and>
              (\<exists>f tl u. CreateImage (m_width tex) (m_height tex)
                  (mipLevelCount (m_width tex) (m_height tex)) f tl u \<in> set new))"
  define mips where "mips = mipLevelCount (m_width tex) (m_height tex)"
  obtain r1 dev1 where cb: "createBuffer drv (imageSize tex) VK_BUFFER_USAGE_TRANSFER_SRC_BIT ?props dev = (r1, dev1)"
    by (cases "createBuffer drv (imageSize tex) VK_BUFFER_USAGE_TRANSFER_SRC_BIT ?props dev")
  from createBuffer_result [OF cb]
  obtain rest1 where c1: "calls dev1 = calls dev @ CreateBuffer (imageSize tex) VK_BUFFER_USAGE_TRANSFER_SRC_BIT # rest1"
    and n1: "\<forall>c \<in> set rest1. \<not> is_CreateImage c"
    by auto
  show ?thesis
  proof (cases r1)
    case (Inl e)
    with ld cb have "createTextureImage stbi drv dev = (Inl e, dev1)"
      by (simp add: createTextureImage_def)
    moreover have "?P (Inl e) dev1 rest1" using c1 n1 by auto
    ultimately show ?thesis by (intro exI) (rule conjI)
  next
    case (Inr bm)
    obtain sb sm where bm: "bm = (sb, sm)" by (cases bm)
    define dev2 where "dev2 = dev1\<lparr>calls := calls dev1 @ [MapCopyUnmap sm (imageSize tex)]\<rparr>"
    obtain r3 dev3 where ci: "createImage drv (m_width tex) (m_height tex) mips
        VK_FORMAT_R8G8B8A8_SRGB VK_IMAGE_TILING_OPTIMAL ?usage
        VK_MEMORY_PROPERTY_DEVICE_LOCAL_BIT dev2 = (r3, dev3)"
      by (cases "createImage drv (m_width tex) (m_height tex) mips
        VK_FORMAT_R8G8B8A8_SRGB VK_IMAGE_TILING_OPTIMAL ?usage
        VK_MEMORY_PROPERTY_DEVICE_LOCAL_BIT dev2")
    from createImage_result [OF ci]
    obtain rest3 where c3: "calls dev3 = calls dev2 @ CreateImage (m_width tex) (m_height tex) mips
        VK_FORMAT_R8G8B8A8_SRGB VK_IMAGE_TILING_OPTIMAL ?usage # rest3"
      and n3: "\<forall>c \<in> set rest3. \<not> is_CreateImage c"
      by auto
    define new3 where "new3 = rest1 @ [MapCopyUnmap sm (imageSize tex)] @
       CreateImage (m_width tex) (m_height tex) mips
        VK_FORMAT_R8G8B8A8_SRGB VK_IMAGE_TILING_OPTIMAL ?usage # rest3"
    have c3': "calls dev3 = calls dev @ CreateBuffer (imageSize tex) VK_BUFFER_USAGE_TRANSFER_SRC_BIT # new3"
      by (simp add: c3 dev2_def c1 new3_def)
    have only3: "w = m_width tex \<and> h = m_height tex \<and> m = mips"
      if "CreateImage w h m f t u \<in> set (new3 @ xs)" "\<forall>c \<in> set xs. \<not> is_CreateImage c"
      for w h m f t u xs
      using that n1 n3 by (auto simp add: new3_def)
    have has3: "CreateImage (m_width tex) (m_height tex) mips
        VK_FORMAT_R8G8B8A8_SRGB VK_IMAGE_TILING_OPTIMAL ?usage \<in> set (new3 @ xs)" for xs
      by (simp add: new3_def)
    have only3': "w = m_width tex \<and> h = m_height tex \<and> m = mips"
      if "CreateImage w h m f t u \<in> set new3" for w h m f t u
      using that only3 [of w h m f t u "[]"] by simp
    show ?thesis
    proof (cases r3)
      case (Inl e)
      with ld cb Inr bm ci have "createTextureImage stbi drv dev = (Inl e, dev3)"
        by (simp add: createTextureImage_def Let_def dev2_def mips_def)
      moreover have "?P (Inl e) dev3 new3"
        using c3' only3' unfolding mips_def by blast
      ultimately show ?thesis by (intro exI) (rule conjI)
    next
      case im: (Inr im)
      obtain ti tm where im': "im = (ti, tm)" by (cases im)
      obtain r4 dev4 where tr: "transitionImageLayout ti VK_FORMAT_R8G8B8A8_SRGB
                                  VK_IMAGE_LAYOUT_UNDEFINED VK_IMAGE_LAYOUT_TRANSFER_DST_OPTIMAL
                                  mips dev3 = (r4, dev4)"
        by (cases "transitionImageLayout ti VK_FORMAT_R8G8B8A8_SRGB
                                  VK_IMAGE_LAYOUT_UNDEFINED VK_IMAGE_LAYOUT_TRANSFER_DST_OPTIMAL
                                  mips dev3")
      from transitionImageLayout_result [OF tr] have c4: "calls dev4 = calls dev3" .
      show ?thesis
      proof (cases r4)
        case (Inl e)
        with ld cb Inr bm ci im im' tr have "createTextureImage stbi drv dev = (Inl e, dev4)"
          by (simp add: createTextureImage_def Let_def dev2_def mips_def)
        moreover have "?P (Inl e) dev4 new3"
          using c3' c4 only3' unfolding mips_def by (simp only:) blast
        ultimately show ?thesis by (intro exI) (rule conjI)
      next
        case ok4: (Inr u4)
        define dev5 where "dev5 = copyBufferToImage sb ti (m_width tex) (m_height tex) dev4"
        define dev6 where "dev6 = dev5\<lparr>calls := calls dev5 @ [DestroyBuffer sb, FreeMemory sm]\<rparr>"
        obtain r7 dev7 where gm: "generateMipmaps (formatOptimalTilingFeatures drv) ti
            VK_FORMAT_R8G8B8A8_SRGB (sint (m_width tex)) (sint (m_height tex)) mips dev6 = (r7, dev7)"
          by (cases "generateMipmaps (formatOptimalTilingFeatures drv) ti
            VK_FORMAT_R8G8B8A8_SRGB (sint (m_width tex)) (sint (m_height tex)) mips dev6")
        from generateMipmaps_result [OF gm] have c7: "calls dev7 = calls dev6" .
        have c7': "calls dev7 = calls dev @ CreateBuffer (imageSize tex) VK_BUFFER_USAGE_TRANSFER_SRC_BIT #
             (new3 @ [DestroyBuffer sb, FreeMemory sm])"
          by (simp add: c7 dev6_def dev5_def copyBufferToImage_calls c4 c3')
        have only7: "w = m_width tex \<and> h = m_height tex \<and> m = mips"
          if "CreateImage w h m f t u \<in> set (new3 @ [DestroyBuffer sb, FreeMemory sm])"
          for w h m f t u
          using that by (intro only3 [of w h m f t u "[DestroyBuffer sb, FreeMemory sm]"]) simp_all
        show ?thesis
        proof (cases r7)
          case (Inl e)
          with ld cb Inr bm ci im im' tr ok4 gm
          have "createTextureImage stbi drv dev = (Inl e, dev7)"
            by (simp add: createTextureImage_def Let_def dev2_def mips_def dev5_def dev6_def)
          moreover have "?P (Inl e) dev7 (new3 @ [DestroyBuffer sb, FreeMemory sm])"
            using c7' only7 unfolding mips_def by blast
          ultimately show ?thesis by (intro exI) (rule conjI)
        next
          case ok7: (Inr u7)
          let ?t = "\<lparr>m_textureImage = ti, m_textureImageMemory = tm, m_mipLevels = mips\<rparr>"
          from ld cb Inr bm ci im im' tr ok4 gm ok7
          have "createTextureImage stbi drv dev = (Inr ?t, dev7)"
            by (simp add: createTextureImage_def Let_def dev2_def mips_def dev5_def dev6_def)
          moreover have "?P (Inr ?t) dev7 (new3 @ [DestroyBuffer sb, FreeMemory sm])"
          proof (intro conjI allI impI)
            show "calls dev7 = calls dev @ CreateBuffer (imageSize tex) VK_BUFFER_USAGE_TRANSFER_SRC_BIT #
                (new3 @ [DestroyBuffer sb, FreeMemory sm])"
              by (rule c7')
          next
            fix w h m f t u
            assume "CreateImage w h m f t u \<in> set (new3 @ [DestroyBuffer sb, FreeMemory sm])"
            then have "w = m_width tex \<and> h = m_height tex \<and> m = mips" by (rule only7)
            then show "w = m_width tex" "h = m_height tex"
              "m = mipLevelCount (m_width tex) (m_height tex)"
              by (simp_all only: mips_def)
          next
            fix t assume "Inr ?t = Inr t"
            then have "t = ?t" by simp
            then show "m_mipLevels t = mipLevelCount (m_width tex) (m_height tex)"
              by (simp add: mips_def)
          next
            fix t
            from has3 [of "[DestroyBuffer sb, FreeMemory sm]"]
            show "\<exists>f tl u. CreateImage (m_width tex) (m_height tex)
                  (mipLevelCount (m_width tex) (m_height tex)) f tl u
                    \<in> set (new3 @ [DestroyBuffer sb, FreeMemory sm])"
              unfolding mips_def by (intro exI)
          qed
          ultimately show ?thesis by (intro exI) (rule conjI)
        qed
      qed
    qed
  qed
qed

lemma imageSize_rgba:
  assumes "rgba_load (w, h, 4, px)"
  shows "uint (imageSize \<lparr>m_width = word_of_int w, m_height = word_of_int h,
                           m_channels = word_of_int 4, m_pixels = px\<rparr>) = w * h * 5"
proof -
  from assms have w: "0 < w" and h: "0 < h" and b: "w * h * 4 \<le> 2 ^ 31 - 1"
    by (simp_all add: rgba_load_def)
  have pos: "0 \<le> w * h * 5" using w h by simp
  have "w * h * 5 < 2 ^ 32" using b w h by simp
  then have small: "w * h * 5 < 2 ^ LENGTH(32)" by simp
  have e: "(word_of_int (w * h * 5) :: 32 word) = word_of_int w * word_of_int h * (word_of_int 4 + 1)"
    by simp
  have "uint (word_of_int w * word_of_int h * (word_of_int 4 + 1) :: 32 word) = w * h * 5"
    using e pos small by (rule word_of_int_inverse)
  then show ?thesis
    by (simp add: imageSize_def uint_up_ucast is_up)
qed

lemma mipLevelCount_unat:
  "unat (mipLevelCount W H) = floorlog 2 (unat (max W H))"
proof -
  have "unat (max W H) < 2 ^ 32" using unsigned_less [of "max W H"] by simp
  then have "floorlog 2 (unat (max W H)) \<le> 32"
    by (simp add: floorlog_le_iff)
  then have "floorlog 2 (unat (max W H)) < 2 ^ 32" by simp
  then show ?thesis by (simp add: mipLevelCount_def unat_of_nat)
qed

lemma unat_max: "unat (max (W::32 word) H) = max (unat W) (unat H)"
  by (simp add: max_def word_le_nat_alt)

lemma mip_chain_bounds:
  assumes "1 \<le> n"
  shows "2 ^ (floorlog 2 n - 1) \<le> n" "n < 2 ^ floorlog 2 n" "1 \<le> floorlog 2 n"
    "int (floorlog 2 n) = \<lfloor>log 2 (real n)\<rfloor> + 1"
proof -
  from assms have n: "0 < n" by simp
  from floorlog_bounds [OF n, of 2] show "2 ^ (floorlog 2 n - 1) \<le> n" "n < 2 ^ floorlog 2 n"
    by simp_all
  show "1 \<le> floorlog 2 n" using n by (simp add: floorlog_def)
  have "0 \<le> log 2 (real n)" using assms by simp
  then have "0 \<le> \<lfloor>log 2 (real n)\<rfloor>" by simp
  then show "int (floorlog 2 n) = \<lfloor>log 2 (real n)\<rfloor> + 1"
    using n by (simp add: floorlog_def)
qed

lemma int_div_pow2: "int a div 2 ^ k = int (a div 2 ^ k)"
  by (simp add: zdiv_int)

lemma last_level_dim:
  assumes "1 \<le> a" "a \<le> n" "1 \<le> n"
  shows "max 1 (int a div 2 ^ (floorlog 2 n - 1)) = 1"
proof -
  have 1: "a < 2 ^ floorlog 2 n"
    using mip_chain_bounds(2) [OF assms(3)] assms(2) by simp
  have "Suc (floorlog 2 n - 1) = floorlog 2 n"
    using mip_chain_bounds(3) [OF assms(3)] by simp
  then have "(2::nat) ^ floorlog 2 n = 2 * 2 ^ (floorlog 2 n - 1)"
    using power_Suc [of "2::nat" "floorlog 2 n - 1"] by simp
  with 1 have "a < 2 * 2 ^ (floorlog 2 n - 1)" by simp
  then have "a div 2 ^ (floorlog 2 n - 1) < 2"
    by (rule less_mult_imp_div_less)
  then have "int (a div 2 ^ (floorlog 2 n - 1)) \<le> 1" by simp
  then show ?thesis by (simp only: int_div_pow2 max_absorb1)
qed

lemma earlier_level_dim:
  assumes "1 \<le> n" "i < floorlog 2 n - 1"
  shows "2 \<le> int n div 2 ^ i"
proof -
  from assms(2) have "Suc i \<le> floorlog 2 n - 1" by simp
  then have "(2::nat) ^ Suc i \<le> 2 ^ (floorlog 2 n - 1)"
    by (intro power_increasing) simp_all
  with mip_chain_bounds(1) [OF assms(1)] have "2 * 2 ^ i \<le> n" by simp
  then have "2 \<le> n div 2 ^ i"
    by (simp add: less_eq_div_iff_mult_less_eq)
  then have "2 \<le> int (n div 2 ^ i)" by simp
  then show ?thesis by (simp only: int_div_pow2)
qed

text \<open>
  Claim C9.  After a successful load, the first thing \<^verbatim>\<open>createTextureImage\<close> does on the
  device is to create the staging buffer, and the size it asks for is
  \<open>width * height * (channels + 1)\<close>, the product taken in \<^verbatim>\<open>uint32_t\<close>, where \<open>channels\<close> is
  the count the loader reported.  For a four-channel load (positive dimensions, a pixel
  buffer of \<open>width * height * 4\<close> bytes) with reported count 4 that size is
  \<open>width * height * 5\<close>, which exceeds the \<open>width * height * 4\<close> bytes that the pixel
  buffer holds.
\<close>

theorem createTextureImage_staging_size:
  assumes "load stbi = Inr tex"
  shows "(\<exists>rest. calls (snd (createTextureImage stbi drv dev)) =
            calls dev @ CreateBuffer (imageSize tex) VK_BUFFER_USAGE_TRANSFER_SRC_BIT # rest) \<and>
         imageSize tex = ucast (m_width tex * m_height tex * (m_channels tex + 1)) \<and>
         (\<forall>w h px. stbi = Some (w, h, 4, px) \<and> rgba_load (w, h, 4, px) \<longrightarrow>
            uint (imageSize tex) = w * h * (4 + 1) \<and>
            int (length (m_pixels tex)) = w * h * 4 \<and>
            int (length (m_pixels tex)) < uint (imageSize tex))"
proof (intro conjI allI impI)
  from createTextureImage_trace [OF assms, of drv dev]
  show "\<exists>rest. calls (snd (createTextureImage stbi drv dev)) =
            calls dev @ CreateBuffer (imageSize tex) VK_BUFFER_USAGE_TRANSFER_SRC_BIT # rest"
    by auto
next
  show "imageSize tex = ucast (m_width tex * m_height tex * (m_channels tex + 1))"
    by (rule imageSize_def)
next
  fix w h px
  assume a: "stbi = Some (w, h, 4, px) \<and> rgba_load (w, h, 4, px)"
  with assms have tex: "tex = \<lparr>m_width = word_of_int w, m_height = word_of_int h,
                           m_channels = word_of_int 4, m_pixels = px\<rparr>"
    by (simp add: load_def)
  from a have sz: "uint (imageSize tex) = w * h * 5"
    unfolding tex by (intro imageSize_rgba) simp
  from a have len: "int (length (m_pixels tex)) = w * h * 4"
    by (simp add: tex rgba_load_def)
  from a have "0 < w * h" by (simp add: rgba_load_def)
  then have lt: "w * h * 4 < w * h * 5" by linarith
  show "uint (imageSize tex) = w * h * (4 + 1)" using sz by simp
  show "int (length (m_pixels tex)) = w * h * 4" by (rule len)
  show "int (length (m_pixels tex)) < uint (imageSize tex)" using sz len lt by simp
qed

theorem createTextureImage_staging_size_witness:
  "load (Some (2, 3, 4, replicate 24 0)) =
     Inr \<lparr>m_width = 2, m_height = 3, m_channels = 4, m_pixels = replicate 24 0\<rparr> \<and>
   rgba_load (2, 3, 4, replicate 24 0) \<and>
   uint (imageSize \<lparr>m_width = 2, m_height = 3, m_channels = 4, m_pixels = replicate 24 0\<rparr>)
     = 30 \<and>
   int (length (replicate 24 (0 :: 8 word))) = 24"
proof -
  have l: "load (Some (2, 3, 4, replicate 24 0)) =
     Inr \<lparr>m_width = 2, m_height = 3, m_channels = 4, m_pixels = replicate 24 0\<rparr>"
    by (simp add: load_def)
  have r: "rgba_load (2, 3, 4, replicate 24 0)"
    by (simp add: rgba_load_def)
  from createTextureImage_staging_size [OF l] r
  have "uint (imageSize \<lparr>m_width = 2, m_height = 3, m_channels = 4,
           m_pixels = replicate 24 0\<rparr>) = 2 * 3 * (4 + 1)"
    by blast
  with l r show ?thesis by simp
qed

text \<open>
  Claim C10.  For a loaded texture of \<open>width \<times> height\<close> with both at least 1,
  \<^verbatim>\<open>createTextureImage\<close> takes no mip count from its caller: every image it creates, and
  the mip count it stores on success, has \<open>L = \<lfloor>log\<^sub>2 (max width height)\<rfloor> + 1\<close> levels.
  That is the full chain: \<open>2 ^ (L - 1) \<le> max width height < 2 ^ L\<close>, so the last level
  \<open>L - 1\<close> has extent \<open>1 \<times> 1\<close>, and at every earlier level the larger dimension is still
  at least 2.
\<close>

theorem createTextureImage_full_mip_chain:
  assumes "load stbi = Inr tex"
      and "1 \<le> unat (m_width tex)" and "1 \<le> unat (m_height tex)"
  shows "\<exists>r dev' new L.
           createTextureImage stbi drv dev = (r, dev') \<and>
           calls dev' = calls dev @ new \<and>
           (\<forall>w h m f t u. CreateImage w h m f t u \<in> set new \<longrightarrow> m = L) \<and>
           (\<forall>t. r = Inr t \<longrightarrow>
              m_mipLevels t = L \<and>
              (\<exists>f t u. CreateImage (m_width tex) (m_height tex) L f t u \<in> set new)) \<and>
           int (unat L) = \<lfloor>log 2 (real (max (unat (m_width tex)) (unat (m_height tex))))\<rfloor> + 1 \<and>
           2 ^ (unat L - 1) \<le> max (unat (m_width tex)) (unat (m_height tex)) \<and>
           max (unat (m_width tex)) (unat (m_height tex)) < 2 ^ unat L \<and>
           mip_extent (uint (m_width tex)) (uint (m_height tex)) (unat L - 1) = (1, 1) \<and>
           (\<forall>i < unat L - 1.
              2 \<le> max (fst (mip_extent (uint (m_width tex)) (uint (m_height tex)) i))
                       (snd (mip_extent (uint (m_width tex)) (uint (m_height tex)) i)))"
proof -
  define W where "W = unat (m_width tex)"
  define H where "H = unat (m_height tex)"
  define n where "n = max W H"
  define L where "L = mipLevelCount (m_width tex) (m_height tex)"
  have uL: "unat L = floorlog 2 n"
    by (simp add: L_def mipLevelCount_unat unat_max n_def W_def H_def)
  have n1: "1 \<le> n" using assms(2) by (simp add: n_def W_def)
  have W1: "1 \<le> W" "W \<le> n" and H1: "1 \<le> H" "H \<le> n"
    using assms(2,3) by (simp_all add: n_def W_def H_def)
  have iW: "uint (m_width tex) = int W" and iH: "uint (m_height tex) = int H"
    by (simp_all add: W_def H_def)
  from createTextureImage_trace [OF assms(1), of drv dev]
  obtain r dev' new0 where run: "createTextureImage stbi drv dev = (r, dev')"
    and c: "calls dev' = calls dev @
              CreateBuffer (imageSize tex) VK_BUFFER_USAGE_TRANSFER_SRC_BIT # new0"
    and only: "\<And>w h m f t u. CreateImage w h m f t u \<in> set new0 \<Longrightarrow> m = L"
    and ok: "\<And>t. r = Inr t \<Longrightarrow> m_mipLevels t = L \<and>
               (\<exists>f tl u. CreateImage (m_width tex) (m_height tex) L f tl u \<in> set new0)"
    unfolding L_def by blast
  let ?new = "CreateBuffer (imageSize tex) VK_BUFFER_USAGE_TRANSFER_SRC_BIT # new0"
  have p1: "calls dev' = calls dev @ ?new" by (rule c)
  have p2: "\<forall>w h m f t u. CreateImage w h m f t u \<in> set ?new \<longrightarrow> m = L"
    using only by auto
  have p3: "\<forall>t. r = Inr t \<longrightarrow> m_mipLevels t = L \<and>
              (\<exists>f t u. CreateImage (m_width tex) (m_height tex) L f t u \<in> set ?new)"
    using ok by auto
  have p4: "int (unat L) = \<lfloor>log 2 (real (max (unat (m_width tex)) (unat (m_height tex))))\<rfloor> + 1"
    using mip_chain_bounds(4) [OF n1] by (simp only: uL n_def W_def H_def)
  have p5: "2 ^ (unat L - 1) \<le> max (unat (m_width tex)) (unat (m_height tex))"
    using mip_chain_bounds(1) [OF n1] by (simp only: uL n_def W_def H_def)
  have p6: "max (unat (m_width tex)) (unat (m_height tex)) < 2 ^ unat L"
    using mip_chain_bounds(2) [OF n1] by (simp only: uL n_def W_def H_def)
  have p7: "mip_extent (uint (m_width tex)) (uint (m_height tex)) (unat L - 1) = (1, 1)"
    unfolding mip_extent_def iW iH uL
    using last_level_dim [OF W1 n1] last_level_dim [OF H1 n1] by simp
  have p8: "\<forall>i < unat L - 1.
              2 \<le> max (fst (mip_extent (uint (m_width tex)) (uint (m_height tex)) i))
                       (snd (mip_extent (uint (m_width tex)) (uint (m_height tex)) i))"
  proof (intro allI impI)
    fix i assume "i < unat L - 1"
    then have "2 \<le> int n div 2 ^ i" unfolding uL by (rule earlier_level_dim [OF n1])
    moreover have "int n = max (int W) (int H)" by (simp add: n_def)
    ultimately have "2 \<le> int W div 2 ^ i \<or> 2 \<le> int H div 2 ^ i"
      by (auto simp add: max_def split: if_splits)
    then show "2 \<le> max (fst (mip_extent (uint (m_width tex)) (uint (m_height tex)) i))
                       (snd (mip_extent (uint (m_width tex)) (uint (m_height tex)) i))"
      unfolding mip_extent_def iW iH by auto
  qed
  from run p1 p2 p3 p4 p5 p6 p7 p8 show ?thesis by (intro exI conjI)
qed

theorem createTextureImage_full_mip_chain_witness:
  "load (Some (10, 3, 4, replicate 120 0)) =
     Inr \<lparr>m_width = 10, m_height = 3, m_channels = 4, m_pixels = replicate 120 0\<rparr> \<and>
   1 \<le> unat (10 :: uint32_t) \<and> 1 \<le> unat (3 :: uint32_t) \<and>
   fst (createTextureImage (Some (10, 3, 4, replicate 120 0))
          \<lparr>deviceMemoryProperties = \<lparr>memoryTypeCount = 2, memoryTypes = [1, 6]\<rparr>,
           formatOptimalTilingFeatures = (\<lambda>_. 0x1000),
           resultCreateBuffer = VK_SUCCESS, bufferMemoryRequirements = (256, 3),
           resultAllocateBufferMemory = VK_SUCCESS,
           resultCreateImage = VK_SUCCESS, imageMemoryRequirements = (1024, 3),
           resultAllocateImageMemory = VK_SUCCESS\<rparr>
          \<lparr>executed = [], liveCommandBuffers = 0, calls = []\<rparr>) =
     Inr \<lparr>m_textureImage = 4, m_textureImageMemory = 5, m_mipLevels = 4\<rparr> \<and>
   int (unat (4 :: uint32_t)) = \<lfloor>log 2 (real (max (unat (10 :: uint32_t)) (unat (3 :: uint32_t))))\<rfloor> + 1 \<and>
   mip_extent (uint (10 :: uint32_t)) (uint (3 :: uint32_t)) (unat (4 :: uint32_t) - 1) = (1, 1)"
proof -
  let ?S = "Some (10, 3, 4, replicate 120 (0 :: 8 word))"
  let ?T = "\<lparr>m_width = 10, m_height = 3, m_channels = 4, m_pixels = replicate 120 (0 :: 8 word)\<rparr>"
  let ?D = "\<lparr>deviceMemoryProperties = \<lparr>memoryTypeCount = 2, memoryTypes = [1, 6]\<rparr>,
           formatOptimalTilingFeatures = (\<lambda>_. 0x1000),
           resultCreateBuffer = VK_SUCCESS, bufferMemoryRequirements = (256, 3),
           resultAllocateBufferMemory = VK_SUCCESS,
           resultCreateImage = VK_SUCCESS, imageMemoryRequirements = (1024, 3),
           resultAllocateImageMemory = VK_SUCCESS\<rparr>"
  let ?dev = "\<lparr>executed = [], liveCommandBuffers = 0, calls = []\<rparr>"
  have l: "load ?S = Inr ?T" by (simp add: load_def)
  have w: "1 \<le> unat (m_width ?T)" and h: "1 \<le> unat (m_height ?T)" by simp_all
  have m: "mipLevelCount 10 3 = 4"
    by (simp add: mipLevelCount_def compute_floorlog)
  have fm1: "findMemoryType \<lparr>memoryTypeCount = 2, memoryTypes = [1, 6]\<rparr> 3 6 = Inr 1"
    by (simp add: findMemoryType_def findMemoryType_loop.simps)
  have fm2: "findMemoryType \<lparr>memoryTypeCount = 2, memoryTypes = [1, 6]\<rparr> 3 1 = Inr 0"
    by (simp add: findMemoryType_def findMemoryType_loop.simps)
  have ev: "fst (createTextureImage ?S ?D ?dev) =
     Inr \<lparr>m_textureImage = 4, m_textureImageMemory = 5, m_mipLevels = 4\<rparr>"
    by (simp add: createTextureImage_def l m createBuffer_def createImage_def fm1 fm2
        VK_MEMORY_PROPERTY_HOST_VISIBLE_BIT_def VK_MEMORY_PROPERTY_HOST_COHERENT_BIT_def
        VK_MEMORY_PROPERTY_DEVICE_LOCAL_BIT_def transitionImageLayout_def
        transitionAccessMasks_def transitionStages_def beginSingleTimeCommands_def
        endSingleTimeCommands_def copyBufferToImage_def generateMipmaps_def
        VK_FORMAT_FEATURE_SAMPLED_IMAGE_FILTER_LINEAR_BIT_def Let_def)
  from createTextureImage_full_mip_chain [OF l w h, of ?D ?dev]
  obtain r dev' new L where run: "createTextureImage ?S ?D ?dev = (r, dev')"
    and ok: "\<forall>t. r = Inr t \<longrightarrow> m_mipLevels t = L \<and>
              (\<exists>f t u. CreateImage (m_width ?T) (m_height ?T) L f t u \<in> set new)"
    and lg: "int (unat L) = \<lfloor>log 2 (real (max (unat (m_width ?T)) (unat (m_height ?T))))\<rfloor> + 1"
    and ex: "mip_extent (uint (m_width ?T)) (uint (m_height ?T)) (unat L - 1) = (1, 1)"
    by blast
  from run ev have "r = Inr \<lparr>m_textureImage = 4, m_textureImageMemory = 5, m_mipLevels = 4\<rparr>"
    by simp
  with ok have L: "L = 4" by auto
  from lg have lg': "int (unat (4 :: uint32_t)) =
      \<lfloor>log 2 (real (max (unat (10 :: uint32_t)) (unat (3 :: uint32_t))))\<rfloor> + 1"
    unfolding L by (simp only: StbTextureImage.simps)
  from ex have ex': "mip_extent (uint (10 :: uint32_t)) (uint (3 :: uint32_t)) (unat (4 :: uint32_t) - 1) = (1, 1)"
    unfolding L by (simp only: StbTextureImage.simps)
  have w': "1 \<le> unat (10 :: uint32_t)" and h': "1 \<le> unat (3 :: uint32_t)" by simp_all
  show ?thesis
    by (intro conjI) (rule l w' h' ev lg' ex')+
qed


section \<open>Frame loop and swapchain recreation\<close>

subsection \<open>The polling loop\<close>

lemma poll_exit:
  "fst wh \<noteq> 0 \<Longrightarrow> snd wh \<noteq> 0 \<Longrightarrow> pollFramebufferSize sizes k wh = Some (k, wh)"
  by (subst pollFramebufferSize.simps) simp

lemma poll_again:
  "fst wh = 0 \<or> snd wh = 0 \<Longrightarrow>
     pollFramebufferSize sizes k wh = pollFramebufferSize sizes (Suc k) (sizes k)"
  by (subst pollFramebufferSize.simps) simp

lemma poll_Some:
  assumes "pollFramebufferSize sizes k wh = Some r"
  shows "fst (snd r) \<noteq> 0 \<and> snd (snd r) \<noteq> 0 \<and> k \<le> fst r \<and>
         (fst r = k \<longrightarrow> snd r = wh) \<and>
         (k < fst r \<longrightarrow> (fst wh = 0 \<or> snd wh = 0) \<and> snd r = sizes (fst r - 1)) \<and>
         (\<forall>j. k \<le> j \<and> j < fst r - 1 \<longrightarrow> fst (sizes j) = 0 \<or> snd (sizes j) = 0)"
proof (rule pollFramebufferSize.raw_induct [where P = "\<lambda>sizes k wh r.
         fst (snd r) \<noteq> 0 \<and> snd (snd r) \<noteq> 0 \<and> k \<le> fst r \<and>
         (fst r = k \<longrightarrow> snd r = wh) \<and>
         (k < fst r \<longrightarrow> (fst wh = 0 \<or> snd wh = 0) \<and> snd r = sizes (fst r - 1)) \<and>
         (\<forall>j. k \<le> j \<and> j < fst r - 1 \<longrightarrow> fst (sizes j) = 0 \<or> snd (sizes j) = 0)",
         OF _ assms])
  fix poll :: "(nat \<Rightarrow> int \<times> int) \<Rightarrow> nat \<Rightarrow> int \<times> int \<Rightarrow> (nat \<times> (int \<times> int)) option"
    and sizes k wh r
  assume hyp: "\<And>sizes k wh r. poll sizes k wh = Some r \<Longrightarrow>
         fst (snd r) \<noteq> 0 \<and> snd (snd r) \<noteq> 0 \<and> k \<le> fst r \<and>
         (fst r = k \<longrightarrow> snd r = wh) \<and>
         (k < fst r \<longrightarrow> (fst wh = 0 \<or> snd wh = 0) \<and> snd r = sizes (fst r - 1)) \<and>
         (\<forall>j. k \<le> j \<and> j < fst r - 1 \<longrightarrow> fst (sizes j) = 0 \<or> snd (sizes j) = 0)"
    and body: "(if fst wh = 0 \<or> snd wh = 0 then poll sizes (Suc k) (sizes k)
                else Some (k, wh)) = Some r"
  show "fst (snd r) \<noteq> 0 \<and> snd (snd r) \<noteq> 0 \<and> k \<le> fst r \<and>
         (fst r = k \<longrightarrow> snd r = wh) \<and>
         (k < fst r \<longrightarrow> (fst wh = 0 \<or> snd wh = 0) \<and> snd r = sizes (fst r - 1)) \<and>
         (\<forall>j. k \<le> j \<and> j < fst r - 1 \<longrightarrow> fst (sizes j) = 0 \<or> snd (sizes j) = 0)"
  proof (cases "fst wh = 0 \<or> snd wh = 0")
    case False
    with body have "r = (k, wh)" by auto
    with False show ?thesis by auto
  next
    case True
    with body have rec: "poll sizes (Suc k) (sizes k) = Some r" by simp
    have IH: "fst (snd r) \<noteq> 0 \<and> snd (snd r) \<noteq> 0 \<and> Suc k \<le> fst r \<and>
         (fst r = Suc k \<longrightarrow> snd r = sizes k) \<and>
         (Suc k < fst r \<longrightarrow> (fst (sizes k) = 0 \<or> snd (sizes k) = 0) \<and>
            snd r = sizes (fst r - 1)) \<and>
         (\<forall>j. Suc k \<le> j \<and> j < fst r - 1 \<longrightarrow> fst (sizes j) = 0 \<or> snd (sizes j) = 0)"
      using rec by (rule hyp)
    then have lt: "k < fst r" by simp
    have last: "snd r = sizes (fst r - 1)"
    proof (cases "fst r = Suc k")
      case True
      with IH show ?thesis by simp
    next
      case False
      with IH have "Suc k < fst r" by simp
      with IH show ?thesis by blast
    qed
    have zeros: "fst (sizes j) = 0 \<or> snd (sizes j) = 0" if "k \<le> j" "j < fst r - 1" for j
    proof (cases "j = k")
      case True
      with that have "Suc k < fst r" by simp
      with IH True show ?thesis by blast
    next
      case False
      with that have "Suc k \<le> j" by simp
      with IH that show ?thesis by blast
    qed
    from IH lt last zeros True show ?thesis by auto
  qed
qed

lemma poll_total:
  assumes "fst (sizes (k + d)) \<noteq> 0" "snd (sizes (k + d)) \<noteq> 0"
  shows "\<exists>r. pollFramebufferSize sizes k wh = Some r"
  using assms
proof (induction d arbitrary: k wh)
  case 0
  show ?case
  proof (cases "fst wh = 0 \<or> snd wh = 0")
    case False
    then show ?thesis by (simp add: poll_exit)
  next
    case True
    then have "pollFramebufferSize sizes k wh = pollFramebufferSize sizes (Suc k) (sizes k)"
      by (rule poll_again)
    also have "\<dots> = Some (Suc k, sizes k)" using 0 by (simp add: poll_exit)
    finally show ?thesis by blast
  qed
next
  case (Suc d)
  show ?case
  proof (cases "fst wh = 0 \<or> snd wh = 0")
    case False
    then show ?thesis by (simp add: poll_exit)
  next
    case True
    then have e: "pollFramebufferSize sizes k wh = pollFramebufferSize sizes (Suc k) (sizes k)"
      by (rule poll_again)
    from Suc.prems have "fst (sizes (Suc k + d)) \<noteq> 0" "snd (sizes (Suc k + d)) \<noteq> 0"
      by simp_all
    then have "\<exists>r. pollFramebufferSize sizes (Suc k) (sizes k) = Some r" by (rule Suc.IH)
    with e show ?thesis by simp
  qed
qed

lemma poll_None_iff:
  "pollFramebufferSize sizes (Suc p) (sizes p) = None \<longleftrightarrow>
     (\<forall>j\<ge>p. fst (sizes j) = 0 \<or> snd (sizes j) = 0)"
proof
  assume none: "pollFramebufferSize sizes (Suc p) (sizes p) = None"
  show "\<forall>j\<ge>p. fst (sizes j) = 0 \<or> snd (sizes j) = 0"
  proof (intro allI impI, rule ccontr)
    fix j assume "p \<le> j" and nz: "\<not> (fst (sizes j) = 0 \<or> snd (sizes j) = 0)"
    show False
    proof (cases "j = p")
      case True
      with nz have "pollFramebufferSize sizes (Suc p) (sizes p) = Some (Suc p, sizes p)"
        by (simp add: poll_exit)
      with none show False by simp
    next
      case False
      with \<open>p \<le> j\<close> obtain d where "j = Suc p + d"
        by (metis Suc_leI le_neq_implies_less le_Suc_ex)
      with nz have "fst (sizes (Suc p + d)) \<noteq> 0" "snd (sizes (Suc p + d)) \<noteq> 0" by simp_all
      then have "\<exists>r. pollFramebufferSize sizes (Suc p) (sizes p) = Some r" by (rule poll_total)
      with none show False by simp
    qed
  qed
next
  assume z: "\<forall>j\<ge>p. fst (sizes j) = 0 \<or> snd (sizes j) = 0"
  show "pollFramebufferSize sizes (Suc p) (sizes p) = None"
  proof (rule ccontr)
    assume "pollFramebufferSize sizes (Suc p) (sizes p) \<noteq> None"
    then obtain r where r: "pollFramebufferSize sizes (Suc p) (sizes p) = Some r" by blast
    note c = poll_Some [OF r]
    show False
    proof (cases "fst r = Suc p")
      case True
      with c have "snd r = sizes p" by blast
      with c z show False by auto
    next
      case False
      with c have "Suc p < fst r" by simp
      with c have "snd r = sizes (fst r - 1)" "p \<le> fst r - 1" by auto
      with c z show False by auto
    qed
  qed
qed

lemma poll_exit_index:
  assumes "pollFramebufferSize sizes (Suc p) (sizes p) = Some (k, wh)"
  shows "p < k \<and> wh = sizes (k - 1) \<and> fst wh \<noteq> 0 \<and> snd wh \<noteq> 0 \<and>
         (\<forall>j. p \<le> j \<and> j < k - 1 \<longrightarrow> fst (sizes j) = 0 \<or> snd (sizes j) = 0)"
proof -
  note c = poll_Some [OF assms, simplified]
  have wh: "wh = sizes (k - 1)"
  proof (cases "k = Suc p")
    case True
    with c show ?thesis by simp
  next
    case False
    with c have "Suc p < k" by simp
    with c show ?thesis by simp
  qed
  have z: "fst (sizes j) = 0 \<or> snd (sizes j) = 0" if "p \<le> j" "j < k - 1" for j
  proof (cases "j = p")
    case True
    with that have "Suc p < k" by simp
    with c True show ?thesis by simp
  next
    case False
    with that have "Suc p \<le> j" by simp
    with c that show ?thesis by simp
  qed
  from c wh z show ?thesis by auto
qed

subsection \<open>The GPU side\<close>

lemma retire_fields [simp]:
  "m_currentFrame (retire f s) = m_currentFrame s"
  "trace (retire f s) = trace s"
  "polls (retire f s) = polls s"
  "m_swapChainExtent (retire f s) = m_swapChainExtent s"
  "pending (retire f s) = removeAll f (pending s)"
  "m_inFlightFences (retire f s) = (m_inFlightFences s)[f := True]"
  by (simp_all add: retire_def)

lemma log_event_fields [simp]:
  "m_currentFrame (log_event e s) = m_currentFrame s"
  "trace (log_event e s) = trace s @ [e]"
  "polls (log_event e s) = polls s"
  "m_swapChainExtent (log_event e s) = m_swapChainExtent s"
  "pending (log_event e s) = pending s"
  "m_inFlightFences (log_event e s) = m_inFlightFences s"
  by (simp_all add: log_event_def)

lemma frame_inv_log_event [simp]: "frame_inv N (log_event e s) = frame_inv N s"
  by (simp add: frame_inv_def)

lemma frame_inv_retire:
  assumes "frame_inv N s"
  shows "frame_inv N (retire f s)"
proof -
  from assms have len: "length (m_inFlightFences s) = N"
    and d: "distinct (pending s)"
    and fl: "\<And>g. g < N \<Longrightarrow> m_inFlightFences s ! g \<longleftrightarrow> g \<notin> set (pending s)"
    and b: "\<And>g. g \<in> set (pending s) \<Longrightarrow> g < N"
    and c: "m_currentFrame s < N"
    by (auto simp add: frame_inv_def)
  have "(m_inFlightFences s)[f := True] ! g \<longleftrightarrow> g \<notin> set (removeAll f (pending s))"
    if "g < N" for g
  proof (cases "g = f")
    case True
    with that len show ?thesis by simp
  next
    case False
    with that fl [OF that] show ?thesis by simp
  qed
  with len d b c show ?thesis
    by (auto simp add: frame_inv_def distinct_removeAll)
qed

lemma foldr_retire_fields [simp]:
  "m_currentFrame (foldr retire fs s) = m_currentFrame s"
  "trace (foldr retire fs s) = trace s"
  "polls (foldr retire fs s) = polls s"
  "m_swapChainExtent (foldr retire fs s) = m_swapChainExtent s"
  "length (m_inFlightFences (foldr retire fs s)) = length (m_inFlightFences s)"
  by (induction fs) simp_all

lemma foldr_retire_pending:
  "pending (foldr retire fs s) = filter (\<lambda>x. x \<notin> set fs) (pending s)"
proof (induction fs)
  case Nil
  then show ?case by simp
next
  case (Cons f fs)
  have "removeAll f (filter (\<lambda>x. x \<notin> set fs) xs) =
          filter (\<lambda>x. x \<notin> set (f # fs)) xs" for xs
    by (induction xs) auto
  with Cons show ?case by simp
qed

lemma foldr_retire_fences:
  "i < length (m_inFlightFences s) \<Longrightarrow>
     m_inFlightFences (foldr retire fs s) ! i \<longleftrightarrow> m_inFlightFences s ! i \<or> i \<in> set fs"
proof (induction fs)
  case Nil
  then show ?case by simp
next
  case (Cons a fs)
  then have i: "i < length (m_inFlightFences (foldr retire fs s))" by simp
  show ?case
  proof (cases "i = a")
    case True
    with i show ?thesis by simp
  next
    case False
    with i Cons show ?thesis by simp
  qed
qed

lemma vkDeviceWaitIdle_fields [simp]:
  "m_currentFrame (vkDeviceWaitIdle s) = m_currentFrame s"
  "trace (vkDeviceWaitIdle s) = trace s @ [DeviceWaitIdle]"
  "polls (vkDeviceWaitIdle s) = polls s"
  "m_swapChainExtent (vkDeviceWaitIdle s) = m_swapChainExtent s"
  "pending (vkDeviceWaitIdle s) = []"
  "length (m_inFlightFences (vkDeviceWaitIdle s)) = length (m_inFlightFences s)"
  by (simp_all add: vkDeviceWaitIdle_def foldr_retire_pending)

lemma vkDeviceWaitIdle_fences:
  assumes "frame_inv N s"
  shows "m_inFlightFences (vkDeviceWaitIdle s) = replicate N True"
proof (rule nth_equalityI)
  from assms show "length (m_inFlightFences (vkDeviceWaitIdle s)) = length (replicate N True)"
    by (simp add: frame_inv_def)
next
  fix i assume "i < length (m_inFlightFences (vkDeviceWaitIdle s))"
  with assms have i: "i < N" "i < length (m_inFlightFences s)" by (simp_all add: frame_inv_def)
  with assms have "m_inFlightFences s ! i \<or> i \<in> set (pending s)"
    by (auto simp add: frame_inv_def)
  with i show "m_inFlightFences (vkDeviceWaitIdle s) ! i = replicate N True ! i"
    by (simp add: vkDeviceWaitIdle_def foldr_retire_fences)
qed

lemma frame_inv_idle:
  assumes "length (m_inFlightFences s) = N" "m_currentFrame s < N" "pending s = []"
    "m_inFlightFences s = replicate N True"
  shows "frame_inv N s"
  using assms by (simp add: frame_inv_def)

lemma frame_inv_vkDeviceWaitIdle:
  assumes "frame_inv N s"
  shows "frame_inv N (vkDeviceWaitIdle s)"
  using assms vkDeviceWaitIdle_fences [OF assms]
  by (intro frame_inv_idle) (simp_all add: frame_inv_def)

subsection \<open>Waiting on a fence\<close>

lemma vkWaitForFences_inv:
  assumes "frame_inv N s" "f < N"
  shows "\<exists>s1. vkWaitForFences f s = Returns s1 \<and> frame_inv N s1 \<and>
           m_inFlightFences s1 ! f \<and> f \<notin> set (pending s1) \<and>
           trace s1 = trace s @ [WaitForFences f] \<and>
           m_currentFrame s1 = m_currentFrame s \<and> polls s1 = polls s \<and>
           m_swapChainExtent s1 = m_swapChainExtent s \<and>
           set (pending s1) \<subseteq> set (pending s) \<and>
           (m_inFlightFences s ! f \<longrightarrow>
              pending s1 = pending s \<and> m_inFlightFences s1 = m_inFlightFences s)"
proof (cases "m_inFlightFences s ! f")
  case True
  with assms have "f \<notin> set (pending s)" by (auto simp add: frame_inv_def)
  with True assms show ?thesis by (simp add: vkWaitForFences_def)
next
  case False
  with assms have p: "f \<in> set (pending s)" by (auto simp add: frame_inv_def)
  from assms have len: "f < length (m_inFlightFences s)" by (simp add: frame_inv_def)
  have "frame_inv N (retire f (log_event (WaitForFences f) s))"
    using assms(1) by (intro frame_inv_retire) simp
  with False p len show ?thesis by (auto simp add: vkWaitForFences_def)
qed


subsection \<open>Recreating the swapchain\<close>

lemma rebuildSwapChain_outcome:
  "\<exists>s' evs. (rebuildSwapChain env s = Returns s' \<or> (\<exists>e. rebuildSwapChain env s = Throws e s')) \<and>
     trace s' = trace s @ CleanupSwapChain #
       CreateSwapChain (selectSwapExtent (surfaceCapabilities env) (windowSize env)) # evs \<and>
     set evs \<subseteq> {CreateImageViews, CreateDepthResources, CreateFramebuffers} \<and>
     m_currentFrame s' = m_currentFrame s \<and> pending s' = pending s \<and>
     m_inFlightFences s' = m_inFlightFences s \<and> polls s' = polls s \<and>
     (rebuildSwapChain env s = Returns s' \<longrightarrow>
        m_swapChainExtent s' = selectSwapExtent (surfaceCapabilities env) (windowSize env) \<and>
        evs = [CreateImageViews, CreateDepthResources, CreateFramebuffers])"
  by (auto simp add: rebuildSwapChain_def createSwapChain_def rebuild_step_def Let_def
      log_event_def split: option.splits)

lemma recreateSwapChain_blocks:
  assumes "pollFramebufferSize (framebufferSize env) (Suc (polls s))
             (framebufferSize env (polls s)) = None"
  shows "recreateSwapChain env s = Blocks (log_event GetFramebufferSize s)"
  using assms by (simp add: recreateSwapChain_def)

lemma recreateSwapChain_proceeds:
  assumes "pollFramebufferSize (framebufferSize env) (Suc (polls s))
             (framebufferSize env (polls s)) = Some (k, wh)"
  shows "\<exists>s' evs. (recreateSwapChain env s = Returns s' \<or>
                    (\<exists>e. recreateSwapChain env s = Throws e s')) \<and>
     trace s' = trace s @ GetFramebufferSize #
       concat (replicate (k - Suc (polls s)) [GetFramebufferSize, WaitEvents]) @
       DeviceWaitIdle # CleanupSwapChain #
       CreateSwapChain (selectSwapExtent (surfaceCapabilities env) (windowSize env)) # evs \<and>
     set evs \<subseteq> {CreateImageViews, CreateDepthResources, CreateFramebuffers} \<and>
     m_currentFrame s' = m_currentFrame s \<and> pending s' = [] \<and> polls s' = k \<and>
     (\<forall>N. frame_inv N s \<longrightarrow>
        frame_inv N s' \<and> m_inFlightFences s' = replicate N True) \<and>
     (recreateSwapChain env s = Returns s' \<longrightarrow>
        m_swapChainExtent s' = selectSwapExtent (surfaceCapabilities env) (windowSize env) \<and>
        evs = [CreateImageViews, CreateDepthResources, CreateFramebuffers])"
proof -
  define s1 where "s1 = s\<lparr>polls := k,
                      trace := trace s @ GetFramebufferSize #
                        concat (replicate (k - Suc (polls s)) [GetFramebufferSize, WaitEvents])\<rparr>"
  define s2 where "s2 = vkDeviceWaitIdle s1"
  have r: "recreateSwapChain env s = rebuildSwapChain env s2"
    using assms by (simp add: recreateSwapChain_def s1_def s2_def)
  have inv1: "frame_inv N s1" if "frame_inv N s" for N
    using that by (simp add: frame_inv_def s1_def)
  have s2: "trace s2 = trace s @ GetFramebufferSize #
       concat (replicate (k - Suc (polls s)) [GetFramebufferSize, WaitEvents]) @ [DeviceWaitIdle]"
    "m_currentFrame s2 = m_currentFrame s" "pending s2 = []" "polls s2 = k"
    by (simp_all add: s2_def s1_def)
  have inv2: "frame_inv N s2 \<and> m_inFlightFences s2 = replicate N True" if "frame_inv N s" for N
    using frame_inv_vkDeviceWaitIdle [OF inv1 [OF that]] vkDeviceWaitIdle_fences [OF inv1 [OF that]]
    by (simp add: s2_def)
  from rebuildSwapChain_outcome [of env s2]
  obtain s' evs where o: "rebuildSwapChain env s2 = Returns s' \<or>
        (\<exists>e. rebuildSwapChain env s2 = Throws e s')"
    and t: "trace s' = trace s2 @ CleanupSwapChain #
       CreateSwapChain (selectSwapExtent (surfaceCapabilities env) (windowSize env)) # evs"
    and e: "set evs \<subseteq> {CreateImageViews, CreateDepthResources, CreateFramebuffers}"
    and f: "m_currentFrame s' = m_currentFrame s2" "pending s' = pending s2"
       "m_inFlightFences s' = m_inFlightFences s2" "polls s' = polls s2"
    and x: "rebuildSwapChain env s2 = Returns s' \<longrightarrow>
        m_swapChainExtent s' = selectSwapExtent (surfaceCapabilities env) (windowSize env) \<and>
        evs = [CreateImageViews, CreateDepthResources, CreateFramebuffers]"
    by blast
  have inv': "frame_inv N s' \<and> m_inFlightFences s' = replicate N True" if "frame_inv N s" for N
    using inv2 [OF that] f by (simp add: frame_inv_def s2)
  show ?thesis
  proof (intro exI conjI)
    show "recreateSwapChain env s = Returns s' \<or> (\<exists>e. recreateSwapChain env s = Throws e s')"
      using o by (simp only: r)
    show "trace s' = trace s @ GetFramebufferSize #
       concat (replicate (k - Suc (polls s)) [GetFramebufferSize, WaitEvents]) @
       DeviceWaitIdle # CleanupSwapChain #
       CreateSwapChain (selectSwapExtent (surfaceCapabilities env) (windowSize env)) # evs"
      by (simp add: t s2)
    show "set evs \<subseteq> {CreateImageViews, CreateDepthResources, CreateFramebuffers}" by (rule e)
    show "m_currentFrame s' = m_currentFrame s" by (simp add: f s2)
    show "pending s' = []" by (simp add: f s2)
    show "polls s' = k" by (simp add: f s2)
    show "\<forall>N. frame_inv N s \<longrightarrow> frame_inv N s' \<and> m_inFlightFences s' = replicate N True"
      using inv' by blast
    show "recreateSwapChain env s = Returns s' \<longrightarrow>
        m_swapChainExtent s' = selectSwapExtent (surfaceCapabilities env) (windowSize env) \<and>
        evs = [CreateImageViews, CreateDepthResources, CreateFramebuffers]"
      using x by (simp only: r)
  qed
qed


subsection \<open>Swap extent selection\<close>

lemma clamp_range:
  assumes "lo \<le> hi"
  shows "lo \<le> clamp v lo hi" "clamp v lo hi \<le> hi"
  using assms by (auto simp add: clamp_def)

lemma clamp_inside: "lo \<le> v \<Longrightarrow> v \<le> hi \<Longrightarrow> clamp v lo hi = v"
  by (auto simp add: clamp_def)

lemma recreateSwapChain_extent:
  assumes "recreateSwapChain env s = Returns s'"
  shows "m_swapChainExtent s' = selectSwapExtent (surfaceCapabilities env) (windowSize env)"
proof (cases "pollFramebufferSize (framebufferSize env) (Suc (polls s))
             (framebufferSize env (polls s))")
  case None
  with assms show ?thesis by (simp add: recreateSwapChain_blocks)
next
  case (Some r)
  obtain k wh where "r = (k, wh)" by (cases r)
  with Some recreateSwapChain_proceeds [of env s k wh] assms show ?thesis by auto
qed

text \<open>
  What \<^verbatim>\<open>selectSwapExtent\<close> computes.  When the surface reports the sentinel (a current
  width of \<^verbatim>\<open>0xFFFFFFFF\<close>), the chosen extent is the size that \<^verbatim>\<open>glfwGetWindowSize\<close>
  reports, cast to \<^verbatim>\<open>uint32_t\<close> and clamped componentwise by \<^verbatim>\<open>std::clamp\<close>, which lies in
  \<open>[minImageExtent, maxImageExtent]\<close> whenever that interval is not empty; otherwise the
  surface's current extent is used verbatim.  Every recreation that returns sets the
  swapchain extent to that choice, whatever the state before, so recreating again under
  the same surface capabilities and window size gives the same extent.
\<close>

lemma selectSwapExtent_window_size_clamped:
  "(width (currentExtent caps) \<noteq> - 1 \<longrightarrow> selectSwapExtent caps ws = currentExtent caps) \<and>
   (width (currentExtent caps) = - 1 \<longrightarrow>
      selectSwapExtent caps ws =
        \<lparr>width = clamp (word_of_int (fst ws)) (width (minImageExtent caps))
                   (width (maxImageExtent caps)),
         height = clamp (word_of_int (snd ws)) (height (minImageExtent caps))
                   (height (maxImageExtent caps))\<rparr>) \<and>
   (width (currentExtent caps) = - 1 \<and>
    width (minImageExtent caps) \<le> width (maxImageExtent caps) \<longrightarrow>
      width (minImageExtent caps) \<le> width (selectSwapExtent caps ws) \<and>
      width (selectSwapExtent caps ws) \<le> width (maxImageExtent caps)) \<and>
   (width (currentExtent caps) = - 1 \<and>
    height (minImageExtent caps) \<le> height (maxImageExtent caps) \<longrightarrow>
      height (minImageExtent caps) \<le> height (selectSwapExtent caps ws) \<and>
      height (selectSwapExtent caps ws) \<le> height (maxImageExtent caps)) \<and>
   (\<forall>s s'. recreateSwapChain env s = Returns s' \<longrightarrow>
      m_swapChainExtent s' = selectSwapExtent (surfaceCapabilities env) (windowSize env)) \<and>
   (\<forall>env' s s1 s2.
      surfaceCapabilities env' = surfaceCapabilities env \<and> windowSize env' = windowSize env \<and>
      recreateSwapChain env s = Returns s1 \<and> recreateSwapChain env' s1 = Returns s2 \<longrightarrow>
      m_swapChainExtent s2 = m_swapChainExtent s1)"
proof (intro conjI allI impI)
  assume "width (currentExtent caps) \<noteq> - 1"
  then show "selectSwapExtent caps ws = currentExtent caps" by (simp add: selectSwapExtent_def)
next
  assume "width (currentExtent caps) = - 1"
  then show "selectSwapExtent caps ws =
        \<lparr>width = clamp (word_of_int (fst ws)) (width (minImageExtent caps))
                   (width (maxImageExtent caps)),
         height = clamp (word_of_int (snd ws)) (height (minImageExtent caps))
                   (height (maxImageExtent caps))\<rparr>"
    by (simp add: selectSwapExtent_def)
next
  assume a: "width (currentExtent caps) = - 1 \<and>
    width (minImageExtent caps) \<le> width (maxImageExtent caps)"
  then show "width (minImageExtent caps) \<le> width (selectSwapExtent caps ws)"
    and "width (selectSwapExtent caps ws) \<le> width (maxImageExtent caps)"
    by (simp_all add: selectSwapExtent_def clamp_range)
next
  assume a: "width (currentExtent caps) = - 1 \<and>
    height (minImageExtent caps) \<le> height (maxImageExtent caps)"
  then show "height (minImageExtent caps) \<le> height (selectSwapExtent caps ws)"
    and "height (selectSwapExtent caps ws) \<le> height (maxImageExtent caps)"
    by (simp_all add: selectSwapExtent_def clamp_range)
next
  fix s s' assume "recreateSwapChain env s = Returns s'"
  then show "m_swapChainExtent s' = selectSwapExtent (surfaceCapabilities env) (windowSize env)"
    by (rule recreateSwapChain_extent)
next
  fix env' s s1 s2
  assume a: "surfaceCapabilities env' = surfaceCapabilities env \<and> windowSize env' = windowSize env \<and>
      recreateSwapChain env s = Returns s1 \<and> recreateSwapChain env' s1 = Returns s2"
  then have r1: "recreateSwapChain env s = Returns s1"
    and r2: "recreateSwapChain env' s1 = Returns s2"
    by simp_all
  have "m_swapChainExtent s1 = selectSwapExtent (surfaceCapabilities env) (windowSize env)"
    "m_swapChainExtent s2 = selectSwapExtent (surfaceCapabilities env') (windowSize env')"
    using r1 r2 by (simp_all only: recreateSwapChain_extent)
  with a show "m_swapChainExtent s2 = m_swapChainExtent s1" by simp
qed

lemma initial_app_2:
  "initial_app 2 extent =
     \<lparr>m_currentFrame = 0, m_inFlightFences = [True, True], pending = [],
      m_swapChainExtent = extent, polls = 0, trace = []\<rparr>"
  by (simp add: initial_app_def createRenderingSyncObjects_def numeral_2_eq_2)

lemma select_example:
  "selectSwapExtent sentinel_capabilities (800, 600) = \<lparr>width = 800, height = 600\<rparr>"
  by (simp add: selectSwapExtent_def sentinel_capabilities_def clamp_def)

lemma example_recreate:
  "recreateSwapChain example_env (initial_app 2 \<lparr>width = 640, height = 480\<rparr>) =
     Returns \<lparr>m_currentFrame = 0, m_inFlightFences = [True, True], pending = [],
       m_swapChainExtent = \<lparr>width = 800, height = 600\<rparr>, polls = 1,
       trace = [GetFramebufferSize, DeviceWaitIdle, CleanupSwapChain,
                CreateSwapChain \<lparr>width = 800, height = 600\<rparr>,
                CreateImageViews, CreateDepthResources, CreateFramebuffers]\<rparr>"
  by (simp add: recreateSwapChain_def example_env_def initial_app_2 steady_size_def poll_exit
      vkDeviceWaitIdle_def log_event_def rebuildSwapChain_def
      createSwapChain_def rebuild_step_def select_example Let_def)

lemma selectSwapExtent_examples:
  "width (currentExtent sentinel_capabilities) = - 1 \<and>
   width (minImageExtent sentinel_capabilities) \<le> width (maxImageExtent sentinel_capabilities) \<and>
   selectSwapExtent sentinel_capabilities (5000, 0) = \<lparr>width = 4096, height = 1\<rparr> \<and>
   selectSwapExtent minimised_capabilities (5000, 0) = \<lparr>width = 0, height = 0\<rparr> \<and>
   m_swapChainExtent (outcome_state (recreateSwapChain example_env
       (initial_app 2 \<lparr>width = 640, height = 480\<rparr>))) = \<lparr>width = 800, height = 600\<rparr> \<and>
   m_swapChainExtent (outcome_state (recreateSwapChain example_env
       (outcome_state (recreateSwapChain example_env
          (initial_app 2 \<lparr>width = 640, height = 480\<rparr>))))) = \<lparr>width = 800, height = 600\<rparr>"
proof -
  let ?s0 = "initial_app 2 \<lparr>width = 640, height = 480\<rparr>"
  let ?s1 = "outcome_state (recreateSwapChain example_env ?s0)"
  have r1: "recreateSwapChain example_env ?s0 = Returns ?s1"
    by (simp add: example_recreate)
  have r2: "recreateSwapChain example_env ?s1 = Returns (outcome_state (recreateSwapChain example_env ?s1))"
    by (simp add: example_recreate recreateSwapChain_def example_env_def steady_size_def poll_exit
      vkDeviceWaitIdle_def log_event_def rebuildSwapChain_def
      createSwapChain_def rebuild_step_def Let_def)
  note t = selectSwapExtent_window_size_clamped
  have a: "width (currentExtent sentinel_capabilities) = - 1"
    and b: "width (minImageExtent sentinel_capabilities) \<le> width (maxImageExtent sentinel_capabilities)"
    by (simp_all add: sentinel_capabilities_def)
  have c: "selectSwapExtent sentinel_capabilities (5000, 0) = \<lparr>width = 4096, height = 1\<rparr>"
    using t [of sentinel_capabilities "(5000, 0)" example_env] a
    by (simp add: sentinel_capabilities_def clamp_def)
  have d: "selectSwapExtent minimised_capabilities (5000, 0) = \<lparr>width = 0, height = 0\<rparr>"
    using t [of minimised_capabilities "(5000, 0)" example_env]
    by (simp add: minimised_capabilities_def)
  have e: "m_swapChainExtent ?s1 = \<lparr>width = 800, height = 600\<rparr>"
    by (simp add: example_recreate)
  from t [of sentinel_capabilities "(5000, 0)" example_env] r1 r2
  have "m_swapChainExtent (outcome_state (recreateSwapChain example_env ?s1)) = m_swapChainExtent ?s1"
    by blast
  with e have f: "m_swapChainExtent (outcome_state (recreateSwapChain example_env ?s1)) =
      \<lparr>width = 800, height = 600\<rparr>" by simp
  from a b c d e f show ?thesis by (intro conjI)
qed

text \<open>
  Claim C7.  For a surface that reports the sentinel, the chosen extent is to be the
  framebuffer size, clamped componentwise into \<open>[minImageExtent, maxImageExtent]\<close>.
  \<^verbatim>\<open>recreateSwapChain\<close> polls that size with \<^verbatim>\<open>glfwGetFramebufferSize\<close>, but
  \<^verbatim>\<open>selectSwapExtent\<close> asks \<^verbatim>\<open>glfwGetWindowSize\<close>, which reports screen coordinates.  On a
  display with scale factor 2, a window of \<open>800 \<times> 600\<close> has a framebuffer of
  \<open>1600 \<times> 1200\<close>.  With a sentinel surface whose bounds are \<open>1\<close> and \<open>4096\<close> the clamped
  framebuffer size is \<open>1600 \<times> 1200\<close>, and \<^verbatim>\<open>recreateSwapChain\<close> creates the swapchain with
  extent \<open>800 \<times> 600\<close>.
\<close>

theorem recreateSwapChain_hidpi_extent:
  "width (currentExtent (surfaceCapabilities (example_env\<lparr>framebufferSize := hidpi_size\<rparr>))) = - 1 \<and>
   framebufferSize (example_env\<lparr>framebufferSize := hidpi_size\<rparr>) 0 = (1600, 1200) \<and>
   windowSize (example_env\<lparr>framebufferSize := hidpi_size\<rparr>) = (800, 600) \<and>
   recreateSwapChain (example_env\<lparr>framebufferSize := hidpi_size\<rparr>)
       (initial_app 2 \<lparr>width = 640, height = 480\<rparr>) =
     Returns \<lparr>m_currentFrame = 0, m_inFlightFences = [True, True], pending = [],
       m_swapChainExtent = \<lparr>width = 800, height = 600\<rparr>, polls = 1,
       trace = [GetFramebufferSize, DeviceWaitIdle, CleanupSwapChain,
                CreateSwapChain \<lparr>width = 800, height = 600\<rparr>,
                CreateImageViews, CreateDepthResources, CreateFramebuffers]\<rparr> \<and>
   \<lparr>width = 800, height = 600\<rparr> \<noteq>
     \<lparr>width = clamp (word_of_int 1600) 1 4096, height = clamp (word_of_int 1200) 1 4096\<rparr>"
proof -
  have "(\<lparr>width = 800, height = 600\<rparr> :: VkExtent2D) \<noteq>
     \<lparr>width = clamp (word_of_int 1600) 1 4096, height = clamp (word_of_int 1200) 1 4096\<rparr>"
    by (simp add: clamp_def)
  moreover have "width (currentExtent (surfaceCapabilities
      (example_env\<lparr>framebufferSize := hidpi_size\<rparr>))) = - 1"
    by (simp add: example_env_def sentinel_capabilities_def)
  moreover have "framebufferSize (example_env\<lparr>framebufferSize := hidpi_size\<rparr>) 0 = (1600, 1200)"
    by (simp add: hidpi_size_def)
  moreover have "windowSize (example_env\<lparr>framebufferSize := hidpi_size\<rparr>) = (800, 600)"
    by (simp add: example_env_def)
  moreover have "recreateSwapChain (example_env\<lparr>framebufferSize := hidpi_size\<rparr>)
       (initial_app 2 \<lparr>width = 640, height = 480\<rparr>) =
     Returns \<lparr>m_currentFrame = 0, m_inFlightFences = [True, True], pending = [],
       m_swapChainExtent = \<lparr>width = 800, height = 600\<rparr>, polls = 1,
       trace = [GetFramebufferSize, DeviceWaitIdle, CleanupSwapChain,
                CreateSwapChain \<lparr>width = 800, height = 600\<rparr>,
                CreateImageViews, CreateDepthResources, CreateFramebuffers]\<rparr>"
    by (simp add: recreateSwapChain_def example_env_def initial_app_2 hidpi_size_def poll_exit
      vkDeviceWaitIdle_def log_event_def rebuildSwapChain_def
      createSwapChain_def rebuild_step_def select_example Let_def)
  ultimately show ?thesis by (intro conjI)
qed


subsection \<open>The minimised window\<close>

text \<open>
  The polling loop.  \<^verbatim>\<open>recreateSwapChain\<close> polls the framebuffer size and, as long as a
  poll reports zero in either dimension, polls again and waits for events.  If every poll
  reports a zero dimension it never returns.  Otherwise it leaves the loop at the first
  poll \<open>k\<close> that is non-zero in both dimensions, having polled and waited once for each
  earlier poll, and only then waits for the device, destroys the old swapchain and
  creates the new one, with the extent that \<^verbatim>\<open>selectSwapExtent\<close> chooses.
\<close>

lemma recreateSwapChain_polls_until_nonzero:
  "((\<forall>j\<ge>polls s. fst (framebufferSize env j) = 0 \<or> snd (framebufferSize env j) = 0) \<longrightarrow>
      recreateSwapChain env s = Blocks (log_event GetFramebufferSize s)) \<and>
   ((\<exists>j\<ge>polls s. fst (framebufferSize env j) \<noteq> 0 \<and> snd (framebufferSize env j) \<noteq> 0) \<longrightarrow>
      (\<exists>k s' evs.
         polls s \<le> k \<and>
         fst (framebufferSize env k) \<noteq> 0 \<and> snd (framebufferSize env k) \<noteq> 0 \<and>
         (\<forall>j. polls s \<le> j \<and> j < k \<longrightarrow>
            fst (framebufferSize env j) = 0 \<or> snd (framebufferSize env j) = 0) \<and>
         (recreateSwapChain env s = Returns s' \<or>
          (\<exists>e. recreateSwapChain env s = Throws e s')) \<and>
         polls s' = Suc k \<and>
         trace s' = trace s @ GetFramebufferSize #
           concat (replicate (k - polls s) [GetFramebufferSize, WaitEvents]) @
           DeviceWaitIdle # CleanupSwapChain #
           CreateSwapChain (selectSwapExtent (surfaceCapabilities env) (windowSize env)) # evs \<and>
         set evs \<subseteq> {CreateImageViews, CreateDepthResources, CreateFramebuffers}))"
proof (intro conjI impI)
  assume "\<forall>j\<ge>polls s. fst (framebufferSize env j) = 0 \<or> snd (framebufferSize env j) = 0"
  then have "pollFramebufferSize (framebufferSize env) (Suc (polls s))
             (framebufferSize env (polls s)) = None"
    by (simp only: poll_None_iff)
  then show "recreateSwapChain env s = Blocks (log_event GetFramebufferSize s)"
    by (rule recreateSwapChain_blocks)
next
  assume "\<exists>j\<ge>polls s. fst (framebufferSize env j) \<noteq> 0 \<and> snd (framebufferSize env j) \<noteq> 0"
  then have "pollFramebufferSize (framebufferSize env) (Suc (polls s))
             (framebufferSize env (polls s)) \<noteq> None"
    by (simp only: poll_None_iff) blast
  then obtain k' wh where p: "pollFramebufferSize (framebufferSize env) (Suc (polls s))
             (framebufferSize env (polls s)) = Some (k', wh)"
    by auto
  note x = poll_exit_index [OF p]
  define k where "k = k' - 1"
  from x have k': "k' = Suc k" "polls s \<le> k" by (auto simp add: k_def)
  from x have nz: "fst (framebufferSize env k) \<noteq> 0" "snd (framebufferSize env k) \<noteq> 0"
    by (auto simp add: k_def)
  from x have z: "\<forall>j. polls s \<le> j \<and> j < k \<longrightarrow>
            fst (framebufferSize env j) = 0 \<or> snd (framebufferSize env j) = 0"
    by (auto simp add: k_def)
  from recreateSwapChain_proceeds [OF p]
  obtain s' evs where o: "recreateSwapChain env s = Returns s' \<or>
                    (\<exists>e. recreateSwapChain env s = Throws e s')"
    and t: "trace s' = trace s @ GetFramebufferSize #
       concat (replicate (k' - Suc (polls s)) [GetFramebufferSize, WaitEvents]) @
       DeviceWaitIdle # CleanupSwapChain #
       CreateSwapChain (selectSwapExtent (surfaceCapabilities env) (windowSize env)) # evs"
    and e: "set evs \<subseteq> {CreateImageViews, CreateDepthResources, CreateFramebuffers}"
    and q: "polls s' = k'"
    by blast
  from t have t': "trace s' = trace s @ GetFramebufferSize #
           concat (replicate (k - polls s) [GetFramebufferSize, WaitEvents]) @
           DeviceWaitIdle # CleanupSwapChain #
           CreateSwapChain (selectSwapExtent (surfaceCapabilities env) (windowSize env)) # evs"
    by (simp add: k')
  from q have q': "polls s' = Suc k" by (simp add: k')
  from k'(2) nz z o q' t' e
  show "\<exists>k s' evs.
         polls s \<le> k \<and>
         fst (framebufferSize env k) \<noteq> 0 \<and> snd (framebufferSize env k) \<noteq> 0 \<and>
         (\<forall>j. polls s \<le> j \<and> j < k \<longrightarrow>
            fst (framebufferSize env j) = 0 \<or> snd (framebufferSize env j) = 0) \<and>
         (recreateSwapChain env s = Returns s' \<or>
          (\<exists>e. recreateSwapChain env s = Throws e s')) \<and>
         polls s' = Suc k \<and>
         trace s' = trace s @ GetFramebufferSize #
           concat (replicate (k - polls s) [GetFramebufferSize, WaitEvents]) @
           DeviceWaitIdle # CleanupSwapChain #
           CreateSwapChain (selectSwapExtent (surfaceCapabilities env) (windowSize env)) # evs \<and>
         set evs \<subseteq> {CreateImageViews, CreateDepthResources, CreateFramebuffers}"
    by (intro exI conjI)
qed

lemma recreateSwapChain_polling_examples:
  "recreateSwapChain (example_env\<lparr>framebufferSize := minimised_size\<rparr>)
       (initial_app 2 \<lparr>width = 640, height = 480\<rparr>) =
     Blocks (log_event GetFramebufferSize (initial_app 2 \<lparr>width = 640, height = 480\<rparr>)) \<and>
   (\<exists>j\<ge>polls (initial_app 2 \<lparr>width = 640, height = 480\<rparr>).
      fst (framebufferSize (example_env\<lparr>framebufferSize := restored_size\<rparr>) j) \<noteq> 0 \<and>
      snd (framebufferSize (example_env\<lparr>framebufferSize := restored_size\<rparr>) j) \<noteq> 0) \<and>
   polls (outcome_state (recreateSwapChain (example_env\<lparr>framebufferSize := restored_size\<rparr>)
       (initial_app 2 \<lparr>width = 640, height = 480\<rparr>))) = 3"
proof -
  let ?s0 = "initial_app 2 \<lparr>width = 640, height = 480\<rparr>"
  let ?M = "example_env\<lparr>framebufferSize := minimised_size\<rparr>"
  let ?R = "example_env\<lparr>framebufferSize := restored_size\<rparr>"
  have z: "\<forall>j\<ge>polls ?s0. fst (framebufferSize ?M j) = 0 \<or> snd (framebufferSize ?M j) = 0"
    by (simp add: minimised_size_def)
  have n: "\<exists>j\<ge>polls ?s0. fst (framebufferSize ?R j) \<noteq> 0 \<and> snd (framebufferSize ?R j) \<noteq> 0"
    by (rule exI [of _ 2]) (simp add: restored_size_def initial_app_2)
  from recreateSwapChain_polls_until_nonzero [of ?s0 ?M] z
  have b: "recreateSwapChain ?M ?s0 = Blocks (log_event GetFramebufferSize ?s0)"
    by blast
  from recreateSwapChain_polls_until_nonzero [of ?s0 ?R] n
  obtain k s' where k: "polls ?s0 \<le> k"
    "fst (framebufferSize ?R k) \<noteq> 0" "snd (framebufferSize ?R k) \<noteq> 0"
    "\<forall>j. polls ?s0 \<le> j \<and> j < k \<longrightarrow> fst (framebufferSize ?R j) = 0 \<or> snd (framebufferSize ?R j) = 0"
    and o: "recreateSwapChain ?R ?s0 = Returns s' \<or> (\<exists>e. recreateSwapChain ?R ?s0 = Throws e s')"
    and p: "polls s' = Suc k"
    by blast
  from k(2) have "2 \<le> k" by (simp add: restored_size_def split: if_splits)
  moreover have "\<not> 2 < k"
  proof
    assume "2 < k"
    with k(4) have "fst (framebufferSize ?R 2) = 0 \<or> snd (framebufferSize ?R 2) = 0"
      by (simp add: initial_app_2)
    then show False by (simp add: restored_size_def)
  qed
  ultimately have "k = 2" by simp
  with o p have "polls (outcome_state (recreateSwapChain ?R ?s0)) = 3" by auto
  with b n show ?thesis by (intro conjI)
qed

lemma word_ge_1_nonzero: "(1 :: uint32_t) \<le> lo \<Longrightarrow> lo \<le> v \<Longrightarrow> v \<noteq> 0"
  by (auto simp add: word_le_nat_alt)

text \<open>
  The extent of the new swapchain is not zero when the surface capabilities that
  \<^verbatim>\<open>createSwapChain\<close> reads report a current extent that is not zero, or the sentinel
  with lower bounds of at least \<open>1\<close>.
\<close>

lemma recreateSwapChain_extent_nonzero:
  assumes "recreateSwapChain env s = Returns s'"
    and "width (currentExtent (surfaceCapabilities env)) \<noteq> - 1 \<Longrightarrow>
           width (currentExtent (surfaceCapabilities env)) \<noteq> 0 \<and>
           height (currentExtent (surfaceCapabilities env)) \<noteq> 0"
    and "width (currentExtent (surfaceCapabilities env)) = - 1 \<Longrightarrow>
           1 \<le> width (minImageExtent (surfaceCapabilities env)) \<and>
           width (minImageExtent (surfaceCapabilities env)) \<le>
             width (maxImageExtent (surfaceCapabilities env)) \<and>
           1 \<le> height (minImageExtent (surfaceCapabilities env)) \<and>
           height (minImageExtent (surfaceCapabilities env)) \<le>
             height (maxImageExtent (surfaceCapabilities env))"
  shows "width (m_swapChainExtent s') \<noteq> 0 \<and> height (m_swapChainExtent s') \<noteq> 0"
proof -
  let ?caps = "surfaceCapabilities env"
  have e: "m_swapChainExtent s' = selectSwapExtent ?caps (windowSize env)"
    using assms(1) by (rule recreateSwapChain_extent)
  show ?thesis
  proof (cases "width (currentExtent ?caps) = - 1")
    case False
    with assms(2) e show ?thesis by (simp add: selectSwapExtent_def)
  next
    case True
    from assms(3) [OF True] have b: "1 \<le> width (minImageExtent ?caps)"
      "width (minImageExtent ?caps) \<le> width (maxImageExtent ?caps)"
      "1 \<le> height (minImageExtent ?caps)"
      "height (minImageExtent ?caps) \<le> height (maxImageExtent ?caps)"
      by simp_all
    have "width (selectSwapExtent ?caps (windowSize env)) \<noteq> 0"
      using True word_ge_1_nonzero [OF b(1) clamp_range(1) [OF b(2)]]
      by (simp add: selectSwapExtent_def)
    moreover have "height (selectSwapExtent ?caps (windowSize env)) \<noteq> 0"
      using True word_ge_1_nonzero [OF b(3) clamp_range(1) [OF b(4)]]
      by (simp add: selectSwapExtent_def)
    ultimately show ?thesis using e by simp
  qed
qed

lemma reminimised_poll:
  "pollFramebufferSize reminimised_size (Suc 0) (reminimised_size 0) = Some (3, (800, 600))"
proof -
  have "pollFramebufferSize reminimised_size (Suc 0) (reminimised_size 0) =
          pollFramebufferSize reminimised_size (Suc (Suc 0)) (reminimised_size (Suc 0))"
    by (rule poll_again) (simp add: reminimised_size_def)
  also have "\<dots> = pollFramebufferSize reminimised_size (Suc (Suc (Suc 0)))
                    (reminimised_size (Suc (Suc 0)))"
    by (rule poll_again) (simp add: reminimised_size_def)
  also have "\<dots> = Some (Suc (Suc (Suc 0)), reminimised_size (Suc (Suc 0)))"
    by (rule poll_exit) (simp_all add: reminimised_size_def)
  finally show ?thesis by (simp add: reminimised_size_def numeral_3_eq_3)
qed

text \<open>
  Claim C8.  Swapchain recreation is never to create a zero-extent swapchain; the polling
  loop is the guard against it.  The loop tests the size it polled before the last
  \<^verbatim>\<open>glfwWaitEvents\<close>, and the extent that \<^verbatim>\<open>createSwapChain\<close> requests is never tested.  A
  window that is minimised at the first two polls, \<open>800 \<times> 600\<close> at the third and minimised
  again during the wait for events that follows leaves the loop; the surface then reports
  a current extent of \<open>0 \<times> 0\<close>, and \<^verbatim>\<open>vkCreateSwapchainKHR\<close> is called with extent
  \<open>0 \<times> 0\<close>, whatever it answers.  If it succeeds, the swapchain has extent \<open>0 \<times> 0\<close>.
\<close>

theorem recreateSwapChain_zero_extent_after_stale_poll:
  "reminimised_size 0 = (0, 0) \<and> reminimised_size 1 = (0, 0) \<and>
   reminimised_size 2 = (800, 600) \<and>
   currentExtent (surfaceCapabilities reminimised_env) = \<lparr>width = 0, height = 0\<rparr> \<and>
   recreateSwapChain reminimised_env (initial_app 2 \<lparr>width = 640, height = 480\<rparr>) =
     Returns \<lparr>m_currentFrame = 0, m_inFlightFences = [True, True], pending = [],
       m_swapChainExtent = \<lparr>width = 0, height = 0\<rparr>, polls = 3,
       trace = [GetFramebufferSize, GetFramebufferSize, WaitEvents, GetFramebufferSize,
                WaitEvents, DeviceWaitIdle, CleanupSwapChain,
                CreateSwapChain \<lparr>width = 0, height = 0\<rparr>,
                CreateImageViews, CreateDepthResources, CreateFramebuffers]\<rparr> \<and>
   (\<forall>r. CreateSwapChain \<lparr>width = 0, height = 0\<rparr> \<in>
      set (trace (outcome_state (recreateSwapChain
        (reminimised_env\<lparr>resultCreateSwapchainKHR := r\<rparr>)
        (initial_app 2 \<lparr>width = 640, height = 480\<rparr>)))))"
proof -
  let ?s0 = "initial_app 2 \<lparr>width = 640, height = 480\<rparr>"
  have sel: "selectSwapExtent minimised_capabilities (0, 0) = \<lparr>width = 0, height = 0\<rparr>"
    by (simp add: selectSwapExtent_def minimised_capabilities_def)
  have rep: "concat (replicate 2 [GetFramebufferSize, WaitEvents]) =
      [GetFramebufferSize, WaitEvents, GetFramebufferSize, WaitEvents]"
    by code_simp
  have p: "reminimised_size 0 = (0, 0)" "reminimised_size 1 = (0, 0)"
    "reminimised_size 2 = (800, 600)"
    by (simp_all add: reminimised_size_def)
  have c: "currentExtent (surfaceCapabilities reminimised_env) = \<lparr>width = 0, height = 0\<rparr>"
    by (simp add: reminimised_env_def minimised_capabilities_def)
  have r: "recreateSwapChain reminimised_env ?s0 =
     Returns \<lparr>m_currentFrame = 0, m_inFlightFences = [True, True], pending = [],
       m_swapChainExtent = \<lparr>width = 0, height = 0\<rparr>, polls = 3,
       trace = [GetFramebufferSize, GetFramebufferSize, WaitEvents, GetFramebufferSize,
                WaitEvents, DeviceWaitIdle, CleanupSwapChain,
                CreateSwapChain \<lparr>width = 0, height = 0\<rparr>,
                CreateImageViews, CreateDepthResources, CreateFramebuffers]\<rparr>"
    by (simp add: recreateSwapChain_def reminimised_env_def example_env_def initial_app_2
        reminimised_poll vkDeviceWaitIdle_def log_event_def rebuildSwapChain_def
        createSwapChain_def rebuild_step_def sel Let_def rep)
  have d: "CreateSwapChain \<lparr>width = 0, height = 0\<rparr> \<in>
      set (trace (outcome_state (recreateSwapChain
        (reminimised_env\<lparr>resultCreateSwapchainKHR := r\<rparr>) ?s0)))" for r
    by (cases "r = VK_SUCCESS")
      (simp_all add: recreateSwapChain_def reminimised_env_def example_env_def initial_app_2
        reminimised_poll vkDeviceWaitIdle_def log_event_def rebuildSwapChain_def
        createSwapChain_def rebuild_step_def sel Let_def rep)
  from p c r d show ?thesis by (intro conjI allI)
qed

subsection \<open>Submitting and presenting\<close>

lemma submit_and_present_unfold:
  assumes "resultBeginCommandBuffer env = VK_SUCCESS" "resultEndCommandBuffer env = VK_SUCCESS"
    "resultQueueSubmit env = VK_SUCCESS"
  shows "submit_and_present N env s =
    (if resultQueuePresentKHR env = VK_ERROR_OUT_OF_DATE_KHR
        \<or> resultQueuePresentKHR env = VK_SUBOPTIMAL_KHR \<or> hasFramebufferResized env
     then (case recreateSwapChain env
                 (s\<lparr>m_inFlightFences := (m_inFlightFences s)[m_currentFrame s := False],
                     pending := pending s @ [m_currentFrame s],
                     trace := trace s @
                       [UpdateUniformBuffer (m_currentFrame s), ResetFences (m_currentFrame s),
                        ResetCommandBuffer (m_currentFrame s),
                        RecordCommandBuffer (m_currentFrame s) (imageIndex env),
                        QueueSubmit (m_currentFrame s), QueuePresentKHR (imageIndex env),
                        SetFramebufferResized False]\<rparr>) of
             Returns s8 \<Rightarrow>
               Returns (s8\<lparr>m_currentFrame := (m_currentFrame s8 + 1) mod N\<rparr>)
           | other \<Rightarrow> other)
     else if resultQueuePresentKHR env \<noteq> VK_SUCCESS
     then Throws (runtime_error ''failed to present swap chain image!'')
            (s\<lparr>m_inFlightFences := (m_inFlightFences s)[m_currentFrame s := False],
                     pending := pending s @ [m_currentFrame s],
                     trace := trace s @
                       [UpdateUniformBuffer (m_currentFrame s), ResetFences (m_currentFrame s),
                        ResetCommandBuffer (m_currentFrame s),
                        RecordCommandBuffer (m_currentFrame s) (imageIndex env),
                        QueueSubmit (m_currentFrame s), QueuePresentKHR (imageIndex env)]\<rparr>)
     else Returns
            (s\<lparr>m_currentFrame := (m_currentFrame s + 1) mod N,
                     m_inFlightFences := (m_inFlightFences s)[m_currentFrame s := False],
                     pending := pending s @ [m_currentFrame s],
                     trace := trace s @
                       [UpdateUniformBuffer (m_currentFrame s), ResetFences (m_currentFrame s),
                        ResetCommandBuffer (m_currentFrame s),
                        RecordCommandBuffer (m_currentFrame s) (imageIndex env),
                        QueueSubmit (m_currentFrame s), QueuePresentKHR (imageIndex env)]\<rparr>))"
  using assms
  by (simp add: submit_and_present_def recordCommandBuffer_def vkResetFences_def log_event_def
      Let_def)

lemma submit_and_present_Returns_results:
  assumes "submit_and_present N env s = Returns s'"
  shows "resultBeginCommandBuffer env = VK_SUCCESS \<and> resultEndCommandBuffer env = VK_SUCCESS \<and>
    resultQueueSubmit env = VK_SUCCESS"
  using assms
  by (auto simp add: submit_and_present_def recordCommandBuffer_def Let_def split: if_splits)

lemma frame_inv_submitted:
  assumes "frame_inv N s" "m_inFlightFences s ! m_currentFrame s"
    "m_currentFrame s \<notin> set (pending s)"
  shows "frame_inv N (s\<lparr>m_inFlightFences := (m_inFlightFences s)[m_currentFrame s := False],
                     pending := pending s @ [m_currentFrame s], trace := t\<rparr>)"
proof -
  let ?f = "m_currentFrame s"
  from assms have len: "length (m_inFlightFences s) = N"
    and d: "distinct (pending s)"
    and fl: "\<And>g. g < N \<Longrightarrow> m_inFlightFences s ! g \<longleftrightarrow> g \<notin> set (pending s)"
    and b: "\<And>g. g \<in> set (pending s) \<Longrightarrow> g < N"
    and c: "?f < N"
    by (auto simp add: frame_inv_def)
  have "(m_inFlightFences s)[?f := False] ! g \<longleftrightarrow> g \<notin> set (pending s @ [?f])"
    if "g < N" for g
  proof (cases "g = ?f")
    case True
    with that len show ?thesis by simp
  next
    case False
    with that fl [OF that] show ?thesis by simp
  qed
  with len d b c assms(3) show ?thesis
    by (auto simp add: frame_inv_def)
qed

lemma frame_inv_advance:
  assumes "frame_inv N s" "0 < N"
  shows "frame_inv N (s\<lparr>m_currentFrame := (m_currentFrame s + 1) mod N\<rparr>)"
  using assms by (simp add: frame_inv_def)

lemma recreateSwapChain_inv:
  assumes "frame_inv N s" "recreateSwapChain env s = Returns s'"
  shows "frame_inv N s'"
proof (cases "pollFramebufferSize (framebufferSize env) (Suc (polls s))
             (framebufferSize env (polls s))")
  case None
  with assms show ?thesis by (simp add: recreateSwapChain_blocks)
next
  case (Some r)
  obtain k wh where "r = (k, wh)" by (cases r)
  with Some recreateSwapChain_proceeds [of env s k wh] assms show ?thesis by auto
qed

lemma submit_and_present_inv:
  assumes inv: "frame_inv N s" and sig: "m_inFlightFences s ! m_currentFrame s"
    and np: "m_currentFrame s \<notin> set (pending s)" and N: "0 < N"
    and ret: "submit_and_present N env s = Returns s'"
  shows "frame_inv N s'"
proof -
  note res = submit_and_present_Returns_results [OF ret]
  from res have u: "resultBeginCommandBuffer env = VK_SUCCESS"
    "resultEndCommandBuffer env = VK_SUCCESS" "resultQueueSubmit env = VK_SUCCESS"
    by simp_all
  note unf = submit_and_present_unfold [OF u, of N s]
  let ?ev = "[UpdateUniformBuffer (m_currentFrame s), ResetFences (m_currentFrame s),
                        ResetCommandBuffer (m_currentFrame s),
                        RecordCommandBuffer (m_currentFrame s) (imageIndex env),
                        QueueSubmit (m_currentFrame s), QueuePresentKHR (imageIndex env)]"
  show ?thesis
  proof (cases "resultQueuePresentKHR env = VK_ERROR_OUT_OF_DATE_KHR
        \<or> resultQueuePresentKHR env = VK_SUBOPTIMAL_KHR \<or> hasFramebufferResized env")
    case True
    let ?s7 = "s\<lparr>m_inFlightFences := (m_inFlightFences s)[m_currentFrame s := False],
                     pending := pending s @ [m_currentFrame s],
                     trace := trace s @ ?ev @ [SetFramebufferResized False]\<rparr>"
    have i7: "frame_inv N ?s7" using inv sig np by (rule frame_inv_submitted)
    from ret True unf obtain s8 where r8: "recreateSwapChain env ?s7 = Returns s8"
      and s': "s' = s8\<lparr>m_currentFrame := (m_currentFrame s8 + 1) mod N\<rparr>"
      by (auto split: outcome.splits)
    from i7 r8 have "frame_inv N s8" by (rule recreateSwapChain_inv)
    then show ?thesis unfolding s' using N by (rule frame_inv_advance)
  next
    case False
    let ?s7 = "s\<lparr>m_inFlightFences := (m_inFlightFences s)[m_currentFrame s := False],
                     pending := pending s @ [m_currentFrame s],
                     trace := trace s @ ?ev\<rparr>"
    have i7: "frame_inv N ?s7" using inv sig np by (rule frame_inv_submitted)
    from ret False unf have s': "s' = ?s7\<lparr>m_currentFrame := (m_currentFrame ?s7 + 1) mod N\<rparr>"
      by (auto split: if_splits)
    show ?thesis unfolding s' using i7 N by (rule frame_inv_advance)
  qed
qed

subsection \<open>One frame\<close>

lemma draw_unfold:
  assumes "frame_inv N s"
  shows "\<exists>s1. vkWaitForFences (m_currentFrame s) s = Returns s1 \<and> frame_inv N s1 \<and>
           m_inFlightFences s1 ! m_currentFrame s \<and> m_currentFrame s \<notin> set (pending s1) \<and>
           trace s1 = trace s @ [WaitForFences (m_currentFrame s)] \<and>
           m_currentFrame s1 = m_currentFrame s \<and> polls s1 = polls s \<and>
           set (pending s1) \<subseteq> set (pending s) \<and>
           (m_inFlightFences s ! m_currentFrame s \<longrightarrow>
              pending s1 = pending s \<and> m_inFlightFences s1 = m_inFlightFences s) \<and>
           draw N env s =
             (if resultAcquireNextImageKHR env = VK_ERROR_OUT_OF_DATE_KHR
              then recreateSwapChain env (log_event (AcquireNextImageKHR (m_currentFrame s)) s1)
              else if resultAcquireNextImageKHR env \<noteq> VK_SUCCESS
                      \<and> resultAcquireNextImageKHR env \<noteq> VK_SUBOPTIMAL_KHR
              then Throws (runtime_error ''failed to acquire swap chain image!'')
                     (log_event (AcquireNextImageKHR (m_currentFrame s)) s1)
              else submit_and_present N env
                     (log_event (AcquireNextImageKHR (m_currentFrame s)) s1))"
proof -
  from assms have "m_currentFrame s < N" by (simp add: frame_inv_def)
  from vkWaitForFences_inv [OF assms this]
  obtain s1 where w: "vkWaitForFences (m_currentFrame s) s = Returns s1"
    and f: "frame_inv N s1" "m_inFlightFences s1 ! m_currentFrame s"
      "m_currentFrame s \<notin> set (pending s1)"
      "trace s1 = trace s @ [WaitForFences (m_currentFrame s)]"
      "m_currentFrame s1 = m_currentFrame s" "polls s1 = polls s"
      "set (pending s1) \<subseteq> set (pending s)"
      "m_inFlightFences s ! m_currentFrame s \<longrightarrow>
              pending s1 = pending s \<and> m_inFlightFences s1 = m_inFlightFences s"
    by blast
  have d: "draw N env s =
             (if resultAcquireNextImageKHR env = VK_ERROR_OUT_OF_DATE_KHR
              then recreateSwapChain env (log_event (AcquireNextImageKHR (m_currentFrame s)) s1)
              else if resultAcquireNextImageKHR env \<noteq> VK_SUCCESS
                      \<and> resultAcquireNextImageKHR env \<noteq> VK_SUBOPTIMAL_KHR
              then Throws (runtime_error ''failed to acquire swap chain image!'')
                     (log_event (AcquireNextImageKHR (m_currentFrame s)) s1)
              else submit_and_present N env
                     (log_event (AcquireNextImageKHR (m_currentFrame s)) s1))"
    by (simp add: draw_def w f(5) Let_def)
  from w f d show ?thesis by (intro exI conjI)
qed

lemma draw_inv:
  assumes inv: "frame_inv N s" and N: "0 < N" and ret: "draw N env s = Returns s'"
  shows "frame_inv N s'"
proof -
  from draw_unfold [OF inv, of env]
  obtain s1 where f: "frame_inv N s1" "m_inFlightFences s1 ! m_currentFrame s"
      "m_currentFrame s \<notin> set (pending s1)" "m_currentFrame s1 = m_currentFrame s"
    and d: "draw N env s =
             (if resultAcquireNextImageKHR env = VK_ERROR_OUT_OF_DATE_KHR
              then recreateSwapChain env (log_event (AcquireNextImageKHR (m_currentFrame s)) s1)
              else if resultAcquireNextImageKHR env \<noteq> VK_SUCCESS
                      \<and> resultAcquireNextImageKHR env \<noteq> VK_SUBOPTIMAL_KHR
              then Throws (runtime_error ''failed to acquire swap chain image!'')
                     (log_event (AcquireNextImageKHR (m_currentFrame s)) s1)
              else submit_and_present N env
                     (log_event (AcquireNextImageKHR (m_currentFrame s)) s1))"
    by blast
  let ?s2 = "log_event (AcquireNextImageKHR (m_currentFrame s)) s1"
  have i2: "frame_inv N ?s2" using f(1) by simp
  show ?thesis
  proof (cases "resultAcquireNextImageKHR env = VK_ERROR_OUT_OF_DATE_KHR")
    case True
    with d ret have "recreateSwapChain env ?s2 = Returns s'" by simp
    with i2 show ?thesis by (rule recreateSwapChain_inv)
  next
    case False
    with d ret have r: "submit_and_present N env ?s2 = Returns s'"
      by (auto split: if_splits)
    show ?thesis
      by (rule submit_and_present_inv [OF i2 _ _ N r]) (simp_all add: f)
  qed
qed

lemma initial_app_inv: "0 < N \<Longrightarrow> frame_inv N (initial_app N extent)"
  by (simp add: frame_inv_def initial_app_def createRenderingSyncObjects_def)

lemma reachable_inv:
  assumes "reachable N s" "0 < N"
  shows "frame_inv N s"
  using assms
proof (induction rule: reachable.induct)
  case (start extent)
  then show ?case by (simp add: initial_app_inv)
next
  case (gpu s f)
  then show ?case by (simp add: frame_inv_retire)
next
  case (frame s env s')
  then show ?case by (auto intro: draw_inv)
qed

lemma frame_inv_pending_le:
  assumes "frame_inv N s"
  shows "length (pending s) \<le> N"
proof -
  from assms have d: "distinct (pending s)" and sub: "set (pending s) \<subseteq> {..<N}"
    by (auto simp add: frame_inv_def)
  from d have "length (pending s) = card (set (pending s))" by (rule distinct_card [symmetric])
  also from sub have "\<dots> \<le> card {..<N}" by (intro card_mono) simp_all
  finally show ?thesis by simp
qed


subsection \<open>Frames in flight\<close>

lemma unsignaled_count:
  assumes "frame_inv N s"
  shows "length (filter (\<lambda>b. \<not> b) (m_inFlightFences s)) = length (pending s)"
proof -
  from assms have len: "length (m_inFlightFences s) = N"
    and d: "distinct (pending s)"
    and fl: "\<And>g. g < N \<Longrightarrow> m_inFlightFences s ! g \<longleftrightarrow> g \<notin> set (pending s)"
    and b: "\<And>g. g \<in> set (pending s) \<Longrightarrow> g < N"
    by (auto simp add: frame_inv_def)
  have "{i. i < length (m_inFlightFences s) \<and> \<not> m_inFlightFences s ! i} = set (pending s)"
    using len fl b by auto
  then have "length (filter (\<lambda>b. \<not> b) (m_inFlightFences s)) = card (set (pending s))"
    by (simp add: length_filter_conv_card)
  with d show ?thesis by (simp add: distinct_card)
qed

text \<open>
  Claim C2.  For every number \<open>N \<ge> 2\<close> of frames in flight and in every state the frame
  loop can reach (with the GPU finishing pending submissions at any time), at most \<open>N\<close>
  command buffers are submitted and unfinished: no slot is pending twice, and the
  unsignaled fences are exactly those of the pending slots.  Every call of \<^verbatim>\<open>draw\<close> first
  waits on the fence of the current slot; the wait returns, and the rest of \<^verbatim>\<open>draw\<close>,
  which is what resets the fence and the command buffer of that slot and submits it
  again, runs in a state in which that fence is signaled and the slot is not pending.
\<close>

theorem frames_in_flight_bounded:
  assumes "reachable N s" and "2 \<le> N"
  shows "length (pending s) \<le> N \<and> distinct (pending s) \<and>
         length (filter (\<lambda>signaled. \<not> signaled) (m_inFlightFences s)) = length (pending s) \<and>
         (\<forall>f<N. m_inFlightFences s ! f \<longleftrightarrow> f \<notin> set (pending s)) \<and>
         m_currentFrame s < N \<and>
         (\<forall>env. \<exists>s1.
            vkWaitForFences (m_currentFrame s) s = Returns s1 \<and>
            m_inFlightFences s1 ! m_currentFrame s \<and>
            m_currentFrame s \<notin> set (pending s1) \<and>
            set (pending s1) \<subseteq> set (pending s) \<and>
            draw N env s =
              (if resultAcquireNextImageKHR env = VK_ERROR_OUT_OF_DATE_KHR
               then recreateSwapChain env (log_event (AcquireNextImageKHR (m_currentFrame s)) s1)
               else if resultAcquireNextImageKHR env \<noteq> VK_SUCCESS
                       \<and> resultAcquireNextImageKHR env \<noteq> VK_SUBOPTIMAL_KHR
               then Throws (runtime_error ''failed to acquire swap chain image!'')
                      (log_event (AcquireNextImageKHR (m_currentFrame s)) s1)
               else submit_and_present N env
                      (log_event (AcquireNextImageKHR (m_currentFrame s)) s1)))"
proof -
  from assms have N: "0 < N" by simp
  from assms(1) N have inv: "frame_inv N s" by (rule reachable_inv)
  have 1: "length (pending s) \<le> N" using inv by (rule frame_inv_pending_le)
  have 2: "distinct (pending s)" using inv by (simp add: frame_inv_def)
  have 3: "length (filter (\<lambda>signaled. \<not> signaled) (m_inFlightFences s)) = length (pending s)"
    using inv by (rule unsignaled_count)
  have 4: "\<forall>f<N. m_inFlightFences s ! f \<longleftrightarrow> f \<notin> set (pending s)"
    using inv by (simp add: frame_inv_def)
  have 5: "m_currentFrame s < N" using inv by (simp add: frame_inv_def)
  have 6: "\<forall>env. \<exists>s1.
            vkWaitForFences (m_currentFrame s) s = Returns s1 \<and>
            m_inFlightFences s1 ! m_currentFrame s \<and>
            m_currentFrame s \<notin> set (pending s1) \<and>
            set (pending s1) \<subseteq> set (pending s) \<and>
            draw N env s =
              (if resultAcquireNextImageKHR env = VK_ERROR_OUT_OF_DATE_KHR
               then recreateSwapChain env (log_event (AcquireNextImageKHR (m_currentFrame s)) s1)
               else if resultAcquireNextImageKHR env \<noteq> VK_SUCCESS
                       \<and> resultAcquireNextImageKHR env \<noteq> VK_SUBOPTIMAL_KHR
               then Throws (runtime_error ''failed to acquire swap chain image!'')
                      (log_event (AcquireNextImageKHR (m_currentFrame s)) s1)
               else submit_and_present N env
                      (log_event (AcquireNextImageKHR (m_currentFrame s)) s1))"
  proof
    fix env
    from draw_unfold [OF inv, of env] show "\<exists>s1.
            vkWaitForFences (m_currentFrame s) s = Returns s1 \<and>
            m_inFlightFences s1 ! m_currentFrame s \<and>
            m_currentFrame s \<notin> set (pending s1) \<and>
            set (pending s1) \<subseteq> set (pending s) \<and>
            draw N env s =
              (if resultAcquireNextImageKHR env = VK_ERROR_OUT_OF_DATE_KHR
               then recreateSwapChain env (log_event (AcquireNextImageKHR (m_currentFrame s)) s1)
               else if resultAcquireNextImageKHR env \<noteq> VK_SUCCESS
                       \<and> resultAcquireNextImageKHR env \<noteq> VK_SUBOPTIMAL_KHR
               then Throws (runtime_error ''failed to acquire swap chain image!'')
                      (log_event (AcquireNextImageKHR (m_currentFrame s)) s1)
               else submit_and_present N env
                      (log_event (AcquireNextImageKHR (m_currentFrame s)) s1))"
      by blast
  qed
  from 1 2 3 4 5 6 show ?thesis by (intro conjI)
qed

lemma example_draw:
  "draw 2 example_env (initial_app 2 \<lparr>width = 800, height = 600\<rparr>) =
     Returns \<lparr>m_currentFrame = 1, m_inFlightFences = [False, True], pending = [0],
       m_swapChainExtent = \<lparr>width = 800, height = 600\<rparr>, polls = 0,
       trace = [WaitForFences 0, AcquireNextImageKHR 0, UpdateUniformBuffer 0,
                ResetFences 0, ResetCommandBuffer 0, RecordCommandBuffer 0 0, QueueSubmit 0,
                QueuePresentKHR 0]\<rparr>"
  by (simp add: draw_def vkWaitForFences_def initial_app_2 log_event_def example_env_def
      submit_and_present_def vkResetFences_def recordCommandBuffer_def Let_def)

theorem frames_in_flight_bounded_witness:
  "reachable MAX_FRAMES_IN_FLIGHT
     \<lparr>m_currentFrame = 1, m_inFlightFences = [False, True], pending = [0],
       m_swapChainExtent = \<lparr>width = 800, height = 600\<rparr>, polls = 0,
       trace = [WaitForFences 0, AcquireNextImageKHR 0, UpdateUniformBuffer 0,
                ResetFences 0, ResetCommandBuffer 0, RecordCommandBuffer 0 0, QueueSubmit 0,
                QueuePresentKHR 0]\<rparr> \<and>
   2 \<le> MAX_FRAMES_IN_FLIGHT \<and>
   length (pending
     \<lparr>m_currentFrame = 1, m_inFlightFences = [False, True], pending = [0],
       m_swapChainExtent = \<lparr>width = 800, height = 600\<rparr>, polls = 0,
       trace = [WaitForFences 0, AcquireNextImageKHR 0, UpdateUniformBuffer 0,
                ResetFences 0, ResetCommandBuffer 0, RecordCommandBuffer 0 0, QueueSubmit 0,
                QueuePresentKHR 0]\<rparr>) \<le> MAX_FRAMES_IN_FLIGHT \<and>
   length (filter (\<lambda>signaled. \<not> signaled) [False, True]) = length [0 :: nat]"
proof -
  let ?S = "\<lparr>m_currentFrame = 1, m_inFlightFences = [False, True], pending = [0],
       m_swapChainExtent = \<lparr>width = 800, height = 600\<rparr>, polls = 0,
       trace = [WaitForFences 0, AcquireNextImageKHR 0, UpdateUniformBuffer 0,
                ResetFences 0, ResetCommandBuffer 0, RecordCommandBuffer 0 0, QueueSubmit 0,
                QueuePresentKHR 0]\<rparr>"
  have "reachable 2 (initial_app 2 \<lparr>width = 800, height = 600\<rparr>)" by (rule reachable.start)
  then have "reachable 2 ?S" using example_draw by (rule reachable.frame)
  then have r: "reachable MAX_FRAMES_IN_FLIGHT ?S" by (simp only: MAX_FRAMES_IN_FLIGHT_def)
  have n: "2 \<le> MAX_FRAMES_IN_FLIGHT" by (simp add: MAX_FRAMES_IN_FLIGHT_def)
  from frames_in_flight_bounded [OF r n]
  have "length (pending ?S) \<le> MAX_FRAMES_IN_FLIGHT"
    "length (filter (\<lambda>signaled. \<not> signaled) (m_inFlightFences ?S)) = length (pending ?S)"
    by blast+
  then have "length (pending ?S) \<le> MAX_FRAMES_IN_FLIGHT"
    "length (filter (\<lambda>signaled. \<not> signaled) [False, True]) = length [0 :: nat]"
    by simp_all
  with r n show ?thesis by (intro conjI)
qed

text \<open>
  Claim C4.  If acquisition reports out-of-date, \<^verbatim>\<open>draw\<close> is the wait on the current slot's
  fence, the acquisition, and then \<^verbatim>\<open>recreateSwapChain\<close>, whose outcome is the outcome of
  \<^verbatim>\<open>draw\<close>.  Whatever that outcome, nothing is submitted, recorded or presented and no
  fence is reset or waited on after the acquisition; the frame counter is unchanged; the
  slot's fence is still signaled.  Hence the wait at the start of the next \<^verbatim>\<open>draw\<close>, which
  is on the same slot, returns at once: nothing waits for the frame that was not
  submitted.  The state is any state satisfying the invariant \<^const>\<open>frame_inv\<close> of the
  render loop, which holds in every state that loop reaches.
\<close>

theorem draw_out_of_date_abandons_frame:
  assumes "frame_inv N s"
      and "resultAcquireNextImageKHR env = VK_ERROR_OUT_OF_DATE_KHR"
  shows "\<exists>s1 new.
           vkWaitForFences (m_currentFrame s) s = Returns s1 \<and>
           draw N env s =
             recreateSwapChain env (log_event (AcquireNextImageKHR (m_currentFrame s)) s1) \<and>
           trace (outcome_state (draw N env s)) =
             trace s @ [WaitForFences (m_currentFrame s), AcquireNextImageKHR (m_currentFrame s),
                        GetFramebufferSize] @ new \<and>
           (\<forall>g i. QueueSubmit g \<notin> set new \<and> ResetFences g \<notin> set new \<and>
                  WaitForFences g \<notin> set new \<and> ResetCommandBuffer g \<notin> set new \<and>
                  RecordCommandBuffer g i \<notin> set new \<and> QueuePresentKHR i \<notin> set new) \<and>
           m_currentFrame (outcome_state (draw N env s)) = m_currentFrame s \<and>
           m_inFlightFences (outcome_state (draw N env s)) ! m_currentFrame s \<and>
           set (pending (outcome_state (draw N env s))) \<subseteq> set (pending s) \<and>
           (\<forall>s'. draw N env s = Returns s' \<longrightarrow>
              vkWaitForFences (m_currentFrame s') s' =
                Returns (log_event (WaitForFences (m_currentFrame s')) s'))"
proof -
  let ?f = "m_currentFrame s"
  from assms(1) have fN: "?f < N" by (simp add: frame_inv_def)
  from draw_unfold [OF assms(1), of env] assms(2)
  obtain s1 where w: "vkWaitForFences ?f s = Returns s1"
    and i1: "frame_inv N s1" and sig: "m_inFlightFences s1 ! ?f"
    and t1: "trace s1 = trace s @ [WaitForFences ?f]"
    and c1: "m_currentFrame s1 = ?f"
    and p1: "set (pending s1) \<subseteq> set (pending s)"
    and d: "draw N env s = recreateSwapChain env (log_event (AcquireNextImageKHR ?f) s1)"
    by auto
  let ?s2 = "log_event (AcquireNextImageKHR ?f) s1"
  have i2: "frame_inv N ?s2" using i1 by simp
  have "\<exists>new. trace (outcome_state (recreateSwapChain env ?s2)) =
             trace ?s2 @ [GetFramebufferSize] @ new \<and>
           (\<forall>g i. QueueSubmit g \<notin> set new \<and> ResetFences g \<notin> set new \<and>
                  WaitForFences g \<notin> set new \<and> ResetCommandBuffer g \<notin> set new \<and>
                  RecordCommandBuffer g i \<notin> set new \<and> QueuePresentKHR i \<notin> set new) \<and>
           m_currentFrame (outcome_state (recreateSwapChain env ?s2)) = ?f \<and>
           m_inFlightFences (outcome_state (recreateSwapChain env ?s2)) ! ?f \<and>
           set (pending (outcome_state (recreateSwapChain env ?s2))) \<subseteq> set (pending s)"
  proof (cases "pollFramebufferSize (framebufferSize env) (Suc (polls ?s2))
             (framebufferSize env (polls ?s2))")
    case None
    then have "recreateSwapChain env ?s2 = Blocks (log_event GetFramebufferSize ?s2)"
      by (rule recreateSwapChain_blocks)
    with sig c1 p1 show ?thesis by (intro exI [of _ "[]"]) simp
  next
    case (Some r)
    obtain k wh where "r = (k, wh)" by (cases r)
    with Some have p: "pollFramebufferSize (framebufferSize env) (Suc (polls ?s2))
             (framebufferSize env (polls ?s2)) = Some (k, wh)" by simp
    from recreateSwapChain_proceeds [OF p]
    obtain s' evs where o: "recreateSwapChain env ?s2 = Returns s' \<or>
                    (\<exists>e. recreateSwapChain env ?s2 = Throws e s')"
      and t: "trace s' = trace ?s2 @ GetFramebufferSize #
         concat (replicate (k - Suc (polls ?s2)) [GetFramebufferSize, WaitEvents]) @
         DeviceWaitIdle # CleanupSwapChain #
         CreateSwapChain (selectSwapExtent (surfaceCapabilities env) (windowSize env)) # evs"
      and e: "set evs \<subseteq> {CreateImageViews, CreateDepthResources, CreateFramebuffers}"
      and c: "m_currentFrame s' = m_currentFrame ?s2" and pe: "pending s' = []"
      and iv: "\<forall>N. frame_inv N ?s2 \<longrightarrow> frame_inv N s' \<and> m_inFlightFences s' = replicate N True"
      by blast
    from o have os: "outcome_state (recreateSwapChain env ?s2) = s'" by auto
    let ?new = "concat (replicate (k - Suc (polls ?s2)) [GetFramebufferSize, WaitEvents]) @
         DeviceWaitIdle # CleanupSwapChain #
         CreateSwapChain (selectSwapExtent (surfaceCapabilities env) (windowSize env)) # evs"
    have no: "\<forall>g i. QueueSubmit g \<notin> set ?new \<and> ResetFences g \<notin> set ?new \<and>
                  WaitForFences g \<notin> set ?new \<and> ResetCommandBuffer g \<notin> set ?new \<and>
                  RecordCommandBuffer g i \<notin> set ?new \<and> QueuePresentKHR i \<notin> set ?new"
      using e by (auto split: if_splits)
    from iv i2 have "m_inFlightFences s' = replicate N True" by blast
    with fN have fs: "m_inFlightFences s' ! ?f" by simp
    show ?thesis
      unfolding os
      by (intro exI [of _ ?new] conjI) (use t no c c1 fs pe in simp_all)
  qed
  then obtain new where tr: "trace (outcome_state (recreateSwapChain env ?s2)) =
             trace ?s2 @ [GetFramebufferSize] @ new"
    and no: "\<forall>g i. QueueSubmit g \<notin> set new \<and> ResetFences g \<notin> set new \<and>
                  WaitForFences g \<notin> set new \<and> ResetCommandBuffer g \<notin> set new \<and>
                  RecordCommandBuffer g i \<notin> set new \<and> QueuePresentKHR i \<notin> set new"
    and cf: "m_currentFrame (outcome_state (recreateSwapChain env ?s2)) = ?f"
    and fs: "m_inFlightFences (outcome_state (recreateSwapChain env ?s2)) ! ?f"
    and ps: "set (pending (outcome_state (recreateSwapChain env ?s2))) \<subseteq> set (pending s)"
    by blast
  have tr': "trace (outcome_state (draw N env s)) =
             trace s @ [WaitForFences ?f, AcquireNextImageKHR ?f, GetFramebufferSize] @ new"
    unfolding d tr by (simp add: t1)
  have nxt: "\<forall>s'. draw N env s = Returns s' \<longrightarrow>
              vkWaitForFences (m_currentFrame s') s' =
                Returns (log_event (WaitForFences (m_currentFrame s')) s')"
  proof (intro allI impI)
    fix s' assume r: "draw N env s = Returns s'"
    with d have "recreateSwapChain env ?s2 = Returns s'" by simp
    then have "outcome_state (recreateSwapChain env ?s2) = s'" by simp
    with cf fs have "m_currentFrame s' = ?f" "m_inFlightFences s' ! ?f" by simp_all
    then show "vkWaitForFences (m_currentFrame s') s' =
                Returns (log_event (WaitForFences (m_currentFrame s')) s')"
      by (simp add: vkWaitForFences_def)
  qed
  have cf': "m_currentFrame (outcome_state (draw N env s)) = ?f"
    and fs': "m_inFlightFences (outcome_state (draw N env s)) ! ?f"
    and ps': "set (pending (outcome_state (draw N env s))) \<subseteq> set (pending s)"
    using cf fs ps by (simp_all only: d)
  show ?thesis
    by (intro exI [of _ s1] exI [of _ new] conjI) (rule w d tr' no cf' fs' ps' nxt)+
qed


theorem draw_out_of_date_abandons_frame_witness:
  "frame_inv 2 (initial_app 2 \<lparr>width = 640, height = 480\<rparr>) \<and>
   resultAcquireNextImageKHR
     (example_env\<lparr>resultAcquireNextImageKHR := VK_ERROR_OUT_OF_DATE_KHR\<rparr>) =
     VK_ERROR_OUT_OF_DATE_KHR \<and>
   draw 2 (example_env\<lparr>resultAcquireNextImageKHR := VK_ERROR_OUT_OF_DATE_KHR\<rparr>)
       (initial_app 2 \<lparr>width = 640, height = 480\<rparr>) =
     Returns \<lparr>m_currentFrame = 0, m_inFlightFences = [True, True], pending = [],
       m_swapChainExtent = \<lparr>width = 800, height = 600\<rparr>, polls = 1,
       trace = [WaitForFences 0, AcquireNextImageKHR 0, GetFramebufferSize, DeviceWaitIdle,
                CleanupSwapChain, CreateSwapChain \<lparr>width = 800, height = 600\<rparr>,
                CreateImageViews, CreateDepthResources, CreateFramebuffers]\<rparr> \<and>
   m_currentFrame (outcome_state
     (draw 2 (example_env\<lparr>resultAcquireNextImageKHR := VK_ERROR_OUT_OF_DATE_KHR\<rparr>)
       (initial_app 2 \<lparr>width = 640, height = 480\<rparr>))) =
     m_currentFrame (initial_app 2 \<lparr>width = 640, height = 480\<rparr>)"
proof -
  let ?E = "example_env\<lparr>resultAcquireNextImageKHR := VK_ERROR_OUT_OF_DATE_KHR\<rparr>"
  let ?s0 = "initial_app 2 \<lparr>width = 640, height = 480\<rparr>"
  have i: "frame_inv 2 ?s0" by (simp add: initial_app_inv)
  have a: "resultAcquireNextImageKHR ?E = VK_ERROR_OUT_OF_DATE_KHR" by simp
  have d: "draw 2 ?E ?s0 =
     Returns \<lparr>m_currentFrame = 0, m_inFlightFences = [True, True], pending = [],
       m_swapChainExtent = \<lparr>width = 800, height = 600\<rparr>, polls = 1,
       trace = [WaitForFences 0, AcquireNextImageKHR 0, GetFramebufferSize, DeviceWaitIdle,
                CleanupSwapChain, CreateSwapChain \<lparr>width = 800, height = 600\<rparr>,
                CreateImageViews, CreateDepthResources, CreateFramebuffers]\<rparr>"
    by (simp add: draw_def vkWaitForFences_def initial_app_2 log_event_def example_env_def
        recreateSwapChain_def steady_size_def poll_exit vkDeviceWaitIdle_def
        rebuildSwapChain_def createSwapChain_def rebuild_step_def select_example Let_def)
  from draw_out_of_date_abandons_frame [OF i a]
  have c: "m_currentFrame (outcome_state (draw 2 ?E ?s0)) = m_currentFrame ?s0"
    by blast
  from i a d c show ?thesis by (intro conjI)
qed

text \<open>
  Claim C5, as the code has it.  If acquisition reports suboptimal, \<^verbatim>\<open>draw\<close> behaves
  exactly as for a successful acquisition.  When recording and submission succeed, the
  command buffer of the slot is recorded and submitted and the image is presented; the
  swapchain is then recreated if and only if the presentation reports out-of-date or
  suboptimal or the resize flag is set.  Otherwise \<^verbatim>\<open>draw\<close> returns (or throws, when the
  presentation fails) without recreating it: the suboptimal result of the acquisition is
  not remembered.  The state is any state satisfying the invariant \<^const>\<open>frame_inv\<close> of
  the render loop.
\<close>

theorem draw_suboptimal_proceeds:
  assumes "frame_inv N s"
      and "resultAcquireNextImageKHR env = VK_SUBOPTIMAL_KHR"
      and "resultBeginCommandBuffer env = VK_SUCCESS"
      and "resultEndCommandBuffer env = VK_SUCCESS"
      and "resultQueueSubmit env = VK_SUCCESS"
  shows "draw N env s = draw N (env\<lparr>resultAcquireNextImageKHR := VK_SUCCESS\<rparr>) s \<and>
    (\<exists>s7. trace s7 = trace s @
              [WaitForFences (m_currentFrame s), AcquireNextImageKHR (m_currentFrame s),
               UpdateUniformBuffer (m_currentFrame s), ResetFences (m_currentFrame s),
               ResetCommandBuffer (m_currentFrame s),
               RecordCommandBuffer (m_currentFrame s) (imageIndex env),
               QueueSubmit (m_currentFrame s), QueuePresentKHR (imageIndex env)] \<and>
            m_currentFrame s7 = m_currentFrame s \<and>
            m_currentFrame s \<in> set (pending s7) \<and>
            (if resultQueuePresentKHR env = VK_ERROR_OUT_OF_DATE_KHR
                \<or> resultQueuePresentKHR env = VK_SUBOPTIMAL_KHR \<or> hasFramebufferResized env
             then draw N env s =
                    (case recreateSwapChain env (log_event (SetFramebufferResized False) s7) of
                       Returns s8 \<Rightarrow>
                         Returns (s8\<lparr>m_currentFrame := (m_currentFrame s8 + 1) mod N\<rparr>)
                     | other \<Rightarrow> other)
             else if resultQueuePresentKHR env \<noteq> VK_SUCCESS
             then draw N env s =
                    Throws (runtime_error ''failed to present swap chain image!'') s7
             else draw N env s =
                    Returns (s7\<lparr>m_currentFrame := (m_currentFrame s + 1) mod N\<rparr>)))"
proof -
  let ?f = "m_currentFrame s"
  let ?env' = "env\<lparr>resultAcquireNextImageKHR := VK_SUCCESS\<rparr>"
  from draw_unfold [OF assms(1), of env] assms(2)
  obtain s1 where w: "vkWaitForFences ?f s = Returns s1"
    and t1: "trace s1 = trace s @ [WaitForFences ?f]"
    and c1: "m_currentFrame s1 = ?f"
    and d: "draw N env s = submit_and_present N env (log_event (AcquireNextImageKHR ?f) s1)"
    by auto
  let ?s2 = "log_event (AcquireNextImageKHR ?f) s1"
  have cs: "createSwapChain ?env' x = createSwapChain env x" for x
    by (simp add: createSwapChain_def)
  have rb: "rebuildSwapChain ?env' = rebuildSwapChain env"
    by (rule ext) (simp add: rebuildSwapChain_def cs split: outcome.splits)
  have rc: "recreateSwapChain ?env' x = recreateSwapChain env x" for x
    by (simp add: recreateSwapChain_def rb split: option.splits)
  have rec: "recordCommandBuffer ?env' g x = recordCommandBuffer env g x" for g x
    by (simp add: recordCommandBuffer_def Let_def)
  have same: "submit_and_present N ?env' ?s2 = submit_and_present N env ?s2"
    by (simp add: submit_and_present_def rc rec Let_def split: outcome.splits)
  have d': "draw N ?env' s = submit_and_present N ?env' ?s2"
    by (simp add: draw_def w c1 Let_def)
  have eq: "draw N env s = draw N ?env' s" by (simp only: d d' same)
  note unf = submit_and_present_unfold [OF assms(3,4,5), of N ?s2]
  let ?s7 = "?s2\<lparr>m_inFlightFences := (m_inFlightFences ?s2)[m_currentFrame ?s2 := False],
                     pending := pending ?s2 @ [m_currentFrame ?s2],
                     trace := trace ?s2 @
                       [UpdateUniformBuffer (m_currentFrame ?s2), ResetFences (m_currentFrame ?s2),
                        ResetCommandBuffer (m_currentFrame ?s2),
                        RecordCommandBuffer (m_currentFrame ?s2) (imageIndex env),
                        QueueSubmit (m_currentFrame ?s2), QueuePresentKHR (imageIndex env)]\<rparr>"
  have t7: "trace ?s7 = trace s @
              [WaitForFences ?f, AcquireNextImageKHR ?f,
               UpdateUniformBuffer ?f, ResetFences ?f, ResetCommandBuffer ?f,
               RecordCommandBuffer ?f (imageIndex env),
               QueueSubmit ?f, QueuePresentKHR (imageIndex env)]"
    by (simp add: t1 c1)
  have c7: "m_currentFrame ?s7 = ?f" by (simp add: c1)
  have p7: "?f \<in> set (pending ?s7)" by (simp add: c1)
  have br: "(if resultQueuePresentKHR env = VK_ERROR_OUT_OF_DATE_KHR
                \<or> resultQueuePresentKHR env = VK_SUBOPTIMAL_KHR \<or> hasFramebufferResized env
             then draw N env s =
                    (case recreateSwapChain env (log_event (SetFramebufferResized False) ?s7) of
                       Returns s8 \<Rightarrow>
                         Returns (s8\<lparr>m_currentFrame := (m_currentFrame s8 + 1) mod N\<rparr>)
                     | other \<Rightarrow> other)
             else if resultQueuePresentKHR env \<noteq> VK_SUCCESS
             then draw N env s =
                    Throws (runtime_error ''failed to present swap chain image!'') ?s7
             else draw N env s =
                    Returns (?s7\<lparr>m_currentFrame := (m_currentFrame s + 1) mod N\<rparr>))"
    unfolding d unf by (simp add: log_event_def c1)
  from t7 c7 p7 br have "\<exists>s7. trace s7 = trace s @
              [WaitForFences ?f, AcquireNextImageKHR ?f,
               UpdateUniformBuffer ?f, ResetFences ?f, ResetCommandBuffer ?f,
               RecordCommandBuffer ?f (imageIndex env),
               QueueSubmit ?f, QueuePresentKHR (imageIndex env)] \<and>
            m_currentFrame s7 = ?f \<and> ?f \<in> set (pending s7) \<and>
            (if resultQueuePresentKHR env = VK_ERROR_OUT_OF_DATE_KHR
                \<or> resultQueuePresentKHR env = VK_SUBOPTIMAL_KHR \<or> hasFramebufferResized env
             then draw N env s =
                    (case recreateSwapChain env (log_event (SetFramebufferResized False) s7) of
                       Returns s8 \<Rightarrow>
                         Returns (s8\<lparr>m_currentFrame := (m_currentFrame s8 + 1) mod N\<rparr>)
                     | other \<Rightarrow> other)
             else if resultQueuePresentKHR env \<noteq> VK_SUCCESS
             then draw N env s =
                    Throws (runtime_error ''failed to present swap chain image!'') s7
             else draw N env s =
                    Returns (s7\<lparr>m_currentFrame := (m_currentFrame s + 1) mod N\<rparr>))"
    by (intro exI [of _ ?s7] conjI)
  with eq show ?thesis by (rule conjI)
qed


theorem draw_suboptimal_proceeds_witness:
  "frame_inv 2 (initial_app 2 \<lparr>width = 640, height = 480\<rparr>) \<and>
   resultAcquireNextImageKHR
     (example_env\<lparr>resultAcquireNextImageKHR := VK_SUBOPTIMAL_KHR,
        resultQueuePresentKHR := VK_SUBOPTIMAL_KHR\<rparr>) = VK_SUBOPTIMAL_KHR \<and>
   resultBeginCommandBuffer
     (example_env\<lparr>resultAcquireNextImageKHR := VK_SUBOPTIMAL_KHR,
        resultQueuePresentKHR := VK_SUBOPTIMAL_KHR\<rparr>) = VK_SUCCESS \<and>
   resultEndCommandBuffer
     (example_env\<lparr>resultAcquireNextImageKHR := VK_SUBOPTIMAL_KHR,
        resultQueuePresentKHR := VK_SUBOPTIMAL_KHR\<rparr>) = VK_SUCCESS \<and>
   resultQueueSubmit
     (example_env\<lparr>resultAcquireNextImageKHR := VK_SUBOPTIMAL_KHR,
        resultQueuePresentKHR := VK_SUBOPTIMAL_KHR\<rparr>) = VK_SUCCESS \<and>
   draw 2 (example_env\<lparr>resultAcquireNextImageKHR := VK_SUBOPTIMAL_KHR,
        resultQueuePresentKHR := VK_SUBOPTIMAL_KHR\<rparr>)
       (initial_app 2 \<lparr>width = 640, height = 480\<rparr>) =
     Returns \<lparr>m_currentFrame = 1, m_inFlightFences = [True, True], pending = [],
       m_swapChainExtent = \<lparr>width = 800, height = 600\<rparr>, polls = 1,
       trace = [WaitForFences 0, AcquireNextImageKHR 0, UpdateUniformBuffer 0,
                ResetFences 0, ResetCommandBuffer 0, RecordCommandBuffer 0 0, QueueSubmit 0,
                QueuePresentKHR 0, SetFramebufferResized False, GetFramebufferSize,
                DeviceWaitIdle, CleanupSwapChain,
                CreateSwapChain \<lparr>width = 800, height = 600\<rparr>,
                CreateImageViews, CreateDepthResources, CreateFramebuffers]\<rparr> \<and>
   draw 2 (example_env\<lparr>resultAcquireNextImageKHR := VK_SUBOPTIMAL_KHR,
        resultQueuePresentKHR := VK_SUBOPTIMAL_KHR\<rparr>)
       (initial_app 2 \<lparr>width = 640, height = 480\<rparr>) =
   draw 2 (example_env\<lparr>resultAcquireNextImageKHR := VK_SUBOPTIMAL_KHR,
        resultQueuePresentKHR := VK_SUBOPTIMAL_KHR,
        resultAcquireNextImageKHR := VK_SUCCESS\<rparr>)
       (initial_app 2 \<lparr>width = 640, height = 480\<rparr>)"
proof -
  let ?E = "example_env\<lparr>resultAcquireNextImageKHR := VK_SUBOPTIMAL_KHR,
        resultQueuePresentKHR := VK_SUBOPTIMAL_KHR\<rparr>"
  let ?s0 = "initial_app 2 \<lparr>width = 640, height = 480\<rparr>"
  have i: "frame_inv 2 ?s0" by (simp add: initial_app_inv)
  have a: "resultAcquireNextImageKHR ?E = VK_SUBOPTIMAL_KHR" by simp
  have b: "resultBeginCommandBuffer ?E = VK_SUCCESS" "resultEndCommandBuffer ?E = VK_SUCCESS"
    "resultQueueSubmit ?E = VK_SUCCESS"
    by (simp_all add: example_env_def)
  have d: "draw 2 ?E ?s0 =
     Returns \<lparr>m_currentFrame = 1, m_inFlightFences = [True, True], pending = [],
       m_swapChainExtent = \<lparr>width = 800, height = 600\<rparr>, polls = 1,
       trace = [WaitForFences 0, AcquireNextImageKHR 0, UpdateUniformBuffer 0,
                ResetFences 0, ResetCommandBuffer 0, RecordCommandBuffer 0 0, QueueSubmit 0,
                QueuePresentKHR 0, SetFramebufferResized False, GetFramebufferSize,
                DeviceWaitIdle, CleanupSwapChain,
                CreateSwapChain \<lparr>width = 800, height = 600\<rparr>,
                CreateImageViews, CreateDepthResources, CreateFramebuffers]\<rparr>"
    by (simp add: draw_def vkWaitForFences_def initial_app_2 log_event_def example_env_def
        submit_and_present_def vkResetFences_def recordCommandBuffer_def
        recreateSwapChain_def steady_size_def poll_exit vkDeviceWaitIdle_def retire_def
        rebuildSwapChain_def createSwapChain_def rebuild_step_def select_example Let_def)
  from draw_suboptimal_proceeds [OF i a b]
  have e: "draw 2 ?E ?s0 = draw 2 (?E\<lparr>resultAcquireNextImageKHR := VK_SUCCESS\<rparr>) ?s0"
    by blast
  from i a b d e show ?thesis by (intro conjI)
qed

text \<open>
  The claim as written says that the swapchain is recreated after the presentation.  With
  a suboptimal acquisition and a presentation that reports success (and no resize), the
  frame ends with the presentation.
\<close>

theorem draw_suboptimal_no_recreation_counterexample:
  "resultAcquireNextImageKHR (example_env\<lparr>resultAcquireNextImageKHR := VK_SUBOPTIMAL_KHR\<rparr>)
     = VK_SUBOPTIMAL_KHR \<and>
   draw 2 (example_env\<lparr>resultAcquireNextImageKHR := VK_SUBOPTIMAL_KHR\<rparr>)
       (initial_app 2 \<lparr>width = 800, height = 600\<rparr>) =
     Returns \<lparr>m_currentFrame = 1, m_inFlightFences = [False, True], pending = [0],
       m_swapChainExtent = \<lparr>width = 800, height = 600\<rparr>, polls = 0,
       trace = [WaitForFences 0, AcquireNextImageKHR 0, UpdateUniformBuffer 0,
                ResetFences 0, ResetCommandBuffer 0, RecordCommandBuffer 0 0, QueueSubmit 0,
                QueuePresentKHR 0]\<rparr>"
  by (simp add: draw_def vkWaitForFences_def initial_app_2 log_event_def example_env_def
      submit_and_present_def vkResetFences_def recordCommandBuffer_def Let_def)


end
